(* ===== verification/Prelude.thy ===== *)
theory Prelude
  imports "HOL-Library.Word" "HOL-Library.List_Lexorder" "HOL-Library.Char_ord"
begin

section \<open>Prelude: Rust values, results, strings and integers\<close>

text \<open>
  What every component of the model shares: the machine types of the crate
  (\<open>Key\<close> and \<open>Val\<close> are \<^verbatim>\<open>Vec<u8>\<close>), the result of a Rust call with its three ends (a value, an
  error, a panic), and the parts of the Rust standard library the source uses on strings,
  integers and durations.  A Rust \<^verbatim>\<open>str\<close> is its UTF-8 bytes, so a \<^typ>\<open>string\<close> (a list of
  \<^typ>\<open>char\<close>, one per byte) has the length and the order that Rust gives it.
\<close>

named_theorems outcome_simps \<open>unfolding rules of the result combinators\<close>
named_theorems str_simps \<open>rules of the string functions\<close>

subsection \<open>Types\<close>

type_synonym u8 = "8 word"
type_synonym u32 = "32 word"
type_synonym u64 = "64 word"
type_synonym key = "u8 list"
type_synonym val = "u8 list"
type_synonym kv = "key \<Rightarrow> val option"

text \<open>
  The end of a Rust call: \<open>Ok\<close>, \<open>Err\<close>, or a panic (a failed assertion, a missing column).
\<close>

datatype ('e, 'a) outcome = Ok 'a | Err 'e | Panic

fun map_err :: "('e \<Rightarrow> 'f) \<Rightarrow> ('e, 'a) outcome \<Rightarrow> ('f, 'a) outcome" where
  "map_err f (Ok a) = Ok a"
| "map_err f (Err e) = Err (f e)"
| "map_err f Panic = Panic"

fun map_ok :: "('a \<Rightarrow> 'b) \<Rightarrow> ('e, 'a) outcome \<Rightarrow> ('e, 'b) outcome" where
  "map_ok f (Ok a) = Ok (f a)"
| "map_ok f (Err e) = Err e"
| "map_ok f Panic = Panic"

fun and_then :: "('e, 'a) outcome \<Rightarrow> ('a \<Rightarrow> ('e, 'b) outcome) \<Rightarrow> ('e, 'b) outcome" where
  "and_then (Ok a) f = f a"
| "and_then (Err e) f = Err e"
| "and_then Panic f = Panic"

lemma map_err_eq_Ok [simp]: "map_err f r = Ok a \<longleftrightarrow> r = Ok a"
  by (cases r) auto

lemma map_err_eq_Panic [simp]: "map_err f r = Panic \<longleftrightarrow> r = Panic"
  by (cases r) auto

lemma map_err_eq_Err [simp]: "map_err f r = Err e \<longleftrightarrow> (\<exists>e'. r = Err e' \<and> e = f e')"
  by (cases r) auto

lemma map_ok_eq_Ok [simp]: "map_ok f r = Ok b \<longleftrightarrow> (\<exists>a. r = Ok a \<and> b = f a)"
  by (cases r) auto

lemma map_ok_eq_Err [simp]: "map_ok f r = Err e \<longleftrightarrow> r = Err e"
  by (cases r) auto

lemma map_ok_eq_Panic [simp]: "map_ok f r = Panic \<longleftrightarrow> r = Panic"
  by (cases r) auto

lemma and_then_eq_Ok [simp]: "and_then r f = Ok b \<longleftrightarrow> (\<exists>a. r = Ok a \<and> f a = Ok b)"
  by (cases r) auto

subsection \<open>Integers\<close>

definition u32_max :: nat where "u32_max = 2 ^ 32 - 1"
definition u64_max :: nat where "u64_max = 2 ^ 64 - 1"

text \<open>\<^verbatim>\<open>saturating_mul\<close> and \<^verbatim>\<open>saturating_pow\<close> on \<^verbatim>\<open>u64\<close>, as functions on the values.\<close>

definition sat_mul64 :: "nat \<Rightarrow> nat \<Rightarrow> nat" where
  "sat_mul64 a b = min (a * b) u64_max"

definition sat_sq64 :: "nat \<Rightarrow> nat" where
  "sat_sq64 a = min (a ^ 2) u64_max"

definition checked_mul64 :: "nat \<Rightarrow> nat \<Rightarrow> nat option" where
  "checked_mul64 a b = (if a * b \<le> u64_max then Some (a * b) else None)"

subsection \<open>Characters\<close>

definition is_ascii_digit :: "char \<Rightarrow> bool" where
  "is_ascii_digit c \<longleftrightarrow> CHR ''0'' \<le> c \<and> c \<le> CHR ''9''"

definition is_ascii_uppercase :: "char \<Rightarrow> bool" where
  "is_ascii_uppercase c \<longleftrightarrow> CHR ''A'' \<le> c \<and> c \<le> CHR ''Z''"

definition is_ascii_lowercase :: "char \<Rightarrow> bool" where
  "is_ascii_lowercase c \<longleftrightarrow> CHR ''a'' \<le> c \<and> c \<le> CHR ''z''"

definition is_ascii_alphabetic :: "char \<Rightarrow> bool" where
  "is_ascii_alphabetic c \<longleftrightarrow> is_ascii_uppercase c \<or> is_ascii_lowercase c"

definition is_ascii_alphanumeric :: "char \<Rightarrow> bool" where
  "is_ascii_alphanumeric c \<longleftrightarrow> is_ascii_alphabetic c \<or> is_ascii_digit c"

definition ascii_upper :: "char \<Rightarrow> char" where
  "ascii_upper c = (if is_ascii_lowercase c then char_of (of_char c - 32 :: nat) else c)"

definition ascii_lower :: "char \<Rightarrow> char" where
  "ascii_lower c = (if is_ascii_uppercase c then char_of (of_char c + 32 :: nat) else c)"

definition to_ascii_uppercase :: "string \<Rightarrow> string" where
  "to_ascii_uppercase = map ascii_upper"

definition to_ascii_lowercase :: "string \<Rightarrow> string" where
  "to_ascii_lowercase = map ascii_lower"

lemmas char_class_defs = is_ascii_digit_def is_ascii_uppercase_def is_ascii_lowercase_def
  is_ascii_alphabetic_def is_ascii_alphanumeric_def

lemma char_le_of_char: "c \<le> d \<longleftrightarrow> (of_char c :: nat) \<le> of_char d"
  by (simp add: less_eq_char_def)

lemma ascii_upper_id: "is_ascii_uppercase c \<or> c = CHR ''_'' \<Longrightarrow> ascii_upper c = c"
  by (auto simp: ascii_upper_def char_class_defs char_le_of_char)

lemma ascii_upper_idem [simp]: "ascii_upper (ascii_upper c) = ascii_upper c"
proof (cases "is_ascii_lowercase c")
  case True
  then have "97 \<le> (of_char c :: nat)" "(of_char c :: nat) \<le> 122"
    by (auto simp: char_class_defs char_le_of_char)
  then have "of_char (char_of (of_char c - 32 :: nat)) = (of_char c - 32 :: nat)"
    by simp
  with True \<open>of_char c \<le> 122\<close> show ?thesis
    by (auto simp: ascii_upper_def char_class_defs char_le_of_char)
qed (simp add: ascii_upper_def)

subsection \<open>String functions\<close>

text \<open>\<^verbatim>\<open>str::find\<close> and \<^verbatim>\<open>rfind\<close> of a character: the index of the first and of the last hit.\<close>

fun find_char :: "char \<Rightarrow> string \<Rightarrow> nat option" where
  "find_char c [] = None"
| "find_char c (x # xs) = (if x = c then Some 0 else map_option Suc (find_char c xs))"

definition rfind_char :: "char \<Rightarrow> string \<Rightarrow> nat option" where
  "rfind_char c s = map_option (\<lambda>i. length s - 1 - i) (find_char c (rev s))"

definition starts_with :: "string \<Rightarrow> string \<Rightarrow> bool" where
  "starts_with p s \<longleftrightarrow> take (length p) s = p"

definition strip_suffix :: "string \<Rightarrow> string \<Rightarrow> string option" where
  "strip_suffix suf s =
     (if length suf \<le> length s \<and> drop (length s - length suf) s = suf
      then Some (take (length s - length suf) s) else None)"

text \<open>\<^verbatim>\<open>str::find\<close> of a substring.\<close>

fun find_str :: "string \<Rightarrow> string \<Rightarrow> nat option" where
  "find_str p s = (if starts_with p s then Some 0
     else (case s of [] \<Rightarrow> None | _ # t \<Rightarrow> map_option Suc (find_str p t)))"

declare find_str.simps [simp del]

text \<open>\<^verbatim>\<open>str::split\<close> on a character: never empty, one more piece than there are separators.\<close>

fun split_on :: "char \<Rightarrow> string \<Rightarrow> string list" where
  "split_on c [] = [[]]"
| "split_on c (x # xs) =
     (if x = c then [] # split_on c xs
      else (case split_on c xs of [] \<Rightarrow> [[x]] | p # ps \<Rightarrow> (x # p) # ps))"

definition split_once :: "char \<Rightarrow> string \<Rightarrow> (string \<times> string) option" where
  "split_once c s = map_option (\<lambda>i. (take i s, drop (Suc i) s)) (find_char c s)"

fun join_with :: "char \<Rightarrow> string list \<Rightarrow> string" where
  "join_with c [] = []"
| "join_with c [p] = p"
| "join_with c (p # q # ps) = p @ c # join_with c (q # ps)"

lemma starts_with_append [simp]: "starts_with p (p @ s)"
  by (simp add: starts_with_def)

lemma starts_with_Nil [simp]: "starts_with [] s"
  by (simp add: starts_with_def)

lemma starts_with_Cons [simp]:
  "starts_with (a # p) s \<longleftrightarrow> (\<exists>t. s = a # t \<and> starts_with p t)"
  by (cases s) (auto simp: starts_with_def)

lemma starts_with_iff: "starts_with p s \<longleftrightarrow> (\<exists>t. s = p @ t)"
  by (induction p arbitrary: s) auto

lemma find_char_None [simp]: "find_char c s = None \<longleftrightarrow> c \<notin> set s"
  by (induction s) auto

lemma find_char_notin [simp]: "c \<notin> set s \<Longrightarrow> find_char c s = None"
  by simp

lemma find_char_Some:
  "find_char c s = Some i \<Longrightarrow> i < length s \<and> s ! i = c \<and> c \<notin> set (take i s)"
  by (induction s arbitrary: i) (auto split: if_splits)

lemma find_char_append:
  "c \<notin> set p \<Longrightarrow> find_char c (p @ s) = map_option (\<lambda>i. length p + i) (find_char c s)"
  by (induction p; cases "find_char c s") auto

lemma find_char_split: "c \<notin> set p \<Longrightarrow> find_char c (p @ c # s) = Some (length p)"
  by (simp add: find_char_append)

lemma find_char_decomp:
  assumes "find_char c s = Some i"
  shows "s = take i s @ c # drop (Suc i) s"
  using find_char_Some [OF assms] id_take_nth_drop [of i s] by simp

lemma split_on_nonempty [simp]: "split_on c s \<noteq> []"
  by (induction s) (auto split: list.splits)

lemma split_on_none [simp]: "c \<notin> set s \<Longrightarrow> split_on c s = [s]"
  by (induction s) auto

lemma split_on_append: "c \<notin> set p \<Longrightarrow> split_on c (p @ c # s) = p # split_on c s"
  by (induction p) auto

lemma split_on_pieces: "p \<in> set (split_on c s) \<Longrightarrow> c \<notin> set p \<and> set p \<subseteq> set s"
proof (induction s arbitrary: p)
  case Nil
  then show ?case by simp
next
  case (Cons x s)
  obtain q qs where q: "split_on c s = q # qs"
    by (cases "split_on c s") auto
  from Cons.prems q Cons.IH show ?case
    by (auto split: if_splits) blast+
qed

lemma join_split [simp]: "join_with c (split_on c s) = s"
proof (induction s)
  case Nil
  then show ?case by simp
next
  case (Cons x s)
  obtain q qs where "split_on c s = q # qs"
    by (cases "split_on c s") auto
  with Cons show ?case by (cases qs) auto
qed

lemma split_join:
  "ps \<noteq> [] \<Longrightarrow> \<forall>p \<in> set ps. c \<notin> set p \<Longrightarrow> split_on c (join_with c ps) = ps"
  by (induction c ps rule: join_with.induct) (auto simp: split_on_append)

lemma set_join: "set (join_with c ps) \<subseteq> insert c (\<Union> (set ` set ps))"
  by (induction c ps rule: join_with.induct) auto

end
