(* ===== verification/Rust_Std.thy ===== *)
theory Rust_Std
  imports Prelude
begin

section \<open>Rust standard library: numbers, trimming, UTF-8, durations, binary search\<close>

text \<open>
  The standard-library functions the crate calls on parsed text: decimal formatting and
  parsing, \<^verbatim>\<open>str::trim\<close>, \<^verbatim>\<open>String::from_utf8_lossy\<close>, \<^verbatim>\<open>std::time::Duration\<close> and
  \<^verbatim>\<open>slice::binary_search\<close>.  Each is followed by the facts its callers need: formatting and
  parsing are inverse, formatting is injective, binary search on a sorted list is membership.
\<close>

subsection \<open>Decimal numbers\<close>

definition digit_char :: "nat \<Rightarrow> char" where
  "digit_char d = char_of (48 + d)"

lemma digit_char_numerals [simp]:
  "digit_char 0 = CHR ''0''"
  "digit_char 1 = CHR ''1''" "digit_char (Suc 0) = CHR ''1''"
  "digit_char 2 = CHR ''2''"
  "digit_char 3 = CHR ''3''"
  "digit_char 4 = CHR ''4''"
  "digit_char 5 = CHR ''5''"
  "digit_char 6 = CHR ''6''"
  "digit_char 7 = CHR ''7''"
  "digit_char 8 = CHR ''8''"
  "digit_char 9 = CHR ''9''"
  by (simp_all add: digit_char_def char_of_def bit_0)

definition digit_val :: "char \<Rightarrow> nat" where
  "digit_val c = of_char c - 48"

fun fmt_nat :: "nat \<Rightarrow> string" where
  "fmt_nat n = (if n < 10 then [digit_char n] else fmt_nat (n div 10) @ [digit_char (n mod 10)])"

declare fmt_nat.simps [simp del]

definition dec_val :: "string \<Rightarrow> nat" where
  "dec_val s = foldl (\<lambda>a c. 10 * a + digit_val c) 0 s"

text \<open>
  \<^verbatim>\<open>str::parse\<close> to an unsigned type whose largest value is \<open>m\<close>: an optional plus sign, at
  least one digit, no overflow.  To a signed type: a minus sign is allowed too.
\<close>

definition parse_unsigned :: "nat \<Rightarrow> string \<Rightarrow> nat option" where
  "parse_unsigned m s =
     (let ds = (case s of c # cs \<Rightarrow> if c = CHR ''+'' then cs else s | [] \<Rightarrow> s)
      in if ds = [] \<or> \<not> list_all is_ascii_digit ds \<or> m < dec_val ds then None
         else Some (dec_val ds))"

definition parse_signed :: "int \<Rightarrow> int \<Rightarrow> string \<Rightarrow> int option" where
  "parse_signed lo hi s =
     (let neg = (case s of c # cs \<Rightarrow> c = CHR ''-'' | [] \<Rightarrow> False);
          ds = (case s of c # cs \<Rightarrow> if c = CHR ''+'' \<or> c = CHR ''-'' then cs else s | [] \<Rightarrow> s);
          v = (if neg then - int (dec_val ds) else int (dec_val ds))
      in if ds = [] \<or> \<not> list_all is_ascii_digit ds \<or> v < lo \<or> hi < v then None else Some v)"

definition parse_u32 :: "string \<Rightarrow> nat option" where
  "parse_u32 = parse_unsigned u32_max"

definition parse_u64 :: "string \<Rightarrow> nat option" where
  "parse_u64 = parse_unsigned u64_max"

definition parse_i32 :: "string \<Rightarrow> int option" where
  "parse_i32 = parse_signed (- (2 ^ 31)) (2 ^ 31 - 1)"

lemma digit_val_char [simp]: "d < 10 \<Longrightarrow> digit_val (digit_char d) = d"
  by (simp add: digit_val_def digit_char_def)

lemma is_digit_char [simp]: "d < 10 \<Longrightarrow> is_ascii_digit (digit_char d)"
  by (simp add: is_ascii_digit_def digit_char_def char_le_of_char)

lemma digit_val_lt: "is_ascii_digit c \<Longrightarrow> digit_val c < 10"
  unfolding is_ascii_digit_def digit_val_def char_le_of_char by simp linarith

lemma dec_val_snoc [simp]: "dec_val (s @ [c]) = 10 * dec_val s + digit_val c"
  by (simp add: dec_val_def)

lemma dec_val_single [simp]: "dec_val [c] = digit_val c"
  by (simp add: dec_val_def)

lemma fmt_nat_nonempty [simp]: "fmt_nat n \<noteq> []"
  by (subst fmt_nat.simps) simp

lemma fmt_nat_digits [simp]: "list_all is_ascii_digit (fmt_nat n)"
proof (induction n rule: fmt_nat.induct)
  case (1 n)
  then show ?case by (subst fmt_nat.simps) simp
qed

lemma dec_val_fmt [simp]: "dec_val (fmt_nat n) = n"
proof (induction n rule: fmt_nat.induct)
  case (1 n)
  then show ?case by (subst fmt_nat.simps) simp
qed

lemma fmt_nat_inj [simp]: "fmt_nat m = fmt_nat n \<longleftrightarrow> m = n"
  by (metis dec_val_fmt)

lemma fmt_nat_chars: "c \<in> set (fmt_nat n) \<Longrightarrow> is_ascii_digit c"
  using fmt_nat_digits [of n] by (simp add: list_all_iff)

lemma parse_unsigned_fmt: "n \<le> m \<Longrightarrow> parse_unsigned m (fmt_nat n) = Some n"
proof -
  assume "n \<le> m"
  obtain c cs where c: "fmt_nat n = c # cs"
    by (cases "fmt_nat n") auto
  then have "is_ascii_digit c"
    using fmt_nat_chars [of c n] by simp
  then have "c \<noteq> CHR ''+''"
    by (auto simp: is_ascii_digit_def char_le_of_char)
  with c \<open>n \<le> m\<close> show ?thesis
    using fmt_nat_digits [of n] dec_val_fmt [of n] by (simp add: parse_unsigned_def)
qed

lemma parse_unsigned_le: "parse_unsigned m s = Some n \<Longrightarrow> n \<le> m"
  by (auto simp: parse_unsigned_def Let_def split: if_splits)

lemma fmt_nat_length: "n < 10 ^ k \<Longrightarrow> 0 < k \<Longrightarrow> length (fmt_nat n) \<le> k"
proof (induction n arbitrary: k rule: fmt_nat.induct)
  case (1 n)
  show ?case
  proof (cases "n < 10")
    case True
    with "1.prems" show ?thesis by (subst fmt_nat.simps) simp
  next
    case False
    with "1.prems" obtain j where j: "k = Suc j" "0 < j"
      by (cases k; cases "k - 1") auto
    with False "1.prems" have "length (fmt_nat (n div 10)) \<le> j"
      by (intro "1.IH") auto
    with False j show ?thesis by (subst fmt_nat.simps) simp
  qed
qed

lemma fmt_nat_length_mono: "m \<le> n \<Longrightarrow> length (fmt_nat m) \<le> length (fmt_nat n)"
proof (induction n arbitrary: m rule: fmt_nat.induct)
  case (1 n)
  show ?case
  proof (cases "n < 10")
    case True
    with "1.prems" show ?thesis by (simp add: fmt_nat.simps [of m] fmt_nat.simps [of n])
  next
    case False
    have "m div 10 \<le> n div 10" using "1.prems" by (simp add: div_le_mono)
    with False "1.IH" have "length (fmt_nat (m div 10)) \<le> length (fmt_nat (n div 10))"
      by simp
    with False show ?thesis
      by (cases "m < 10") (simp_all add: fmt_nat.simps [of m] fmt_nat.simps [of n])
  qed
qed

subsection \<open>Trimming\<close>

text \<open>
  \<^verbatim>\<open>str::trim\<close> drops code points with the Unicode property \<^verbatim>\<open>White_Space\<close> at both ends.
  \<open>ws_len\<close> is the number of bytes of the white-space code point a string starts with, or 0:
  U+0009 to U+000D and U+0020 (one byte), U+0085 and U+00A0 (two), U+1680, U+2000 to U+200A,
  U+2028, U+2029, U+202F, U+205F and U+3000 (three).
\<close>

definition ws_code :: "nat list \<Rightarrow> nat" where
  "ws_code ns =
     (case ns of
        a # r1 \<Rightarrow>
          if 9 \<le> a \<and> a \<le> 13 \<or> a = 32 then 1
          else (case r1 of
              b # r2 \<Rightarrow>
                if a = 194 \<and> (b = 133 \<or> b = 160) then 2
                else (case r2 of
                    c # _ \<Rightarrow>
                      if a = 225 \<and> b = 154 \<and> c = 128
                       \<or> a = 226 \<and> b = 128 \<and> (128 \<le> c \<and> c \<le> 138 \<or> c = 168 \<or> c = 169 \<or> c = 175)
                       \<or> a = 226 \<and> b = 129 \<and> c = 159
                       \<or> a = 227 \<and> b = 128 \<and> c = 128 then 3 else 0
                  | [] \<Rightarrow> 0)
            | [] \<Rightarrow> 0)
      | [] \<Rightarrow> 0)"

definition ws_len :: "string \<Rightarrow> nat" where
  "ws_len s = ws_code (map of_char (take 3 s))"

text \<open>The same at the end of a string: is the suffix of length 1, 2 or 3 one white space?\<close>

definition ws_len_end :: "string \<Rightarrow> nat" where
  "ws_len_end s =
     (let n = length s;
          ends = (\<lambda>k. k \<le> n \<and> ws_len (drop (n - k) s) = k)
      in if 1 \<le> n \<and> ends 1 then 1 else if 2 \<le> n \<and> ends 2 then 2
         else if 3 \<le> n \<and> ends 3 then 3 else 0)"

lemma ws_len_le: "ws_len s \<le> length s"
  by (cases s; cases "tl s"; cases "tl (tl s)") (auto simp: ws_len_def ws_code_def)

lemma ws_len_end_le: "ws_len_end s \<le> length s"
  by (auto simp: ws_len_end_def Let_def)

function trim_start :: "string \<Rightarrow> string" where
  "trim_start s = (if ws_len s = 0 then s else trim_start (drop (ws_len s) s))"
  by pat_completeness auto
termination
proof (relation "measure length")
  fix s :: string
  assume "ws_len s \<noteq> 0"
  with ws_len_le [of s] show "(drop (ws_len s) s, s) \<in> measure length" by simp
qed simp

function trim_end :: "string \<Rightarrow> string" where
  "trim_end s = (if ws_len_end s = 0 then s else trim_end (take (length s - ws_len_end s) s))"
  by pat_completeness auto
termination
proof (relation "measure length")
  fix s :: string
  assume "ws_len_end s \<noteq> 0"
  with ws_len_end_le [of s] show "(take (length s - ws_len_end s) s, s) \<in> measure length"
    by simp
qed simp

declare trim_start.simps [simp del] trim_end.simps [simp del]

definition trim :: "string \<Rightarrow> string" where
  "trim s = trim_end (trim_start s)"

lemma set_trim_start: "set (trim_start s) \<subseteq> set s"
proof (induction s rule: trim_start.induct)
  case (1 s)
  show ?case
  proof (cases "ws_len s = 0")
    case True
    then show ?thesis by (simp add: trim_start.simps [of s])
  next
    case False
    with "1.IH" have "set (trim_start (drop (ws_len s) s)) \<subseteq> set (drop (ws_len s) s)" by simp
    also have "\<dots> \<subseteq> set s" by (rule set_drop_subset)
    finally show ?thesis using False by (simp add: trim_start.simps [of s])
  qed
qed

lemma set_trim_end: "set (trim_end s) \<subseteq> set s"
proof (induction s rule: trim_end.induct)
  case (1 s)
  show ?case
  proof (cases "ws_len_end s = 0")
    case True
    then show ?thesis by (simp add: trim_end.simps [of s])
  next
    case False
    with "1.IH" have "set (trim_end (take (length s - ws_len_end s) s)) \<subseteq> set (take (length s - ws_len_end s) s)"
      by simp
    also have "\<dots> \<subseteq> set s" by (rule set_take_subset)
    finally show ?thesis using False by (simp add: trim_end.simps [of s])
  qed
qed

lemma set_trim: "set (trim s) \<subseteq> set s"
  unfolding trim_def using set_trim_start set_trim_end by blast

subsection \<open>Lossy UTF-8\<close>

text \<open>
  \<^verbatim>\<open>String::from_utf8_lossy\<close>: well-formed sequences are kept, every maximal ill-formed one becomes
  U+FFFD (the bytes EF BF BD).  \<open>utf8_step\<close> reads the front of a non-empty byte list: how
  many bytes it takes, and whether they are one well-formed code point.
\<close>

definition is_cont :: "nat \<Rightarrow> bool" where
  "is_cont b \<longleftrightarrow> 128 \<le> b \<and> b \<le> 191"

definition second3_ok :: "nat \<Rightarrow> nat \<Rightarrow> bool" where
  "second3_ok a b \<longleftrightarrow>
     a = 224 \<and> 160 \<le> b \<and> b \<le> 191 \<or> 225 \<le> a \<and> a \<le> 236 \<and> is_cont b
   \<or> a = 237 \<and> 128 \<le> b \<and> b \<le> 159 \<or> 238 \<le> a \<and> a \<le> 239 \<and> is_cont b"

definition second4_ok :: "nat \<Rightarrow> nat \<Rightarrow> bool" where
  "second4_ok a b \<longleftrightarrow>
     a = 240 \<and> 144 \<le> b \<and> b \<le> 191 \<or> 241 \<le> a \<and> a \<le> 243 \<and> is_cont b
   \<or> a = 244 \<and> 128 \<le> b \<and> b \<le> 143"

definition at_byte :: "nat list \<Rightarrow> nat \<Rightarrow> nat" where
  "at_byte ns i = (if i < length ns then ns ! i else 0)"

definition utf8_step :: "nat list \<Rightarrow> nat \<times> bool" where
  "utf8_step ns =
     (let a = at_byte ns 0; b = at_byte ns 1; c = at_byte ns 2; d = at_byte ns 3 in
      if a < 128 then (1, True)
      else if 194 \<le> a \<and> a \<le> 223 then (if is_cont b then (2, True) else (1, False))
      else if 224 \<le> a \<and> a \<le> 239 then
        (if \<not> second3_ok a b then (1, False) else if \<not> is_cont c then (2, False) else (3, True))
      else if 240 \<le> a \<and> a \<le> 244 then
        (if \<not> second4_ok a b then (1, False) else if \<not> is_cont c then (2, False)
         else if \<not> is_cont d then (3, False) else (4, True))
      else (1, False))"

definition fffd :: string where
  "fffd = map char_of [239, 191, 189 :: nat]"

lemma utf8_step_pos: "0 < fst (utf8_step ns)"
  by (simp add: utf8_step_def Let_def)

function utf8_lossy :: "string \<Rightarrow> string" where
  "utf8_lossy s =
     (if s = [] then []
      else (let (n, ok) = utf8_step (map of_char (take 4 s))
            in (if ok then take n s else fffd) @ utf8_lossy (drop n s)))"
  by pat_completeness auto
termination
proof (relation "measure length")
  fix s :: string and x n ok
  assume "s \<noteq> []" "x = utf8_step (map of_char (take 4 s))" "(n, ok) = x"
  then have "0 < n" using utf8_step_pos by (metis fst_conv)
  with \<open>s \<noteq> []\<close> show "(drop n s, s) \<in> measure length" by simp
qed simp

declare utf8_lossy.simps [simp del]

definition is_ascii :: "string \<Rightarrow> bool" where
  "is_ascii s \<longleftrightarrow> list_all (\<lambda>c. (of_char c :: nat) < 128) s"

lemma utf8_lossy_ascii: "is_ascii s \<Longrightarrow> utf8_lossy s = s"
proof (induction s)
  case Nil
  then show ?case by (simp add: utf8_lossy.simps)
next
  case (Cons c s)
  then have "utf8_step (map of_char (take 4 (c # s))) = (1, True)"
    by (simp add: utf8_step_def at_byte_def is_ascii_def)
  with Cons show ?case
    by (simp add: utf8_lossy.simps [of "c # s"] is_ascii_def)
qed

subsection \<open>Durations\<close>

text \<open>\<^verbatim>\<open>std::time::Duration\<close> as its number of nanoseconds.\<close>

type_synonym duration = nat

definition from_secs :: "nat \<Rightarrow> duration" where "from_secs n = n * 1000000000"
definition from_millis :: "nat \<Rightarrow> duration" where "from_millis n = n * 1000000"
definition as_secs :: "duration \<Rightarrow> nat" where "as_secs d = d div 1000000000"
definition as_millis :: "duration \<Rightarrow> nat" where "as_millis d = d div 1000000"
definition subsec_millis :: "duration \<Rightarrow> nat" where
  "subsec_millis d = (d mod 1000000000) div 1000000"

lemma as_secs_from_secs [simp]: "as_secs (from_secs n) = n"
  by (simp add: as_secs_def from_secs_def)

lemma as_millis_from_millis [simp]: "as_millis (from_millis n) = n"
  by (simp add: as_millis_def from_millis_def)

lemma subsec_from_secs [simp]: "subsec_millis (from_secs n) = 0"
  by (simp add: subsec_millis_def from_secs_def)

lemma from_secs_eq_0 [simp]: "from_secs n = 0 \<longleftrightarrow> n = 0"
  by (simp add: from_secs_def)

lemma from_millis_eq_0 [simp]: "from_millis n = 0 \<longleftrightarrow> n = 0"
  by (simp add: from_millis_def)

text \<open>
  The \<^verbatim>\<open>{:?}\<close> format of a duration: the integral part in the largest unit that is not zero, then
  the fraction without trailing zeros.
\<close>

fun frac_digits :: "nat \<Rightarrow> nat \<Rightarrow> string" where
  "frac_digits 0 f = []"
| "frac_digits (Suc w) f =
     (if f = 0 then [] else digit_char (f div 10 ^ w) # frac_digits w (f mod 10 ^ w))"

definition fmt_decimal :: "nat \<Rightarrow> nat \<Rightarrow> nat \<Rightarrow> string \<Rightarrow> string" where
  "fmt_decimal n f w unit =
     fmt_nat n @ (if f = 0 then [] else CHR ''.'' # frac_digits w f) @ unit"

definition micro_sign :: string where
  "micro_sign = map char_of [194, 181 :: nat]"

definition fmt_duration :: "duration \<Rightarrow> string" where
  "fmt_duration d =
     (if 1000000000 \<le> d then fmt_decimal (d div 1000000000) (d mod 1000000000) 9 ''s''
      else if 1000000 \<le> d then fmt_decimal (d div 1000000) (d mod 1000000) 6 ''ms''
      else if 1000 \<le> d then fmt_decimal (d div 1000) (d mod 1000) 3 (micro_sign @ ''s'')
      else fmt_decimal d 0 0 ''ns'')"

lemma fmt_duration_30s: "fmt_duration (from_secs 30) = ''30s''"
  by (simp add: fmt_duration_def from_secs_def fmt_decimal_def fmt_nat.simps)

subsection \<open>Binary search\<close>

text \<open>
  \<^verbatim>\<open>slice::binary_search\<close> as the standard library computes it: the size of the window is halved,
  rounding up, until one element is left, which is then compared.  \<open>Inr i\<close> is
  \<^verbatim>\<open>Ok(i)\<close>, \<open>Inl i\<close> the insertion point.
\<close>

function bs_loop :: "'a::linorder list \<Rightarrow> 'a \<Rightarrow> nat \<Rightarrow> nat \<Rightarrow> nat" where
  "bs_loop xs x base n =
     (if 1 < n then
        (let half = n div 2; mid = base + half
         in bs_loop xs x (if x < xs ! mid then base else mid) (n - half))
      else base)"
  by pat_completeness auto
termination by (relation "measure (\<lambda>(xs, x, base, n). n)") auto

declare bs_loop.simps [simp del]

definition binary_search :: "'a::linorder list \<Rightarrow> 'a \<Rightarrow> nat + nat" where
  "binary_search xs x =
     (if xs = [] then Inl 0
      else (let base = bs_loop xs x 0 (length xs)
            in if xs ! base = x then Inr base
               else Inl (if xs ! base < x then Suc base else base)))"

definition is_ok :: "'e + 'a \<Rightarrow> bool" where
  "is_ok r \<longleftrightarrow> (case r of Inl _ \<Rightarrow> False | Inr _ \<Rightarrow> True)"

lemma is_ok_simps [simp]: "is_ok (Inr a)" "\<not> is_ok (Inl e)"
  by (simp_all add: is_ok_def)

lemma bs_loop_lt: "0 < n \<Longrightarrow> bs_loop xs x base n < base + n"
proof (induction xs x base n rule: bs_loop.induct)
  case (1 xs x base n)
  show ?case
  proof (cases "1 < n")
    case True
    let ?b = "if x < xs ! (base + n div 2) then base else base + n div 2"
    from True "1.IH" have "bs_loop xs x ?b (n - n div 2) < ?b + (n - n div 2)" by simp
    also have "\<dots> \<le> base + n" by auto
    finally show ?thesis using True by (simp add: bs_loop.simps [of xs x base n] Let_def)
  next
    case False
    with "1.prems" show ?thesis by (simp add: bs_loop.simps [of xs x base n])
  qed
qed

lemma bs_loop_finds:
  "\<lbrakk>sorted xs; base + n \<le> length xs; base \<le> i; i < base + n; xs ! i = x\<rbrakk>
    \<Longrightarrow> xs ! bs_loop xs x base n = x"
proof (induction xs x base n arbitrary: i rule: bs_loop.induct)
  case (1 xs x base n)
  show ?case
  proof (cases "1 < n")
    case False
    with "1.prems" have "i = base" by simp
    with False "1.prems" show ?thesis by (simp add: bs_loop.simps [of xs x base n])
  next
    case True
    define mid where "mid = base + n div 2"
    have mid: "mid < length xs" using True "1.prems" by (auto simp: mid_def)
    have le: "n div 2 \<le> n - n div 2" by simp
    show ?thesis
    proof (cases "x < xs ! mid")
      case lt: True
      have "i < mid"
      proof (rule ccontr)
        assume "\<not> i < mid"
        then have "xs ! mid \<le> xs ! i" using "1.prems" by (intro sorted_nth_mono) auto
        with lt "1.prems" show False by simp
      qed
      then have "i < base + (n - n div 2)" using le by (simp add: mid_def)
      with True lt "1.prems" "1.IH" [OF True refl mid_def, of i] show ?thesis
        by (simp add: bs_loop.simps [of xs x base n] Let_def mid_def)
    next
      case ge: False
      have m: "xs ! mid = x" if "i < mid"
        using sorted_nth_mono [of xs i mid] that mid ge "1.prems" by simp
      define j where "j = (if i < mid then mid else i)"
      have "mid \<le> j" "j < mid + (n - n div 2)" "xs ! j = x"
        using m "1.prems" True by (auto simp: j_def mid_def)
      moreover have "mid + (n - n div 2) \<le> length xs" using "1.prems" by (simp add: mid_def)
      ultimately show ?thesis using True ge "1.prems"(1) "1.IH" [OF True refl mid_def, of j]
        by (simp add: bs_loop.simps [of xs x base n] Let_def mid_def)
    qed
  qed
qed

lemma binary_search_iff:
  assumes "sorted xs"
  shows "is_ok (binary_search xs x) \<longleftrightarrow> x \<in> set xs"
proof (cases "xs = []")
  case False
  let ?b = "bs_loop xs x 0 (length xs)"
  have b: "?b < length xs" using bs_loop_lt [of "length xs" xs x 0] False by simp
  have "xs ! ?b = x \<longleftrightarrow> x \<in> set xs"
  proof
    assume "xs ! ?b = x" with b show "x \<in> set xs" by (metis nth_mem)
  next
    assume "x \<in> set xs"
    then obtain i where "i < length xs" "xs ! i = x" by (auto simp: in_set_conv_nth)
    with bs_loop_finds [OF assms, of 0 "length xs" i x] show "xs ! ?b = x" by simp
  qed
  with False show ?thesis by (simp add: binary_search_def Let_def)
qed (simp add: binary_search_def)

end
