(* ===== verification/Pg_Error.thy ===== *)
theory Pg_Error
  imports Rust_Std
begin

section \<open>Errors (src/error.rs)\<close>

text \<open>
  \<^verbatim>\<open>PgStoreError\<close>, its classification into transient and permanent, the mapping from the
  driver's errors (\<^verbatim>\<open>from_sqlx\<close>) and the mapping into SurrealDB's \<^verbatim>\<open>kvs::Error\<close>.  The driver's
  error type is third-party: \<open>sqlx_error\<close> has the variants the source matches on, with
  \<open>OtherSqlx\<close> carrying the display text of every variant it does not.
\<close>

subsection \<open>The three error types\<close>

datatype sqlx_error =
    Database "string option" string
  | PoolTimedOut
  | SqlxPoolClosed
  | SqlxIo string
  | Tls string
  | Protocol string
  | WorkerCrashed
  | OtherSqlx string

datatype pg_store_error =
    KeyAlreadyExists key
  | ConditionNotMet key
  | TxClosed
  | TxReadOnly
  | UnsupportedVersionedQueries
  | Deadlock string
  | SerializationFailure string
  | PoolTimeout
  | ConnectTimeout duration
  | Io string
  | PoolClosed
  | Postgres string
  | Other string

datatype kvs_error =
    TransactionKeyAlreadyExists
  | TransactionConditionNotMet
  | TransactionFinished
  | TransactionReadonly
  | KvsUnsupportedVersionedQueries
  | TransactionConflict string
  | ConnectionFailed string
  | KvsTransaction string

subsection \<open>Operations\<close>

fun is_transient :: "pg_store_error \<Rightarrow> bool" where
  "is_transient PoolTimeout = True"
| "is_transient (ConnectTimeout d) = True"
| "is_transient (Io m) = True"
| "is_transient (Postgres msg) = starts_with ''connection error [08'' msg"
| "is_transient (Deadlock m) = True"
| "is_transient (SerializationFailure m) = True"
| "is_transient _ = False"

definition db_error :: "key option \<Rightarrow> string \<Rightarrow> string \<Rightarrow> pg_store_error" where
  "db_error key code msg =
     (if code = ''23505'' then
        (case key of Some k \<Rightarrow> KeyAlreadyExists k
         | None \<Rightarrow> Other (''unique violation: '' @ msg))
      else if starts_with ''08'' code then
        Postgres (''connection error ['' @ code @ '']: '' @ msg)
      else if code = ''40P01'' then Deadlock msg
      else if code = ''40001'' then SerializationFailure msg
      else if code = ''25P01'' then Postgres (''[25P01]: '' @ msg)
      else Postgres (''['' @ code @ '']: '' @ msg))"

fun from_sqlx :: "key option \<Rightarrow> sqlx_error \<Rightarrow> pg_store_error" where
  "from_sqlx key (Database code msg) =
     db_error key (case code of Some c \<Rightarrow> c | None \<Rightarrow> ''58000'') msg"
| "from_sqlx key PoolTimedOut = PoolTimeout"
| "from_sqlx key SqlxPoolClosed = PoolClosed"
| "from_sqlx key (SqlxIo e) = Io e"
| "from_sqlx key (Tls e) = Io (''TLS error: '' @ e)"
| "from_sqlx key (Protocol msg) = Io (''protocol error: '' @ msg)"
| "from_sqlx key WorkerCrashed = Io ''connection pool worker task crashed''"
| "from_sqlx key (OtherSqlx e) = Postgres e"

fun to_kvs :: "pg_store_error \<Rightarrow> kvs_error" where
  "to_kvs (KeyAlreadyExists k) = TransactionKeyAlreadyExists"
| "to_kvs (ConditionNotMet k) = TransactionConditionNotMet"
| "to_kvs TxClosed = TransactionFinished"
| "to_kvs TxReadOnly = TransactionReadonly"
| "to_kvs UnsupportedVersionedQueries = KvsUnsupportedVersionedQueries"
| "to_kvs (Deadlock msg) = TransactionConflict msg"
| "to_kvs (SerializationFailure msg) = TransactionConflict msg"
| "to_kvs PoolTimeout = ConnectionFailed ''connection pool timeout''"
| "to_kvs (ConnectTimeout d) =
     ConnectionFailed (''connection timeout: failed to connect within '' @ fmt_duration d)"
| "to_kvs (Io msg) = ConnectionFailed msg"
| "to_kvs PoolClosed = ConnectionFailed ''connection pool closed''"
| "to_kvs (Postgres msg) = KvsTransaction msg"
| "to_kvs (Other msg) = KvsTransaction msg"

text \<open>
  \<^verbatim>\<open>Display\<close> (the \<^verbatim>\<open>#[error(...)]\<close> attributes).  \<open>{0:?}\<close> of a boxed byte slice lists the bytes
  in decimal.
\<close>

fun fmt_bytes_list :: "u8 list \<Rightarrow> string" where
  "fmt_bytes_list [] = []"
| "fmt_bytes_list [b] = fmt_nat (unat b)"
| "fmt_bytes_list (b # c # bs) = fmt_nat (unat b) @ '', '' @ fmt_bytes_list (c # bs)"

definition fmt_bytes :: "u8 list \<Rightarrow> string" where
  "fmt_bytes bs = ''['' @ fmt_bytes_list bs @ '']''"

fun display_error :: "pg_store_error \<Rightarrow> string" where
  "display_error (KeyAlreadyExists k) = ''key already exists: '' @ fmt_bytes k"
| "display_error (ConditionNotMet k) = ''condition not met for key: '' @ fmt_bytes k"
| "display_error TxClosed = ''transaction already closed''"
| "display_error TxReadOnly = ''transaction is read-only''"
| "display_error UnsupportedVersionedQueries =
     ''versioned queries are not supported by the PostgreSQL backend''"
| "display_error (Deadlock m) = ''deadlock detected: '' @ m"
| "display_error (SerializationFailure m) = ''serialization failure: '' @ m"
| "display_error PoolTimeout = ''connection pool timeout''"
| "display_error (ConnectTimeout d) =
     ''connection timeout: failed to connect within '' @ fmt_duration d"
| "display_error (Io m) = ''I/O error: '' @ m"
| "display_error PoolClosed = ''connection pool closed''"
| "display_error (Postgres m) = ''postgres error: '' @ m"
| "display_error (Other m) = m"

subsection \<open>Which driver errors are retried\<close>

definition transient_state :: "string \<Rightarrow> bool" where
  "transient_state code \<longleftrightarrow> starts_with ''08'' code \<or> code = ''40P01'' \<or> code = ''40001''"

fun transient_sqlx :: "sqlx_error \<Rightarrow> bool" where
  "transient_sqlx (Database code msg) = (case code of Some c \<Rightarrow> transient_state c | None \<Rightarrow> False)"
| "transient_sqlx PoolTimedOut = True"
| "transient_sqlx SqlxPoolClosed = False"
| "transient_sqlx (OtherSqlx e) = starts_with ''connection error [08'' e"
| "transient_sqlx _ = True"

lemma transient_db_error: "is_transient (db_error key code msg) \<longleftrightarrow> transient_state code"
  by (auto simp: db_error_def transient_state_def split: option.splits)

text \<open>
  \<^verbatim>\<open>from_sqlx\<close> followed by \<^verbatim>\<open>is_transient\<close> retries exactly the driver errors that are
  retryable: pool timeout, I/O, TLS, protocol and crashed-worker errors, and database errors of
  SQLSTATE class 08, deadlocks and serialization failures, whatever the key and whatever text
  the server puts into its message.
\<close>

theorem transient_from_sqlx: "is_transient (from_sqlx key e) \<longleftrightarrow> transient_sqlx e"
proof (cases e)
  case (Database code msg)
  then show ?thesis
    by (cases code) (simp_all add: transient_db_error, simp add: transient_state_def)
qed simp_all

end
