(* ===== verification/Pg_Config.thy ===== *)
theory Pg_Config
  imports Pg_Error
begin

section \<open>Configuration (src/config.rs)\<close>

text \<open>
  \<^verbatim>\<open>PgConfig\<close> and what fills it: percent decoding, the boolean and policy parsers, the
  identifier check with its reserved-word table, and the merges of the URL query and of the
  environment.  The merges take \<^verbatim>\<open>&mut self\<close>: they return the result and the configuration, which
  on an error holds the parameters merged before it.  \<^verbatim>\<open>u32\<close> and \<^verbatim>\<open>u64\<close> settings are only
  compared and stored, so they are \<^typ>\<open>nat\<close>; their parsers reject what does not fit the width.
\<close>

subsection \<open>Percent decoding\<close>

definition hex_digit :: "char \<Rightarrow> nat option" where
  "hex_digit b =
     (if CHR ''0'' \<le> b \<and> b \<le> CHR ''9'' then Some (of_char b - of_char (CHR ''0''))
      else if CHR ''a'' \<le> b \<and> b \<le> CHR ''f'' then Some (of_char b - of_char (CHR ''a'') + 10)
      else if CHR ''A'' \<le> b \<and> b \<le> CHR ''F'' then Some (of_char b - of_char (CHR ''A'') + 10)
      else None)"

fun percent_bytes :: "string \<Rightarrow> string" where
  "percent_bytes [] = []"
| "percent_bytes (b # bs) =
     (if b = CHR ''+'' then CHR '' '' # percent_bytes bs
      else if b = CHR ''%'' then
        (case bs of
           h # l # rest \<Rightarrow>
             (case (hex_digit h, hex_digit l) of
                (Some hv, Some lv) \<Rightarrow> char_of (hv * 16 + lv) # percent_bytes rest
              | _ \<Rightarrow> CHR ''%'' # h # l # percent_bytes rest)
         | [h] \<Rightarrow> [CHR ''%'', h]
         | [] \<Rightarrow> [CHR ''%''])
      else b # percent_bytes bs)"

definition percent_decode :: "string \<Rightarrow> string" where
  "percent_decode input = utf8_lossy (percent_bytes input)"

subsection \<open>Boolean and policy values\<close>

definition parse_bool_param :: "string \<Rightarrow> bool option" where
  "parse_bool_param value =
     (let v = to_ascii_lowercase value
      in if v \<in> {''true'', ''1'', ''yes'', ''on''} then Some True
         else if v \<in> {''false'', ''0'', ''no'', ''off''} then Some False
         else None)"

datatype persistent_policy = Auto | Enabled | Disabled

fun resolve :: "persistent_policy \<Rightarrow> bool \<Rightarrow> bool" where
  "resolve Auto detected = detected"
| "resolve Enabled detected = True"
| "resolve Disabled detected = False"

definition parse_policy :: "string \<Rightarrow> persistent_policy option" where
  "parse_policy value =
     (let v = to_ascii_lowercase value
      in if v \<in> {''true'', ''1'', ''yes'', ''on'', ''enabled''} then Some Enabled
         else if v \<in> {''false'', ''0'', ''no'', ''off'', ''disabled''} then Some Disabled
         else if v = ''auto'' then Some Auto
         else None)"

fun display_policy :: "persistent_policy \<Rightarrow> string" where
  "display_policy Auto = ''auto''"
| "display_policy Enabled = ''enabled''"
| "display_policy Disabled = ''disabled''"

datatype pg_isolation = ReadCommitted | RepeatableRead | Serializable

fun as_sql :: "pg_isolation \<Rightarrow> string" where
  "as_sql ReadCommitted = ''READ COMMITTED''"
| "as_sql RepeatableRead = ''REPEATABLE READ''"
| "as_sql Serializable = ''SERIALIZABLE''"

definition parse_isolation :: "string \<Rightarrow> pg_isolation" where
  "parse_isolation value =
     (let v = to_ascii_lowercase value
      in if v \<in> {''repeatable_read'', ''repeatable read''} then RepeatableRead
         else if v = ''serializable'' then Serializable
         else ReadCommitted)"

subsection \<open>The configuration record\<close>

record pg_config =
  max_connections :: "nat option"
  min_connections :: "nat option"
  connect_timeout :: "duration option"
  idle_timeout :: "duration option"
  max_lifetime :: "duration option"
  slow_acquire_threshold_secs :: "duration option"
  slow_statements_threshold_secs :: "duration option"
  auto_create_table :: bool
  table_name :: string
  isolation_level :: pg_isolation
  persistent_statements :: persistent_policy
  pooler :: bool
  hash_partitions :: "nat option"

definition default_config :: pg_config where
  "default_config =
     \<lparr>max_connections = None, min_connections = None, connect_timeout = None,
      idle_timeout = None, max_lifetime = None, slow_acquire_threshold_secs = None,
      slow_statements_threshold_secs = None, auto_create_table = True, table_name = ''kv'',
      isolation_level = ReadCommitted, persistent_statements = Auto, pooler = False,
      hash_partitions = None\<rparr>"

subsection \<open>Identifiers\<close>

definition RESERVED :: "string list" where
  "RESERVED = [
    ''ALL'', ''ANALYSE'', ''ANALYZE'', ''AND'', ''ANY'', ''AS'', ''ASC'', ''BETWEEN'',
    ''BY'', ''CASE'', ''CHECK'', ''CLUSTER'', ''COMMENT'', ''CONSTRAINT'', ''COPY'',
    ''CREATE'', ''CROSS'', ''CURRENT'', ''DEFAULT'', ''DELETE'', ''DESC'', ''DISTINCT'',
    ''DO'', ''DROP'', ''ELSE'', ''EXCEPT'', ''EXISTS'', ''EXPLAIN'', ''FALSE'', ''FETCH'',
    ''FOR'', ''FOREIGN'', ''FROM'', ''FULL'', ''GRANT'', ''GROUP'', ''HAVING'', ''ILIKE'',
    ''IN'', ''INDEX'', ''INNER'', ''INSERT'', ''INTERSECT'', ''INTO'', ''IS'', ''JOIN'',
    ''KEY'', ''LEFT'', ''LIKE'', ''LIMIT'', ''LISTEN'', ''LOCK'', ''NATURAL'', ''NOT'',
    ''NOTIFY'', ''NULL'', ''NULLS'', ''OFFSET'', ''ON'', ''OR'', ''ORDER'', ''OUTER'',
    ''OVER'', ''PRIMARY'', ''REFERENCES'', ''REINDEX'', ''RETURNING'', ''REVOKE'',
    ''RIGHT'', ''ROLLBACK'', ''SAVEPOINT'', ''SELECT'', ''SET'', ''SIMILAR'', ''SOME'',
    ''TABLE'', ''THEN'', ''TRIGGER'', ''TRUE'', ''TRUNCATE'', ''UNION'', ''UNIQUE'',
    ''USING'', ''VACUUM'', ''VALUES'', ''VIEW'', ''WHEN'', ''WHERE'', ''WITH'']"

definition is_sql_reserved :: "string \<Rightarrow> bool" where
  "is_sql_reserved name =
     (if list_all (\<lambda>b. is_ascii_uppercase b \<or> b = CHR ''_'') name
      then is_ok (binary_search RESERVED name)
      else is_ok (binary_search RESERVED (to_ascii_uppercase name)))"

definition ident_char :: "char \<Rightarrow> bool" where
  "ident_char c \<longleftrightarrow> is_ascii_alphanumeric c \<or> c = CHR ''_''"

definition validate_identifier :: "string \<Rightarrow> (string, unit) outcome" where
  "validate_identifier name =
     (case name of
        [] \<Rightarrow> Err (''invalid table name '' @ [CHR 0x27, CHR 0x27]
                 @ '': must be non-empty and contain only [a-zA-Z0-9_]'')
      | first # _ \<Rightarrow>
          let err = (\<lambda>why. Err (''invalid table name '' @ [CHR 0x27] @ name @ [CHR 0x27] @ why)) in
          if \<not> is_ascii_alphabetic first \<and> first \<noteq> CHR ''_'' then
            err '': first character must be a letter or underscore''
          else if \<not> list_all (\<lambda>c. is_ascii_alphanumeric c \<or> c = CHR ''_'') name then
            err '': must contain only [a-zA-Z0-9_]''
          else if is_sql_reserved name then err '': SQL reserved word''
          else if 63 < length name then
            err ('': exceeds PG'' @ [CHR 0x27] @ ''s 63-byte identifier limit (NAMEDATALEN)'')
          else Ok ())"

subsection \<open>Merging the environment and the URL query\<close>

text \<open>The process environment: the value of a variable, if it is set and valid Unicode.\<close>

type_synonym environment = "string \<Rightarrow> string option"

definition merge_env :: "environment \<Rightarrow> pg_config \<Rightarrow> pg_config" where
  "merge_env env cfg =
     (case env ''PG_PERSISTENT_STATEMENTS'' of
        None \<Rightarrow> cfg
      | Some raw \<Rightarrow>
          (case parse_policy (trim raw) of
             Some v \<Rightarrow> cfg\<lparr>persistent_statements := v\<rparr>
           | None \<Rightarrow> cfg))"

definition KNOWN_PARAMS :: "string list" where
  "KNOWN_PARAMS = [''max_connections'', ''min_connections'', ''max_lifetime'',
     ''auto_create_table'', ''table_name'', ''isolation_level'', ''persistent_statements'',
     ''connect_timeout'', ''idle_timeout'', ''slow_acquire_threshold_secs'',
     ''slow_statements_threshold_secs'', ''pooler'', ''hash_partitions'']"

text \<open>
  One parameter with its decoded value.  The five second-valued parameters share one parser:
  \<^verbatim>\<open>Ok(0)\<close> and a parse error are ignored, any other number is a duration.
\<close>

definition parse_secs :: "string \<Rightarrow> duration option" where
  "parse_secs value =
     (case parse_u64 value of
        None \<Rightarrow> None
      | Some secs \<Rightarrow> if secs = 0 then None else Some (from_secs secs))"

definition or_keep :: "'a option \<Rightarrow> 'a option \<Rightarrow> 'a option" where
  "or_keep new old = (case new of None \<Rightarrow> old | Some v \<Rightarrow> Some v)"

definition merge_param ::
  "string \<Rightarrow> string \<Rightarrow> pg_config \<Rightarrow> (string, unit) outcome \<times> pg_config" where
  "merge_param key value cfg =
     (if key = ''max_connections'' then
        (case parse_u32 value of
           None \<Rightarrow> (Ok (), cfg)
         | Some v \<Rightarrow>
             if v = 0 then (Ok (), cfg)
             else if 10000 < v then (Ok (), cfg\<lparr>max_connections := Some 10000\<rparr>)
             else (Ok (), cfg\<lparr>max_connections := Some v\<rparr>))
      else if key = ''min_connections'' then
        (case parse_u32 value of
           None \<Rightarrow> (Ok (), cfg)
         | Some v \<Rightarrow>
             if v = 0 then (Ok (), cfg\<lparr>min_connections := Some 0\<rparr>)
             else if 10000 < v then (Ok (), cfg\<lparr>min_connections := Some 10000\<rparr>)
             else (Ok (), cfg\<lparr>min_connections := Some v\<rparr>))
      else if key = ''max_lifetime'' then
        (Ok (), cfg\<lparr>max_lifetime := or_keep (parse_secs value) (max_lifetime cfg)\<rparr>)
      else if key = ''auto_create_table'' then
        (case parse_bool_param value of
           Some v \<Rightarrow> (Ok (), cfg\<lparr>auto_create_table := v\<rparr>)
         | None \<Rightarrow> (Ok (), cfg))
      else if key = ''table_name'' then
        (case validate_identifier value of
           Ok _ \<Rightarrow> (Ok (), cfg\<lparr>table_name := value\<rparr>)
         | r \<Rightarrow> (r, cfg))
      else if key = ''isolation_level'' then
        (Ok (), cfg\<lparr>isolation_level := parse_isolation value\<rparr>)
      else if key = ''persistent_statements'' then
        (case parse_policy value of
           Some v \<Rightarrow> (Ok (), cfg\<lparr>persistent_statements := v\<rparr>)
         | None \<Rightarrow> (Ok (), cfg))
      else if key = ''connect_timeout'' then
        (Ok (), cfg\<lparr>connect_timeout := or_keep (parse_secs value) (connect_timeout cfg)\<rparr>)
      else if key = ''idle_timeout'' then
        (Ok (), cfg\<lparr>idle_timeout := or_keep (parse_secs value) (idle_timeout cfg)\<rparr>)
      else if key = ''slow_acquire_threshold_secs'' then
        (Ok (), cfg\<lparr>slow_acquire_threshold_secs :=
                   or_keep (parse_secs value) (slow_acquire_threshold_secs cfg)\<rparr>)
      else if key = ''slow_statements_threshold_secs'' then
        (Ok (), cfg\<lparr>slow_statements_threshold_secs :=
                   or_keep (parse_secs value) (slow_statements_threshold_secs cfg)\<rparr>)
      else if key = ''pooler'' then
        (case parse_bool_param value of
           Some v \<Rightarrow> (Ok (), cfg\<lparr>pooler := v\<rparr>)
         | None \<Rightarrow> (Ok (), cfg))
      else if key = ''hash_partitions'' then
        (case parse_u32 value of
           None \<Rightarrow> (Ok (), cfg)
         | Some v \<Rightarrow>
             if v = 0 then (Ok (), cfg)
             else if 1024 < v then (Ok (), cfg)
             else (Ok (), cfg\<lparr>hash_partitions := Some v\<rparr>))
      else (Ok (), cfg))"

fun merge_pairs :: "string list \<Rightarrow> pg_config \<Rightarrow> (string, unit) outcome \<times> pg_config" where
  "merge_pairs [] cfg = (Ok (), cfg)"
| "merge_pairs (pair # pairs) cfg =
     (case split_once (CHR ''='') pair of
        Some (key, value) \<Rightarrow>
          (case merge_param key (percent_decode value) cfg of
             (Ok _, cfg') \<Rightarrow> merge_pairs pairs cfg'
           | (r, cfg') \<Rightarrow> (r, cfg'))
      | None \<Rightarrow> merge_pairs pairs cfg)"

definition url_query :: "string \<Rightarrow> string option" where
  "url_query url =
     (case split_on (CHR ''?'') url of
        _ # q # _ \<Rightarrow> Some (hd (split_on (CHR ''#'') q))
      | _ \<Rightarrow> None)"

definition merge_url_params :: "string \<Rightarrow> pg_config \<Rightarrow> (string, unit) outcome \<times> pg_config" where
  "merge_url_params url cfg =
     (case url_query url of
        Some query \<Rightarrow> merge_pairs (split_on (CHR ''&'') query) cfg
      | None \<Rightarrow> (Ok (), cfg))"

subsection \<open>Reserved words: the binary search is a membership test\<close>

lemma sorted_RESERVED: "sorted RESERVED"
  by (simp add: RESERVED_def sorted2 sorted1 char_le_of_char less_char_def del: sorted_wrt.simps)

lemma upper_fixed:
  "list_all (\<lambda>b. is_ascii_uppercase b \<or> b = CHR ''_'') name \<Longrightarrow> to_ascii_uppercase name = name"
  by (induction name) (auto simp: to_ascii_uppercase_def ascii_upper_id)

text \<open>
  The table lookup of \<^verbatim>\<open>is_sql_reserved\<close>, with its allocation-free fast path and its binary
  search, decides whether the name in upper case is one of the reserved words; in particular it
  does not depend on the letter case of the name.
\<close>

lemma is_sql_reserved_iff: "is_sql_reserved name \<longleftrightarrow> to_ascii_uppercase name \<in> set RESERVED"
  by (simp add: is_sql_reserved_def binary_search_iff sorted_RESERVED upper_fixed)

text \<open>The identifiers the check accepts.\<close>

lemma validate_identifier_ok:
  "validate_identifier name = Ok () \<longleftrightarrow>
     name \<noteq> [] \<and> (is_ascii_alphabetic (hd name) \<or> hd name = CHR ''_'') \<and>
     list_all ident_char name \<and> to_ascii_uppercase name \<notin> set RESERVED \<and> length name \<le> 63"
  by (auto simp: validate_identifier_def ident_char_def [abs_def] is_sql_reserved_iff Let_def
      split: list.splits if_splits)

lemma validate_identifier_no_panic [simp]: "validate_identifier name \<noteq> Panic"
  by (auto simp: validate_identifier_def Let_def split: list.splits)

text \<open>
  No character that could end an identifier in SQL text passes: no white space, no quote, no
  semicolon, no dash.
\<close>

definition sql_safe :: "string \<Rightarrow> bool" where
  "sql_safe s \<longleftrightarrow> s \<noteq> [] \<and> list_all ident_char s \<and> \<not> is_ascii_digit (hd s)"

lemma validate_identifier_safe: "validate_identifier name = Ok () \<Longrightarrow> sql_safe name"
  by (auto simp: validate_identifier_ok sql_safe_def char_class_defs char_le_of_char)

subsection \<open>What the merges keep\<close>

definition config_ok :: "pg_config \<Rightarrow> bool" where
  "config_ok cfg \<longleftrightarrow>
     pred_option (\<lambda>n. 1 \<le> n \<and> n \<le> 10000) (max_connections cfg) \<and>
     pred_option (\<lambda>n. n \<le> 10000) (min_connections cfg) \<and>
     pred_option (\<lambda>d. 0 < d) (connect_timeout cfg) \<and>
     pred_option (\<lambda>d. 0 < d) (idle_timeout cfg) \<and>
     pred_option (\<lambda>d. 0 < d) (max_lifetime cfg) \<and>
     pred_option (\<lambda>d. 0 < d) (slow_acquire_threshold_secs cfg) \<and>
     pred_option (\<lambda>d. 0 < d) (slow_statements_threshold_secs cfg) \<and>
     pred_option (\<lambda>n. 1 \<le> n \<and> n \<le> 1024) (hash_partitions cfg) \<and>
     validate_identifier (table_name cfg) = Ok ()"

lemma parse_secs_pos: "pred_option (\<lambda>d. 0 < d) (parse_secs v)"
  by (auto simp: parse_secs_def from_secs_def split: option.splits)

lemma or_keep_pred: "pred_option P a \<Longrightarrow> pred_option P b \<Longrightarrow> pred_option P (or_keep a b)"
  by (cases a) (simp_all add: or_keep_def)

lemma default_config_ok: "config_ok default_config"
proof -
  have "to_ascii_uppercase ''kv'' \<notin> set RESERVED"
    by (simp add: RESERVED_def to_ascii_uppercase_def ascii_upper_def char_class_defs
        char_le_of_char char_of_def bit_0)
  then show ?thesis
    by (simp add: config_ok_def default_config_def validate_identifier_ok ident_char_def
        char_class_defs char_le_of_char)
qed

lemma merge_param_ok: "config_ok cfg \<Longrightarrow> config_ok (snd (merge_param key value cfg))"
  using parse_secs_pos [of "value"]
  by (auto simp: merge_param_def config_ok_def intro!: or_keep_pred
      split: option.splits outcome.splits)

lemma merge_pairs_ok: "config_ok cfg \<Longrightarrow> config_ok (snd (merge_pairs ps cfg))"
proof (induction ps arbitrary: cfg)
  case (Cons p ps)
  show ?case
  proof (cases "split_once (CHR ''='') p")
    case (Some kv)
    obtain k v where kv: "kv = (k, v)" by (cases kv)
    obtain r c where r: "merge_param k (percent_decode v) cfg = (r, c)" by (cases "merge_param k (percent_decode v) cfg")
    from Cons.prems merge_param_ok [of cfg k "percent_decode v"] r have "config_ok c" by simp
    with Cons.IH Some kv r show ?thesis by (cases r) auto
  qed (use Cons in simp)
qed simp

lemma config_ok_merge: "config_ok cfg \<Longrightarrow> config_ok (snd (merge_url_params url cfg))"
  by (simp add: merge_url_params_def merge_pairs_ok split: option.splits)

lemma merge_env_ok: "config_ok (merge_env env cfg) \<longleftrightarrow> config_ok cfg"
  by (simp add: merge_env_def config_ok_def split: option.splits)

lemma merge_param_unknown: "key \<notin> set KNOWN_PARAMS \<Longrightarrow> merge_param key value cfg = (Ok (), cfg)"
  by (simp add: KNOWN_PARAMS_def merge_param_def)

subsection \<open>Percent decoding inverts percent encoding\<close>

definition hex_char :: "nat \<Rightarrow> char" where
  "hex_char n = (if n < 10 then char_of (48 + n) else char_of (55 + n))"

definition percent_encode :: "(char \<Rightarrow> bool) \<Rightarrow> string \<Rightarrow> string" where
  "percent_encode keep s =
     concat (map (\<lambda>c. if keep c then [c]
       else [CHR ''%'', hex_char (of_char c div 16), hex_char (of_char c mod 16)]) s)"

lemma hex_digit_char [simp]: "n < 16 \<Longrightarrow> hex_digit (hex_char n) = Some n"
  by (auto simp: hex_digit_def hex_char_def char_le_of_char)

lemma hex_digit_lt: "hex_digit c = Some n \<Longrightarrow> n < 16"
  by (auto simp: hex_digit_def char_le_of_char split: if_splits)

lemma percent_bytes_encode:
  assumes "\<forall>c. keep c \<longrightarrow> c \<noteq> CHR ''%'' \<and> c \<noteq> CHR ''+''"
  shows "percent_bytes (percent_encode keep s) = s"
proof (induction s)
  case (Cons c s)
  have "(of_char c :: nat) < 256" by simp
  then have "(of_char c :: nat) div 16 < 16" by arith
  then have "hex_digit (hex_char (of_char c div 16)) = Some (of_char c div 16)"
    "hex_digit (hex_char (of_char c mod 16)) = Some (of_char c mod 16)" by simp_all
  with Cons assms show ?case by (simp add: percent_encode_def)
qed (simp add: percent_encode_def)

end
