(* ===== verification/Sql_Text.thy ===== *)
theory Sql_Text
  imports Pg_Config
begin

section \<open>The prepared SQL texts (struct Sql of src/transaction.rs)\<close>

text \<open>
  \<^verbatim>\<open>Sql::new\<close> builds every statement once, from the table name.  The model keeps the texts: what a
  text means is the server's business (theory \<open>Pg_Server\<close>).  The check in \<^verbatim>\<open>Sql::new\<close> is a
  \<^verbatim>\<open>debug_assert!\<close>, absent from a release build, so it is not part of the value.
\<close>

record sql_texts =
  q_exists :: string
  q_get :: string
  q_getm :: string
  q_set :: string
  q_setm :: string
  q_put :: string
  q_putc :: string
  q_del :: string
  q_delc :: string
  q_delr :: string
  q_count :: string
  q_range_keys_asc :: string
  q_range_keys_desc :: string
  q_range_kv_asc :: string
  q_range_kv_desc :: string
  q_range_kv_all :: string
  q_table_name :: string
  q_count_approx :: string

definition sql_new :: "string \<Rightarrow> sql_texts" where
  "sql_new t =
     \<lparr>q_exists = ''SELECT 1 AS exists_flag FROM '' @ t @ '' WHERE key = $1'',
      q_get = ''SELECT val FROM '' @ t @ '' WHERE key = $1'',
      q_getm = ''SELECT key, val FROM '' @ t @ '' WHERE key = ANY($1)'',
      q_set = ''INSERT INTO '' @ t @ '' (key, val) VALUES ($1, $2) ''
        @ ''ON CONFLICT (key) DO UPDATE SET val = EXCLUDED.val'',
      q_setm = ''INSERT INTO '' @ t @ '' (key, val) ''
        @ ''SELECT * FROM UNNEST($1::bytea[], $2::bytea[]) ''
        @ ''ON CONFLICT (key) DO UPDATE SET val = EXCLUDED.val'',
      q_put = ''INSERT INTO '' @ t @ '' (key, val) VALUES ($1, $2) ''
        @ ''ON CONFLICT (key) DO NOTHING'',
      q_putc = ''UPDATE '' @ t @ '' SET val = $2 WHERE key = $1 AND val = $3'',
      q_del = ''DELETE FROM '' @ t @ '' WHERE key = $1'',
      q_delc = ''DELETE FROM '' @ t @ '' WHERE key = $1 AND val = $2'',
      q_delr = ''DELETE FROM '' @ t @ '' WHERE key >= $1 AND key < $2'',
      q_count = ''SELECT count(*) AS cnt FROM '' @ t @ '' WHERE key >= $1 AND key < $2'',
      q_range_keys_asc = ''SELECT key FROM '' @ t @ '' WHERE key >= $1 AND key < $2 ''
        @ ''ORDER BY key ASC LIMIT $3 OFFSET $4'',
      q_range_keys_desc = ''SELECT key FROM '' @ t @ '' WHERE key >= $1 AND key < $2 ''
        @ ''ORDER BY key DESC LIMIT $3 OFFSET $4'',
      q_range_kv_asc = ''SELECT key, val FROM '' @ t @ '' WHERE key >= $1 AND key < $2 ''
        @ ''ORDER BY key ASC LIMIT $3 OFFSET $4'',
      q_range_kv_desc = ''SELECT key, val FROM '' @ t @ '' WHERE key >= $1 AND key < $2 ''
        @ ''ORDER BY key DESC LIMIT $3 OFFSET $4'',
      q_range_kv_all = ''SELECT key, val FROM '' @ t @ '' WHERE key >= $1 AND key < $2 ''
        @ ''ORDER BY key ASC'',
      q_table_name = t,
      q_count_approx = ''SELECT reltuples::bigint AS approx_cnt FROM pg_class ''
        @ ''WHERE relname = $1 AND reltuples >= 0''\<rparr>"

end
