(* ===== verification/Kv_Table.thy ===== *)
theory Kv_Table
  imports Prelude
begin

section \<open>Key-value tables\<close>

text \<open>
  The abstract content of the \<^verbatim>\<open>kv\<close> table: its rows in key order, each key once.  Keys are byte
  strings and their order is the lexicographic one, which is both the order of \<^verbatim>\<open>Vec<u8>\<close> in Rust
  and of \<^verbatim>\<open>BYTEA\<close> in PostgreSQL.  The operations below are the specification the transaction
  layer is proved against.
\<close>

type_synonym table = "(key \<times> val) list"

definition wf_table :: "table \<Rightarrow> bool" where
  "wf_table tb \<longleftrightarrow> sorted_wrt (<) (map fst tb)"

fun tbl_put :: "key \<Rightarrow> val \<Rightarrow> table \<Rightarrow> table" where
  "tbl_put k v [] = [(k, v)]"
| "tbl_put k v ((k', v') # tb) =
     (if k < k' then (k, v) # (k', v') # tb
      else if k = k' then (k, v) # tb
      else (k', v') # tbl_put k v tb)"

definition tbl_del :: "key \<Rightarrow> table \<Rightarrow> table" where
  "tbl_del k tb = filter (\<lambda>r. fst r \<noteq> k) tb"

definition tbl_puts :: "(key \<times> val) list \<Rightarrow> table \<Rightarrow> table" where
  "tbl_puts kvs tb = fold (\<lambda>(k, v). tbl_put k v) kvs tb"

definition tbl_range :: "key \<Rightarrow> key \<Rightarrow> table \<Rightarrow> table" where
  "tbl_range lo hi tb = filter (\<lambda>r. lo \<le> fst r \<and> fst r < hi) tb"

definition tbl_delr :: "key \<Rightarrow> key \<Rightarrow> table \<Rightarrow> table" where
  "tbl_delr lo hi tb = filter (\<lambda>r. \<not> (lo \<le> fst r \<and> fst r < hi)) tb"

definition page :: "nat \<Rightarrow> nat \<Rightarrow> 'a list \<Rightarrow> 'a list" where
  "page limit skip xs = take limit (drop skip xs)"

subsection \<open>Well-formedness\<close>

lemma wf_Nil [simp]: "wf_table []"
  by (simp add: wf_table_def)

lemma wf_Cons [simp]: "wf_table ((k, v) # tb) \<longleftrightarrow> (\<forall>r \<in> set tb. k < fst r) \<and> wf_table tb"
  by (simp add: wf_table_def)

lemma wf_filter [intro, simp]: "wf_table tb \<Longrightarrow> wf_table (filter P tb)"
  by (induction tb) auto

lemma wf_distinct: "wf_table tb \<Longrightarrow> distinct (map fst tb)"
  by (simp add: wf_table_def strict_sorted_iff)

lemma set_tbl_put: "set (tbl_put k v tb) \<subseteq> insert (k, v) (set tb)"
  by (induction tb) (auto split: if_splits)

lemma wf_tbl_put [intro, simp]: "wf_table tb \<Longrightarrow> wf_table (tbl_put k v tb)"
proof (induction tb)
  case (Cons r tb)
  obtain k' v' where r: "r = (k', v')" by (cases r)
  show ?case
    using Cons r set_tbl_put [of k v tb] by (auto dest: less_trans)
qed simp

lemma wf_tbl_del [intro, simp]: "wf_table tb \<Longrightarrow> wf_table (tbl_del k tb)"
  by (simp add: tbl_del_def)

lemma wf_tbl_delr [intro, simp]: "wf_table tb \<Longrightarrow> wf_table (tbl_delr lo hi tb)"
  by (simp add: tbl_delr_def)

lemma wf_tbl_range [intro, simp]: "wf_table tb \<Longrightarrow> wf_table (tbl_range lo hi tb)"
  by (simp add: tbl_range_def)

lemma wf_tbl_puts [intro, simp]: "wf_table tb \<Longrightarrow> wf_table (tbl_puts kvs tb)"
  by (induction kvs arbitrary: tb) (auto simp: tbl_puts_def)

subsection \<open>Lookups\<close>

lemma map_of_tbl_put [simp]: "wf_table tb \<Longrightarrow> map_of (tbl_put k v tb) = (map_of tb)(k \<mapsto> v)"
proof (induction tb)
  case (Cons r tb)
  then show ?case by (cases r) (auto simp: fun_eq_iff)
qed auto

lemma map_of_filter_key: "map_of (filter (\<lambda>r. P (fst r)) tb) k = (if P k then map_of tb k else None)"
  by (induction tb) auto

lemma map_of_tbl_del [simp]: "map_of (tbl_del k tb) = (map_of tb)(k := None)"
  using map_of_filter_key [of "\<lambda>x. x \<noteq> k" tb] by (auto simp: tbl_del_def fun_eq_iff)

lemma map_of_tbl_delr:
  "map_of (tbl_delr lo hi tb) k = (if lo \<le> k \<and> k < hi then None else map_of tb k)"
  using map_of_filter_key [of "\<lambda>x. \<not> (lo \<le> x \<and> x < hi)" tb k] by (simp add: tbl_delr_def)

lemma map_of_tbl_range:
  "map_of (tbl_range lo hi tb) k = (if lo \<le> k \<and> k < hi then map_of tb k else None)"
  using map_of_filter_key [of "\<lambda>x. lo \<le> x \<and> x < hi" tb k] by (simp add: tbl_range_def)

lemma map_of_tbl_puts:
  "wf_table tb \<Longrightarrow> map_of (tbl_puts kvs tb) = map_of tb ++ map_of (rev kvs)"
proof (induction kvs arbitrary: tb)
  case (Cons r kvs)
  then show ?case
    by (cases r) (auto simp: tbl_puts_def fun_eq_iff map_add_def split: option.splits)
qed (simp add: tbl_puts_def)

text \<open>A well-formed table is determined by its lookups.\<close>

lemma wf_table_eqI:
  assumes "wf_table a" "wf_table b" "map_of a = map_of b"
  shows "a = b"
proof (rule map_sorted_distinct_set_unique [where f = fst])
  show "set a = set b"
    using assms by (intro map_of_inject_set [THEN iffD1]) (auto simp: wf_distinct)
  then show "inj_on fst (set a \<union> set b)"
    using assms wf_distinct [of a] by (simp add: distinct_map)
qed (use assms in \<open>simp_all add: wf_table_def strict_sorted_iff\<close>)

lemma tbl_puts_append: "tbl_puts (a @ b) tb = tbl_puts b (tbl_puts a tb)"
  by (simp add: tbl_puts_def)

lemma map_of_in_wf: "wf_table tb \<Longrightarrow> map_of tb k = Some v \<longleftrightarrow> (k, v) \<in> set tb"
  by (simp add: wf_distinct)

lemma tbl_range_empty: "hi \<le> lo \<Longrightarrow> tbl_range lo hi tb = []"
  by (auto simp: tbl_range_def filter_empty_conv)

lemma tbl_delr_empty: "hi \<le> lo \<Longrightarrow> tbl_delr lo hi tb = tb"
  by (auto simp: tbl_delr_def filter_id_conv)

lemma filter_key_map_of:
  "wf_table tb \<Longrightarrow> filter (\<lambda>r. fst r = k) tb = (case map_of tb k of None \<Rightarrow> [] | Some v \<Rightarrow> [(k, v)])"
proof (induction tb)
  case (Cons r tb)
  obtain a b where r: "r = (a, b)" by (cases r)
  show ?case
  proof (cases "a = k")
    case True
    with Cons.prems r have "filter (\<lambda>r. fst r = k) tb = []"
      by (auto simp: filter_empty_conv)
    with True r show ?thesis by simp
  qed (use Cons r in simp)
qed simp

subsection \<open>Paging by keys\<close>

text \<open>
  Appending a zero byte gives the immediate successor of a key, so the keys after \<open>k\<close> are those
  from \<open>k @ [0]\<close> on.
\<close>

lemma key_succ: "(k :: key) < k' \<longleftrightarrow> k @ [0] \<le> k'"
proof (induction k arbitrary: k')
  case Nil
  show ?case
  proof (cases k')
    case (Cons a r)
    have "0 < a \<or> 0 = a" by (simp add: word_gt_0)
    with Cons show ?thesis by auto
  qed simp
next
  case (Cons a k)
  then show ?case by (cases k') auto
qed

lemma after_last_filter:
  fixes a :: table
  assumes "sorted_wrt (<) (map fst (a @ b))" "a \<noteq> []"
  shows "filter (\<lambda>r. fst (last a) < fst r) (a @ b) = b"
proof -
  have "\<not> fst (last a) < fst r" if "r \<in> set a" for r
  proof -
    have "map fst a = map fst (butlast a) @ [fst (last a)]"
      using assms(2) by (metis append_butlast_last_id list.simps(8,9) map_append)
    moreover have "sorted_wrt (<) (map fst a)" using assms(1) by (simp add: sorted_wrt_append)
    ultimately have "sorted_wrt (<) (map fst (butlast a) @ [fst (last a)])" by simp
    moreover have "r = last a \<or> r \<in> set (butlast a)"
      using that assms(2) by (metis append_butlast_last_id in_set_butlastD rotate1.simps(2) set_ConsD set_rotate1)
    ultimately show ?thesis by (auto simp: sorted_wrt_append dest: less_asym)
  qed
  moreover have "fst (last a) < fst r" if "r \<in> set b" for r
    using assms that by (auto simp: sorted_wrt_append)
  ultimately show ?thesis by simp
qed

lemma range_page_step:
  assumes "wf_table tb" "take n (tbl_range lo hi tb) \<noteq> []"
  shows "tbl_range lo hi tb = take n (tbl_range lo hi tb) @
    tbl_range (fst (last (take n (tbl_range lo hi tb))) @ [0]) hi tb"
proof -
  let ?R = "tbl_range lo hi tb"
  let ?l = "fst (last (take n ?R))"
  have s: "sorted_wrt (<) (map fst (take n ?R @ drop n ?R))"
    using assms(1) wf_tbl_range [of tb lo hi] by (simp add: wf_table_def)
  have "last (take n ?R) \<in> set ?R"
    using assms(2) by (meson in_set_takeD last_in_set)
  then have lo: "lo \<le> ?l" by (simp add: tbl_range_def)
  have "drop n ?R = filter (\<lambda>r. ?l < fst r) ?R"
    using after_last_filter [OF s assms(2)] by simp
  also have "\<dots> = tbl_range (?l @ [0]) hi tb"
    using lo by (auto simp: tbl_range_def key_succ [symmetric] intro!: filter_cong)
  finally show ?thesis by (metis append_take_drop_id)
qed

end
