(* ===== verification/Pg_Server.thy ===== *)
theory Pg_Server
  imports Sql_Text Kv_Table
begin

section \<open>The PostgreSQL session, as the transaction layer sees it\<close>

text \<open>
  PostgreSQL and its driver are not part of the crate, so they are a parameter: a
  \<open>pg_server\<close> runs a statement text with its parameters on a session state \<open>'s\<close>, of which the
  model knows nothing.  What the crate relies on is stated in the locale \<open>pg_backend\<close>: the
  documented meaning of the statement texts of theory \<open>Sql_Text\<close>, of savepoints and of the end of a
  transaction.  The statements may also fail, at any time and for any reason; the laws then say
  only that an error reported by the server has changed no data and aborts the transaction.
\<close>

subsection \<open>Statements, parameters and rows\<close>

datatype pg_param = PBytes "u8 list" | PBytesArr "u8 list list" | PInt int | PText string

datatype pg_col = CBytes "u8 list" | CInt int

type_synonym pg_row = "(string \<times> pg_col) list"

record pg_result =
  affected :: nat
  rows :: "pg_row list"

record 's pg_server =
  srv_query :: "bool \<Rightarrow> string \<Rightarrow> pg_param list \<Rightarrow> 's \<Rightarrow> (sqlx_error + pg_result) \<times> 's"
  srv_raw :: "string \<Rightarrow> 's \<Rightarrow> (sqlx_error + unit) \<times> 's"
  srv_commit :: "'s \<Rightarrow> (sqlx_error + unit) \<times> 's"
  srv_rollback :: "'s \<Rightarrow> (sqlx_error + unit) \<times> 's"

definition row_key :: "key \<Rightarrow> pg_row" where
  "row_key k = [(''key'', CBytes k)]"

definition row_kv :: "key \<times> val \<Rightarrow> pg_row" where
  "row_kv r = [(''key'', CBytes (fst r)), (''val'', CBytes (snd r))]"

subsection \<open>What the texts mean\<close>

datatype stmt =
    SExists key
  | SGet key
  | SGetm "key list"
  | SSet key val
  | SSetm "key list" "val list"
  | SPut key val
  | SPutc key val val
  | SDel key
  | SDelc key val
  | SDelr key key
  | SCount key key
  | SRange bool bool key key nat nat
  | SRangeAll key key
  | SCountApprox string

definition range_stmt :: "bool \<Rightarrow> bool \<Rightarrow> pg_param list \<Rightarrow> stmt option" where
  "range_stmt vals desc ps =
     (case ps of [PBytes lo, PBytes hi, PInt n, PInt m] \<Rightarrow>
        (if 0 \<le> n \<and> 0 \<le> m then Some (SRange vals desc lo hi (nat n) (nat m)) else None)
      | _ \<Rightarrow> None)"

definition stmt_of :: "string \<Rightarrow> string \<Rightarrow> pg_param list \<Rightarrow> stmt option" where
  "stmt_of t q ps =
     (let T = sql_new t in
      if q = q_exists T then (case ps of [PBytes k] \<Rightarrow> Some (SExists k) | _ \<Rightarrow> None)
      else if q = q_get T then (case ps of [PBytes k] \<Rightarrow> Some (SGet k) | _ \<Rightarrow> None)
      else if q = q_getm T then (case ps of [PBytesArr ks] \<Rightarrow> Some (SGetm ks) | _ \<Rightarrow> None)
      else if q = q_set T then (case ps of [PBytes k, PBytes v] \<Rightarrow> Some (SSet k v) | _ \<Rightarrow> None)
      else if q = q_setm T then
        (case ps of [PBytesArr ks, PBytesArr vs] \<Rightarrow> Some (SSetm ks vs) | _ \<Rightarrow> None)
      else if q = q_put T then (case ps of [PBytes k, PBytes v] \<Rightarrow> Some (SPut k v) | _ \<Rightarrow> None)
      else if q = q_putc T then
        (case ps of [PBytes k, PBytes v, PBytes c] \<Rightarrow> Some (SPutc k v c) | _ \<Rightarrow> None)
      else if q = q_del T then (case ps of [PBytes k] \<Rightarrow> Some (SDel k) | _ \<Rightarrow> None)
      else if q = q_delc T then (case ps of [PBytes k, PBytes c] \<Rightarrow> Some (SDelc k c) | _ \<Rightarrow> None)
      else if q = q_delr T then (case ps of [PBytes a, PBytes b] \<Rightarrow> Some (SDelr a b) | _ \<Rightarrow> None)
      else if q = q_count T then (case ps of [PBytes a, PBytes b] \<Rightarrow> Some (SCount a b) | _ \<Rightarrow> None)
      else if q = q_range_keys_asc T then range_stmt False False ps
      else if q = q_range_keys_desc T then range_stmt False True ps
      else if q = q_range_kv_asc T then range_stmt True False ps
      else if q = q_range_kv_desc T then range_stmt True True ps
      else if q = q_range_kv_all T then
        (case ps of [PBytes a, PBytes b] \<Rightarrow> Some (SRangeAll a b) | _ \<Rightarrow> None)
      else if q = q_count_approx T then
        (case ps of [PText n] \<Rightarrow> Some (SCountApprox n) | _ \<Rightarrow> None)
      else None)"

text \<open>
  The effect of a statement that succeeds, as a relation between the table before, the result and
  the table after.  \<open>SELECT\<close> without \<open>ORDER BY\<close> returns its rows in any order; an
  \<open>INSERT ... ON CONFLICT DO UPDATE\<close> that meets a key twice does not succeed.
\<close>

fun stmt_sem :: "stmt \<Rightarrow> table \<Rightarrow> pg_result \<Rightarrow> table \<Rightarrow> bool" where
  "stmt_sem (SExists k) tb r tb' \<longleftrightarrow> tb' = tb \<and>
     rows r = (if map_of tb k = None then [] else [[(''exists_flag'', CInt 1)]])"
| "stmt_sem (SGet k) tb r tb' \<longleftrightarrow> tb' = tb \<and>
     rows r = (case map_of tb k of None \<Rightarrow> [] | Some v \<Rightarrow> [[(''val'', CBytes v)]])"
| "stmt_sem (SGetm ks) tb r tb' \<longleftrightarrow> tb' = tb \<and>
     (\<exists>rs. rows r = map row_kv rs \<and> distinct rs \<and> set rs = set (filter (\<lambda>x. fst x \<in> set ks) tb))"
| "stmt_sem (SSet k v) tb r tb' \<longleftrightarrow> tb' = tbl_put k v tb \<and> affected r = 1"
| "stmt_sem (SSetm ks vs) tb r tb' \<longleftrightarrow> distinct ks \<and> length ks = length vs \<and>
     tb' = tbl_puts (zip ks vs) tb \<and> affected r = length ks"
| "stmt_sem (SPut k v) tb r tb' \<longleftrightarrow>
     (if map_of tb k = None then tb' = tbl_put k v tb \<and> affected r = 1
      else tb' = tb \<and> affected r = 0)"
| "stmt_sem (SPutc k v c) tb r tb' \<longleftrightarrow>
     (if map_of tb k = Some c then tb' = tbl_put k v tb \<and> affected r = 1
      else tb' = tb \<and> affected r = 0)"
| "stmt_sem (SDel k) tb r tb' \<longleftrightarrow> tb' = tbl_del k tb \<and>
     affected r = (if map_of tb k = None then 0 else 1)"
| "stmt_sem (SDelc k c) tb r tb' \<longleftrightarrow>
     (if map_of tb k = Some c then tb' = tbl_del k tb \<and> affected r = 1
      else tb' = tb \<and> affected r = 0)"
| "stmt_sem (SDelr a b) tb r tb' \<longleftrightarrow> tb' = tbl_delr a b tb \<and>
     affected r = length (tbl_range a b tb)"
| "stmt_sem (SCount a b) tb r tb' \<longleftrightarrow> tb' = tb \<and>
     rows r = [[(''cnt'', CInt (int (length (tbl_range a b tb))))]]"
| "stmt_sem (SRange vals desc a b n m) tb r tb' \<longleftrightarrow> tb' = tb \<and>
     rows r = map (if vals then row_kv else row_key \<circ> fst)
       (page n m ((if desc then rev else id) (tbl_range a b tb)))"
| "stmt_sem (SRangeAll a b) tb r tb' \<longleftrightarrow> tb' = tb \<and> rows r = map row_kv (tbl_range a b tb)"
| "stmt_sem (SCountApprox n) tb r tb' \<longleftrightarrow> tb' = tb \<and>
     (rows r = [] \<or> (\<exists>c \<ge> 0. rows r = [[(''approx_cnt'', CInt c)]]))"

text \<open>The statements a healthy session does not refuse.\<close>

fun runnable :: "stmt \<Rightarrow> bool" where
  "runnable (SSetm ks vs) \<longleftrightarrow> distinct ks \<and> length ks = length vs"
| "runnable st \<longleftrightarrow> True"

lemma stmt_of_sql [simp]:
  "stmt_of t (q_exists (sql_new t)) [PBytes k] = Some (SExists k)"
  "stmt_of t (q_get (sql_new t)) [PBytes k] = Some (SGet k)"
  "stmt_of t (q_getm (sql_new t)) [PBytesArr ks] = Some (SGetm ks)"
  "stmt_of t (q_set (sql_new t)) [PBytes k, PBytes v] = Some (SSet k v)"
  "stmt_of t (q_setm (sql_new t)) [PBytesArr ks, PBytesArr vs] = Some (SSetm ks vs)"
  "stmt_of t (q_put (sql_new t)) [PBytes k, PBytes v] = Some (SPut k v)"
  "stmt_of t (q_putc (sql_new t)) [PBytes k, PBytes v, PBytes c] = Some (SPutc k v c)"
  "stmt_of t (q_del (sql_new t)) [PBytes k] = Some (SDel k)"
  "stmt_of t (q_delc (sql_new t)) [PBytes k, PBytes c] = Some (SDelc k c)"
  "stmt_of t (q_delr (sql_new t)) [PBytes a, PBytes b] = Some (SDelr a b)"
  "stmt_of t (q_count (sql_new t)) [PBytes a, PBytes b] = Some (SCount a b)"
  "stmt_of t (q_range_keys_asc (sql_new t)) ps = range_stmt False False ps"
  "stmt_of t (q_range_keys_desc (sql_new t)) ps = range_stmt False True ps"
  "stmt_of t (q_range_kv_asc (sql_new t)) ps = range_stmt True False ps"
  "stmt_of t (q_range_kv_desc (sql_new t)) ps = range_stmt True True ps"
  "stmt_of t (q_range_kv_all (sql_new t)) [PBytes a, PBytes b] = Some (SRangeAll a b)"
  "stmt_of t (q_count_approx (sql_new t)) [PText n] = Some (SCountApprox n)"
  by (simp_all add: stmt_of_def sql_new_def Let_def)

lemma range_stmt_words [simp]:
  "range_stmt vals desc [PBytes a, PBytes b, PInt (uint (n :: u32)), PInt (uint (m :: u32))] =
     Some (SRange vals desc a b (unat n) (unat m))"
  by (simp add: range_stmt_def)

text \<open>The statements that change nothing, allowed in a read-only transaction.\<close>

fun is_read :: "stmt \<Rightarrow> bool" where
  "is_read (SExists k) = True"
| "is_read (SGet k) = True"
| "is_read (SGetm ks) = True"
| "is_read (SCount a b) = True"
| "is_read (SRange vals desc a b n m) = True"
| "is_read (SRangeAll a b) = True"
| "is_read (SCountApprox n) = True"
| "is_read _ = False"

subsection \<open>The laws of a session\<close>

text \<open>
  How the laws look at a session state: which states are sessions of a transaction at all, the
  table as the transaction sees it, its savepoints (the latest first, each with the table it would
  restore), the table this session has committed, whether the transaction is aborted (PostgreSQL
  then refuses everything but a rollback), whether it may write, and whether the session is
  healthy (a statement that can run does run).
\<close>

record 's pg_view =
  pv_inv :: "'s \<Rightarrow> bool"
  pv_table :: "'s \<Rightarrow> table"
  pv_saves :: "'s \<Rightarrow> (string \<times> table) list"
  pv_durable :: "'s \<Rightarrow> table"
  pv_aborted :: "'s \<Rightarrow> bool"
  pv_rw :: "'s \<Rightarrow> bool"
  pv_healthy :: "'s \<Rightarrow> bool"

text \<open>What one statement leaves alone: it stays a session, commits nothing, keeps its mode.\<close>

definition same_tx :: "'s pg_view \<Rightarrow> 's \<Rightarrow> 's \<Rightarrow> bool" where
  "same_tx pv s s' \<longleftrightarrow> pv_inv pv s' \<and> pv_durable pv s' = pv_durable pv s \<and> pv_rw pv s' = pv_rw pv s"

fun is_database :: "sqlx_error \<Rightarrow> bool" where
  "is_database (Database c m) = True"
| "is_database _ = False"

definition save_sql :: "string \<Rightarrow> string" where "save_sql n = ''SAVEPOINT '' @ n"
definition release_sql :: "string \<Rightarrow> string" where "release_sql n = ''RELEASE SAVEPOINT '' @ n"
definition rollback_to_sql :: "string \<Rightarrow> string" where
  "rollback_to_sql n = ''ROLLBACK TO SAVEPOINT '' @ n"

definition savepoint_text :: "string \<Rightarrow> bool" where
  "savepoint_text q \<longleftrightarrow> (\<exists>n. q = save_sql n \<or> q = release_sql n \<or> q = rollback_to_sql n)"

text \<open>
  \<open>RELEASE\<close> removes the latest savepoint of that name and all after it; \<open>ROLLBACK TO\<close> removes
  those after it and keeps it.
\<close>

definition from_save :: "string \<Rightarrow> (string \<times> table) list \<Rightarrow> (string \<times> table) list" where
  "from_save n sv = dropWhile (\<lambda>p. fst p \<noteq> n) sv"

text \<open>Ending a transaction, over the driver's handle or as a text.\<close>

definition ends_commit :: "'s pg_server \<Rightarrow> 's \<Rightarrow> (sqlx_error + unit) \<times> 's \<Rightarrow> bool" where
  "ends_commit srv s r \<longleftrightarrow> srv_commit srv s = r \<or> srv_raw srv ''COMMIT'' s = r"

definition ends_rollback :: "'s pg_server \<Rightarrow> 's \<Rightarrow> (sqlx_error + unit) \<times> 's \<Rightarrow> bool" where
  "ends_rollback srv s r \<longleftrightarrow> srv_rollback srv s = r \<or> srv_raw srv ''ROLLBACK'' s = r"

locale pg_backend =
  fixes srv :: "'s pg_server" and t :: string and pv :: "'s pg_view"
  assumes inv_wf: "pv_inv pv s \<Longrightarrow> wf_table (pv_table pv s)"
    and query_frame: "\<lbrakk>pv_inv pv s; stmt_of t q ps = Some st; srv_query srv p q ps s = (rq, s')\<rbrakk> \<Longrightarrow>
      same_tx pv s s'"
    and query_ok: "\<lbrakk>pv_inv pv s; stmt_of t q ps = Some st; srv_query srv p q ps s = (Inr res, s')\<rbrakk> \<Longrightarrow>
      stmt_sem st (pv_table pv s) res (pv_table pv s') \<and> pv_saves pv s' = pv_saves pv s \<and>
      \<not> pv_aborted pv s \<and> \<not> pv_aborted pv s'"
    and query_err: "\<lbrakk>pv_inv pv s; stmt_of t q ps = Some st;
      srv_query srv p q ps s = (Inl e, s'); is_database e\<rbrakk> \<Longrightarrow>
      pv_table pv s' = pv_table pv s \<and> pv_saves pv s' = pv_saves pv s \<and> pv_aborted pv s'"
    and query_live: "\<lbrakk>pv_inv pv s; stmt_of t q ps = Some st; runnable st; pv_healthy pv s;
      is_read st \<or> pv_rw pv s\<rbrakk> \<Longrightarrow>
      \<exists>res s'. srv_query srv p q ps s = (Inr res, s') \<and> pv_healthy pv s'"
    and raw_frame: "\<lbrakk>pv_inv pv s; savepoint_text q; srv_raw srv q s = (r, s')\<rbrakk> \<Longrightarrow> same_tx pv s s'"
    and raw_err: "\<lbrakk>pv_inv pv s; savepoint_text q; srv_raw srv q s = (Inl e, s'); is_database e\<rbrakk> \<Longrightarrow>
      pv_table pv s' = pv_table pv s \<and> pv_saves pv s' = pv_saves pv s"
    and save_ok: "\<lbrakk>pv_inv pv s; srv_raw srv (save_sql n) s = (Inr u, s')\<rbrakk> \<Longrightarrow>
      pv_table pv s' = pv_table pv s \<and> pv_saves pv s' = (n, pv_table pv s) # pv_saves pv s"
    and release_ok: "\<lbrakk>pv_inv pv s; srv_raw srv (release_sql n) s = (Inr u, s')\<rbrakk> \<Longrightarrow>
      from_save n (pv_saves pv s) \<noteq> [] \<and> pv_table pv s' = pv_table pv s \<and>
      pv_saves pv s' = tl (from_save n (pv_saves pv s))"
    and rollback_to_ok: "\<lbrakk>pv_inv pv s; srv_raw srv (rollback_to_sql n) s = (Inr u, s')\<rbrakk> \<Longrightarrow>
      from_save n (pv_saves pv s) \<noteq> [] \<and>
      pv_table pv s' = snd (hd (from_save n (pv_saves pv s))) \<and>
      pv_saves pv s' = from_save n (pv_saves pv s) \<and> \<not> pv_aborted pv s'"
    and save_live: "\<lbrakk>pv_inv pv s; pv_healthy pv s\<rbrakk> \<Longrightarrow>
      \<exists>s'. srv_raw srv (save_sql n) s = (Inr (), s') \<and> pv_healthy pv s'"
    and release_live: "\<lbrakk>pv_inv pv s; pv_healthy pv s; n \<in> fst ` set (pv_saves pv s)\<rbrakk> \<Longrightarrow>
      \<exists>s'. srv_raw srv (release_sql n) s = (Inr (), s') \<and> pv_healthy pv s'"
    and rollback_to_live:
      "\<lbrakk>pv_inv pv s; pv_healthy pv s \<or> pv_aborted pv s; n \<in> fst ` set (pv_saves pv s)\<rbrakk> \<Longrightarrow>
      \<exists>s'. srv_raw srv (rollback_to_sql n) s = (Inr (), s') \<and> pv_healthy pv s'"
    and healthy_open: "\<lbrakk>pv_inv pv s; pv_healthy pv s\<rbrakk> \<Longrightarrow> \<not> pv_aborted pv s"
    and commit_any: "\<lbrakk>pv_inv pv s; ends_commit srv s (r, s')\<rbrakk> \<Longrightarrow>
      pv_durable pv s' = pv_durable pv s \<or> (\<not> pv_aborted pv s \<and> pv_durable pv s' = pv_table pv s)"
    and commit_ok: "\<lbrakk>pv_inv pv s; ends_commit srv s (Inr u, s')\<rbrakk> \<Longrightarrow>
      pv_durable pv s' = (if pv_aborted pv s then pv_durable pv s else pv_table pv s)"
    and commit_err: "\<lbrakk>pv_inv pv s; ends_commit srv s (Inl e, s'); is_database e\<rbrakk> \<Longrightarrow>
      pv_durable pv s' = pv_durable pv s"
    and rollback_end: "\<lbrakk>pv_inv pv s; ends_rollback srv s (r, s')\<rbrakk> \<Longrightarrow> pv_durable pv s' = pv_durable pv s"
    and end_live: "\<lbrakk>pv_inv pv s; pv_healthy pv s \<or> pv_aborted pv s;
      ends_commit srv s (r, s') \<or> ends_rollback srv s (r, s')\<rbrakk> \<Longrightarrow> r = Inr ()"

end
