(* ===== verification/Pg_Transaction.thy ===== *)
theory Pg_Transaction
  imports Pg_Server "HOL-Library.Multiset"
begin

section \<open>Transactions (src/transaction.rs)\<close>

text \<open>
  \<^verbatim>\<open>PgTransaction\<close> and its operations.  The struct is the record \<open>pg_tx\<close>; the connection inside
  \<^verbatim>\<open>TxConn\<close> belongs to the driver, so the model keeps the variant and threads the session state
  \<open>'s\<close> of the server beside it.  \<open>tx_active\<close> is the value of the counter shared with the store.  An
  operation that only talks to the server returns its outcome and the new session state; one that
  changes the struct returns that too.  Log lines are left out.
\<close>

subsection \<open>Data\<close>

datatype tx_conn = Pooled | Direct

record pg_tx =
  conn :: "tx_conn option"
  writeable :: bool
  savepoint_counter :: u32
  savepoints :: "string list"
  isolation :: pg_isolation
  persistent :: bool
  sql :: sql_texts
  tx_active :: u64

definition SETM_MAX_PAIRS :: nat where "SETM_MAX_PAIRS = 32000"

definition new_pooled :: "bool \<Rightarrow> pg_isolation \<Rightarrow> bool \<Rightarrow> sql_texts \<Rightarrow> u64 \<Rightarrow> pg_tx" where
  "new_pooled w lvl p q n =
     \<lparr>conn = Some Pooled, writeable = w, savepoint_counter = 0, savepoints = [], isolation = lvl,
      persistent = p, sql = q, tx_active = n\<rparr>"

definition new_direct :: "bool \<Rightarrow> pg_isolation \<Rightarrow> bool \<Rightarrow> sql_texts \<Rightarrow> u64 \<Rightarrow> pg_tx" where
  "new_direct w lvl p q n =
     \<lparr>conn = Some Direct, writeable = w, savepoint_counter = 0, savepoints = [], isolation = lvl,
      persistent = p, sql = q, tx_active = n\<rparr>"

definition is_open :: "pg_tx \<Rightarrow> bool" where
  "is_open tx \<longleftrightarrow> conn tx \<noteq> None"

definition savepoint_depth :: "pg_tx \<Rightarrow> nat" where
  "savepoint_depth tx = length (savepoints tx)"

subsection \<open>Helpers\<close>

type_synonym 'a result = "(pg_store_error, 'a) outcome"

definition release_active :: "pg_tx \<Rightarrow> pg_tx" where
  "release_active tx = tx\<lparr>tx_active := tx_active tx - 1\<rparr>"

definition check_writeable :: "pg_tx \<Rightarrow> unit result" where
  "check_writeable tx = (if writeable tx then Ok () else Err TxReadOnly)"

text \<open>
  The common middle of every operation: take the connection or fail with \<open>TxClosed\<close>, build the
  query with the \<^verbatim>\<open>persistent\<close> flag, run it, map the driver's error.
\<close>

definition run_query ::
  "'s pg_server \<Rightarrow> pg_tx \<Rightarrow> string \<Rightarrow> pg_param list \<Rightarrow> key option \<Rightarrow> 's \<Rightarrow> pg_result result \<times> 's" where
  "run_query srv tx q ps key s =
     (case conn tx of
        None \<Rightarrow> (Err TxClosed, s)
      | Some c \<Rightarrow>
          (case srv_query srv (persistent tx) q ps s of
             (Inl e, s') \<Rightarrow> (Err (from_sqlx key e), s')
           | (Inr r, s') \<Rightarrow> (Ok r, s')))"

text \<open>\<^verbatim>\<open>fetch_optional\<close> and \<^verbatim>\<open>fetch_one\<close> take the first row; the latter fails without one.\<close>

definition fetch_optional :: "pg_result \<Rightarrow> pg_row option" where
  "fetch_optional r = (case rows r of [] \<Rightarrow> None | x # _ \<Rightarrow> Some x)"

definition row_not_found :: sqlx_error where
  "row_not_found =
     OtherSqlx ''no rows returned by a query that expected to return at least one row''"

definition fetch_one :: "pg_result \<Rightarrow> pg_row result" where
  "fetch_one r = (case rows r of [] \<Rightarrow> Err (from_sqlx None row_not_found) | x # _ \<Rightarrow> Ok x)"

text \<open>\<^verbatim>\<open>Row::get\<close> panics when the column is missing or has another type.\<close>

definition get_bytes :: "string \<Rightarrow> pg_row \<Rightarrow> (u8 list) result" where
  "get_bytes c row = (case map_of row c of Some (CBytes b) \<Rightarrow> Ok b | _ \<Rightarrow> Panic)"

definition get_i64 :: "string \<Rightarrow> pg_row \<Rightarrow> int result" where
  "get_i64 c row = (case map_of row c of Some (CInt i) \<Rightarrow> Ok i | _ \<Rightarrow> Panic)"

fun traverse :: "('a \<Rightarrow> 'b result) \<Rightarrow> 'a list \<Rightarrow> 'b list result" where
  "traverse f [] = Ok []"
| "traverse f (x # xs) = and_then (f x) (\<lambda>y. map_ok ((#) y) (traverse f xs))"

definition rows_to_keys :: "pg_row list \<Rightarrow> key list result" where
  "rows_to_keys rs = traverse (get_bytes ''key'') rs"

definition rows_to_pairs :: "pg_row list \<Rightarrow> (key \<times> val) list result" where
  "rows_to_pairs rs =
     traverse (\<lambda>r. and_then (get_bytes ''key'' r) (\<lambda>k. map_ok (Pair k) (get_bytes ''val'' r))) rs"

text \<open>Run a query and read its result with \<open>f\<close>.\<close>

definition query_then ::
  "'s pg_server \<Rightarrow> pg_tx \<Rightarrow> string \<Rightarrow> pg_param list \<Rightarrow> key option \<Rightarrow> (pg_result \<Rightarrow> 'a result) \<Rightarrow> 's \<Rightarrow>
     'a result \<times> 's" where
  "query_then srv tx q ps key f s =
     (let (r, s') = run_query srv tx q ps key s in (and_then r f, s'))"

subsection \<open>Reads\<close>

definition tx_exists :: "'s pg_server \<Rightarrow> pg_tx \<Rightarrow> key \<Rightarrow> 's \<Rightarrow> bool result \<times> 's" where
  "tx_exists srv tx k s =
     query_then srv tx (q_exists (sql tx)) [PBytes k] (Some k)
       (\<lambda>r. Ok (fetch_optional r \<noteq> None)) s"

definition tx_get :: "'s pg_server \<Rightarrow> pg_tx \<Rightarrow> key \<Rightarrow> 's \<Rightarrow> val option result \<times> 's" where
  "tx_get srv tx k s =
     query_then srv tx (q_get (sql tx)) [PBytes k] (Some k)
       (\<lambda>r. case fetch_optional r of
              None \<Rightarrow> Ok None
            | Some row \<Rightarrow> map_ok Some (get_bytes ''val'' row)) s"

definition getm_linear :: "key list \<Rightarrow> (key \<times> val) list \<Rightarrow> val option list" where
  "getm_linear keys ex =
     map (\<lambda>k. map_option snd (find (\<lambda>r. fst r = k) ex)) keys"

definition hash_collect :: "(key \<times> val) list \<Rightarrow> kv" where
  "hash_collect rs = fold (\<lambda>(k, v) m. m(k \<mapsto> v)) rs Map.empty"

definition use_linear :: "nat \<Rightarrow> nat \<Rightarrow> bool" where
  "use_linear nrows nkeys \<longleftrightarrow> nrows \<le> 64 \<and> sat_mul64 nrows nkeys \<le> 8192"

definition tx_getm :: "'s pg_server \<Rightarrow> pg_tx \<Rightarrow> key list \<Rightarrow> 's \<Rightarrow> val option list result \<times> 's" where
  "tx_getm srv tx keys s =
     (if keys = [] then (Ok [], s)
      else query_then srv tx (q_getm (sql tx)) [PBytesArr keys] None
        (\<lambda>r. if use_linear (length (rows r)) (length keys)
             then map_ok (getm_linear keys) (rows_to_pairs (rows r))
             else map_ok (\<lambda>rs. map (hash_collect rs) keys) (rows_to_pairs (rows r))) s)"

subsection \<open>Writes\<close>

definition tx_set :: "'s pg_server \<Rightarrow> pg_tx \<Rightarrow> key \<Rightarrow> val \<Rightarrow> 's \<Rightarrow> unit result \<times> 's" where
  "tx_set srv tx k v s =
     (case check_writeable tx of
        Ok _ \<Rightarrow> query_then srv tx (q_set (sql tx)) [PBytes k, PBytes v] (Some k) (\<lambda>r. Ok ()) s
      | e \<Rightarrow> (e, s))"

text \<open>
  \<^verbatim>\<open>dedup_pairs\<close>: for up to 32 pairs a scan that overwrites the value of a key already met, above
  that a \<^verbatim>\<open>HashMap\<close>, whose iteration order is the parameter \<open>hord\<close>.
\<close>

fun upsert :: "key \<times> val \<Rightarrow> (key \<times> val) list \<Rightarrow> (key \<times> val) list" where
  "upsert (k, v) [] = [(k, v)]"
| "upsert (k, v) ((ek, ev) # r) = (if ek = k then (ek, v) # r else (ek, ev) # upsert (k, v) r)"

definition upserts :: "(key \<times> val) list \<Rightarrow> (key \<times> val) list" where
  "upserts ps = fold upsert ps []"

definition dedup_pairs ::
  "((key \<times> val) list \<Rightarrow> (key \<times> val) list) \<Rightarrow> (key \<times> val) list \<Rightarrow> (key \<times> val) list" where
  "dedup_pairs hord ps =
     (if length ps \<le> 1 then ps
      else if length ps \<le> 32 then upserts ps
      else hord (upserts ps))"

definition setm_batch ::
  "'s pg_server \<Rightarrow> pg_tx \<Rightarrow> (key \<times> val) list \<Rightarrow> 's \<Rightarrow> unit result \<times> 's" where
  "setm_batch srv tx ps s =
     query_then srv tx (q_setm (sql tx)) [PBytesArr (map fst ps), PBytesArr (map snd ps)] None
       (\<lambda>r. Ok ()) s"

text \<open>
  The loop over \<^verbatim>\<open>pairs[start..end]\<close>.  The end is a saturating sum in the source, which cannot
  saturate for the length of a \<^verbatim>\<open>Vec\<close>.
\<close>

function setm_chunks ::
  "'s pg_server \<Rightarrow> pg_tx \<Rightarrow> (key \<times> val) list \<Rightarrow> nat \<Rightarrow> 's \<Rightarrow> unit result \<times> 's" where
  "setm_chunks srv tx ps start s =
     (if start < length ps then
        (let e = min (start + SETM_MAX_PAIRS) (length ps) in
         case setm_batch srv tx (take (e - start) (drop start ps)) s of
           (Ok _, s') \<Rightarrow> setm_chunks srv tx ps e s'
         | (r, s') \<Rightarrow> (r, s'))
      else (Ok (), s))"
  by pat_completeness auto
termination
  by (relation "measure (\<lambda>(_, _, ps, start, _). length ps - start)") (auto simp: SETM_MAX_PAIRS_def)

declare setm_chunks.simps [simp del]

definition tx_setm ::
  "((key \<times> val) list \<Rightarrow> (key \<times> val) list) \<Rightarrow> 's pg_server \<Rightarrow> pg_tx \<Rightarrow> (key \<times> val) list \<Rightarrow> 's \<Rightarrow>
     unit result \<times> 's" where
  "tx_setm hord srv tx ps s =
     (if conn tx = None then (Err TxClosed, s)
      else case check_writeable tx of
        Ok _ \<Rightarrow>
          (if ps = [] then (Ok (), s)
           else let ps' = dedup_pairs hord ps in
             if length ps' \<le> SETM_MAX_PAIRS then setm_batch srv tx ps' s
             else setm_chunks srv tx ps' 0 s)
      | e \<Rightarrow> (e, s))"

definition tx_put :: "'s pg_server \<Rightarrow> pg_tx \<Rightarrow> key \<Rightarrow> val \<Rightarrow> 's \<Rightarrow> unit result \<times> 's" where
  "tx_put srv tx k v s =
     (case check_writeable tx of
        Ok _ \<Rightarrow> query_then srv tx (q_put (sql tx)) [PBytes k, PBytes v] (Some k)
          (\<lambda>r. if affected r = 0 then Err (KeyAlreadyExists k) else Ok ()) s
      | e \<Rightarrow> (e, s))"

definition tx_putc ::
  "'s pg_server \<Rightarrow> pg_tx \<Rightarrow> key \<Rightarrow> val \<Rightarrow> val option \<Rightarrow> 's \<Rightarrow> unit result \<times> 's" where
  "tx_putc srv tx k v chk s =
     (case check_writeable tx of
        Ok _ \<Rightarrow>
          (case chk of
             None \<Rightarrow> tx_put srv tx k v s
           | Some expected \<Rightarrow>
               query_then srv tx (q_putc (sql tx)) [PBytes k, PBytes v, PBytes expected] (Some k)
                 (\<lambda>r. if affected r = 0 then Err (ConditionNotMet k) else Ok ()) s)
      | e \<Rightarrow> (e, s))"

definition tx_del :: "'s pg_server \<Rightarrow> pg_tx \<Rightarrow> key \<Rightarrow> 's \<Rightarrow> unit result \<times> 's" where
  "tx_del srv tx k s =
     (case check_writeable tx of
        Ok _ \<Rightarrow> query_then srv tx (q_del (sql tx)) [PBytes k] (Some k) (\<lambda>r. Ok ()) s
      | e \<Rightarrow> (e, s))"

definition tx_delc :: "'s pg_server \<Rightarrow> pg_tx \<Rightarrow> key \<Rightarrow> val option \<Rightarrow> 's \<Rightarrow> unit result \<times> 's" where
  "tx_delc srv tx k chk s =
     (case check_writeable tx of
        Ok _ \<Rightarrow>
          (case chk of
             None \<Rightarrow> tx_del srv tx k s
           | Some expected \<Rightarrow>
               query_then srv tx (q_delc (sql tx)) [PBytes k, PBytes expected] (Some k)
                 (\<lambda>r. if affected r = 0 then Err (ConditionNotMet k) else Ok ()) s)
      | e \<Rightarrow> (e, s))"

definition tx_delr :: "'s pg_server \<Rightarrow> pg_tx \<Rightarrow> key \<Rightarrow> key \<Rightarrow> 's \<Rightarrow> unit result \<times> 's" where
  "tx_delr srv tx a b s =
     (case check_writeable tx of
        Ok _ \<Rightarrow>
          (if a \<ge> b then (Ok (), s)
           else query_then srv tx (q_delr (sql tx)) [PBytes a, PBytes b] None (\<lambda>r. Ok ()) s)
      | e \<Rightarrow> (e, s))"

subsection \<open>Range scans\<close>

definition range_query_offset ::
  "'s pg_server \<Rightarrow> pg_tx \<Rightarrow> string \<Rightarrow> key \<Rightarrow> key \<Rightarrow> u32 \<Rightarrow> u32 \<Rightarrow> 's \<Rightarrow> pg_row list result \<times> 's" where
  "range_query_offset srv tx q a b limit skip s =
     (if a \<ge> b then (Ok [], s)
      else query_then srv tx q [PBytes a, PBytes b, PInt (uint limit), PInt (uint skip)] None
        (\<lambda>r. Ok (rows r)) s)"

definition scan_keys ::
  "'s pg_server \<Rightarrow> pg_tx \<Rightarrow> string \<Rightarrow> key \<Rightarrow> key \<Rightarrow> u32 \<Rightarrow> u32 \<Rightarrow> 's \<Rightarrow> key list result \<times> 's" where
  "scan_keys srv tx q a b limit skip s =
     (if conn tx = None then (Err TxClosed, s)
      else let (r, s') = range_query_offset srv tx q a b limit skip s in (and_then r rows_to_keys, s'))"

definition scan_pairs ::
  "'s pg_server \<Rightarrow> pg_tx \<Rightarrow> string \<Rightarrow> key \<Rightarrow> key \<Rightarrow> u32 \<Rightarrow> u32 \<Rightarrow> 's \<Rightarrow> (key \<times> val) list result \<times> 's" where
  "scan_pairs srv tx q a b limit skip s =
     (if conn tx = None then (Err TxClosed, s)
      else let (r, s') = range_query_offset srv tx q a b limit skip s in (and_then r rows_to_pairs, s'))"

definition tx_keys where
  "tx_keys srv tx a b limit skip s = scan_keys srv tx (q_range_keys_asc (sql tx)) a b limit skip s"

definition tx_keysr where
  "tx_keysr srv tx a b limit skip s = scan_keys srv tx (q_range_keys_desc (sql tx)) a b limit skip s"

definition tx_scan where
  "tx_scan srv tx a b limit skip s = scan_pairs srv tx (q_range_kv_asc (sql tx)) a b limit skip s"

definition tx_scanr where
  "tx_scanr srv tx a b limit skip s = scan_pairs srv tx (q_range_kv_desc (sql tx)) a b limit skip s"

definition tx_getr :: "'s pg_server \<Rightarrow> pg_tx \<Rightarrow> key \<Rightarrow> key \<Rightarrow> 's \<Rightarrow> (key \<times> val) list result \<times> 's" where
  "tx_getr srv tx a b s =
     (if a \<ge> b then (Ok [], s)
      else query_then srv tx (q_range_kv_all (sql tx)) [PBytes a, PBytes b] None
        (\<lambda>r. rows_to_pairs (rows r)) s)"

definition tx_count :: "'s pg_server \<Rightarrow> pg_tx \<Rightarrow> key \<Rightarrow> key \<Rightarrow> 's \<Rightarrow> nat result \<times> 's" where
  "tx_count srv tx a b s =
     (if a \<ge> b then (Ok 0, s)
      else query_then srv tx (q_count (sql tx)) [PBytes a, PBytes b] None
        (\<lambda>r. and_then (fetch_one r) (\<lambda>row. map_ok (\<lambda>i. nat (max i 0)) (get_i64 ''cnt'' row))) s)"

definition tx_count_approx :: "'s pg_server \<Rightarrow> pg_tx \<Rightarrow> 's \<Rightarrow> nat option result \<times> 's" where
  "tx_count_approx srv tx s =
     query_then srv tx (q_count_approx (sql tx)) [PText (q_table_name (sql tx))] None
       (\<lambda>r. case fetch_optional r of
              None \<Rightarrow> Ok None
            | Some row \<Rightarrow> map_ok (\<lambda>i. Some (nat (max i 0))) (get_i64 ''approx_cnt'' row)) s"

subsection \<open>Savepoints\<close>

definition execute_simple :: "'s pg_server \<Rightarrow> pg_tx \<Rightarrow> string \<Rightarrow> key option \<Rightarrow> 's \<Rightarrow> unit result \<times> 's" where
  "execute_simple srv tx q key s =
     (case conn tx of
        None \<Rightarrow> (Err TxClosed, s)
      | Some c \<Rightarrow>
          (case srv_raw srv q s of
             (Inl e, s') \<Rightarrow> (Err (from_sqlx key e), s')
           | (Inr _, s') \<Rightarrow> (Ok (), s')))"

text \<open>The stack grows at the end of the \<^verbatim>\<open>Vec\<close>.\<close>

definition push_savepoint_name :: "pg_tx \<Rightarrow> string \<times> pg_tx" where
  "push_savepoint_name tx =
     (let c = savepoint_counter tx + 1; name = ''sp_'' @ fmt_nat (unat c) in
      (name, tx\<lparr>savepoint_counter := c, savepoints := savepoints tx @ [name]\<rparr>))"

definition pop_savepoint_name :: "pg_tx \<Rightarrow> string option \<times> pg_tx" where
  "pop_savepoint_name tx =
     (if savepoints tx = [] then (None, tx)
      else (Some (last (savepoints tx)), tx\<lparr>savepoints := butlast (savepoints tx)\<rparr>))"

definition push_back :: "string \<Rightarrow> pg_tx \<Rightarrow> pg_tx" where
  "push_back name tx = tx\<lparr>savepoints := savepoints tx @ [name]\<rparr>"

definition new_save_point :: "'s pg_server \<Rightarrow> pg_tx \<Rightarrow> 's \<Rightarrow> unit result \<times> pg_tx \<times> 's" where
  "new_save_point srv tx s =
     (let (name, tx1) = push_savepoint_name tx in
      case execute_simple srv tx1 (save_sql name) None s of
        (Ok _, s') \<Rightarrow> (Ok (), tx1, s')
      | (e, s') \<Rightarrow> (e, tx1\<lparr>savepoints := butlast (savepoints tx1)\<rparr>, s'))"

definition release_last_save_point :: "'s pg_server \<Rightarrow> pg_tx \<Rightarrow> 's \<Rightarrow> unit result \<times> pg_tx \<times> 's" where
  "release_last_save_point srv tx s =
     (case pop_savepoint_name tx of
        (None, tx1) \<Rightarrow> (Ok (), tx1, s)
      | (Some name, tx1) \<Rightarrow>
          (case execute_simple srv tx1 (release_sql name) None s of
             (Ok _, s') \<Rightarrow> (Ok (), tx1, s')
           | (e, s') \<Rightarrow> (e, push_back name tx1, s')))"

definition rollback_to_save_point :: "'s pg_server \<Rightarrow> pg_tx \<Rightarrow> 's \<Rightarrow> unit result \<times> pg_tx \<times> 's" where
  "rollback_to_save_point srv tx s =
     (case pop_savepoint_name tx of
        (None, tx1) \<Rightarrow> (Ok (), tx1, s)
      | (Some name, tx1) \<Rightarrow>
          (case execute_simple srv tx1 (rollback_to_sql name) None s of
             (Ok _, s1) \<Rightarrow>
               (case execute_simple srv tx1 (release_sql name) None s1 of
                  (Ok _, s2) \<Rightarrow> (Ok (), tx1, s2)
                | (e, s2) \<Rightarrow> (e, push_back name tx1, s2))
           | (e, s1) \<Rightarrow> (e, push_back name tx1, s1)))"

subsection \<open>The end of a transaction\<close>

definition end_result :: "(sqlx_error + unit) \<times> 's \<Rightarrow> unit result \<times> 's" where
  "end_result r = (case r of (Inl e, s) \<Rightarrow> (Err (from_sqlx None e), s) | (Inr _, s) \<Rightarrow> (Ok (), s))"

definition commit_inner :: "'s pg_server \<Rightarrow> tx_conn \<Rightarrow> 's \<Rightarrow> unit result \<times> 's" where
  "commit_inner srv c s =
     (case c of
        Pooled \<Rightarrow> end_result (srv_commit srv s)
      | Direct \<Rightarrow> end_result (srv_raw srv ''COMMIT'' s))"

definition cancel_inner :: "'s pg_server \<Rightarrow> tx_conn \<Rightarrow> 's \<Rightarrow> unit result \<times> 's" where
  "cancel_inner srv c s =
     (case c of
        Pooled \<Rightarrow> end_result (srv_rollback srv s)
      | Direct \<Rightarrow> end_result (srv_raw srv ''ROLLBACK'' s))"

definition tx_end ::
  "(tx_conn \<Rightarrow> 's \<Rightarrow> unit result \<times> 's) \<Rightarrow> pg_tx \<Rightarrow> 's \<Rightarrow> unit result \<times> pg_tx \<times> 's" where
  "tx_end inner tx s =
     (case conn tx of
        None \<Rightarrow> (Err TxClosed, tx, s)
      | Some c \<Rightarrow>
          (let (r, s') = inner c s in
           (r, release_active (tx\<lparr>conn := None, savepoints := []\<rparr>), s')))"

definition tx_commit :: "'s pg_server \<Rightarrow> pg_tx \<Rightarrow> 's \<Rightarrow> unit result \<times> pg_tx \<times> 's" where
  "tx_commit srv tx s = tx_end (commit_inner srv) tx s"

definition tx_cancel :: "'s pg_server \<Rightarrow> pg_tx \<Rightarrow> 's \<Rightarrow> unit result \<times> pg_tx \<times> 's" where
  "tx_cancel srv tx s = tx_end (cancel_inner srv) tx s"

text \<open>
  \<^verbatim>\<open>Drop\<close>: the counter of a transaction dropped open.  What happens to its connection is the
  driver's and the server's doing: they roll back.
\<close>

definition tx_drop :: "pg_tx \<Rightarrow> pg_tx" where
  "tx_drop tx = (if is_open tx then release_active (tx\<lparr>conn := None\<rparr>) else tx)"

subsection \<open>Reading rows\<close>

lemma traverse_map_Ok: "(\<And>x. x \<in> set xs \<Longrightarrow> f (g x) = Ok x) \<Longrightarrow> traverse f (map g xs) = Ok xs"
  by (induction xs) auto

lemma rows_to_keys_ok [simp]: "rows_to_keys (map row_key ks) = Ok ks"
  by (auto simp: rows_to_keys_def get_bytes_def row_key_def intro: traverse_map_Ok)

lemma rows_to_keys_fst [simp]: "rows_to_keys (map (row_key \<circ> fst) rs) = Ok (map fst rs)"
  using rows_to_keys_ok [of "map fst rs"] by (simp add: comp_def)

lemma rows_to_pairs_ok [simp]: "rows_to_pairs (map row_kv rs) = Ok rs"
  by (auto simp: rows_to_pairs_def get_bytes_def row_kv_def intro: traverse_map_Ok)

lemma fetch_optional_simps [simp]:
  "rows r = [] \<Longrightarrow> fetch_optional r = None" "rows r = x # xs \<Longrightarrow> fetch_optional r = Some x"
  by (simp_all add: fetch_optional_def)

lemma fetch_one_simps [simp]: "rows r = x # xs \<Longrightarrow> fetch_one r = Ok x"
  by (simp add: fetch_one_def)

lemma getters [simp]:
  "get_bytes ''val'' [(''val'', CBytes v)] = Ok v"
  "get_i64 ''cnt'' [(''cnt'', CInt i)] = Ok i"
  "get_i64 ''approx_cnt'' [(''approx_cnt'', CInt i)] = Ok i"
  by (simp_all add: get_bytes_def get_i64_def)

subsection \<open>Batch lookups\<close>

text \<open>Both ways of reading a batch give the lookup of each key in the rows.\<close>

lemma find_map_of: "map_option snd (find (\<lambda>r. fst r = k) ex) = map_of ex k"
  by (induction ex) auto

lemma getm_linear_map_of: "getm_linear keys ex = map (map_of ex) keys"
  by (simp add: getm_linear_def find_map_of)

lemma hash_collect_step: "fold (\<lambda>(k, v) m. m(k \<mapsto> v)) rs m = m ++ map_of (rev rs)"
  by (induction rs arbitrary: m) (auto simp: map_add_def fun_eq_iff split: option.splits)

lemma hash_collect_map_of: "hash_collect rs = map_of (rev rs)"
  by (simp add: hash_collect_def hash_collect_step)

lemma map_of_unique:
  "\<lbrakk>distinct (map fst xs); distinct (map fst ys); set xs = set ys\<rbrakk> \<Longrightarrow> map_of xs = map_of ys"
  by (metis map_of_inject_set)

lemma map_of_rev_distinct: "distinct (map fst xs) \<Longrightarrow> map_of (rev xs) = map_of xs"
  by (rule map_of_unique) (simp_all add: rev_map [symmetric])

lemma getm_rows:
  assumes "wf_table tb" "distinct rs" "set rs = {x \<in> set tb. fst x \<in> set keys}" "k \<in> set keys"
  shows "map_of tb k = map_of rs k" and "map_of tb k = hash_collect rs k"
proof -
  let ?F = "filter (\<lambda>x. fst x \<in> set keys) tb"
  have F: "distinct (map fst ?F)" "set rs = set ?F"
    using wf_distinct [OF wf_filter [OF assms(1)]] assms(3) by simp_all
  then have "inj_on fst (set rs)" by (metis distinct_map)
  then have d: "distinct (map fst rs)" using assms(2) by (simp add: distinct_map)
  have "map_of rs = map_of ?F"
    by (rule map_of_unique [OF d F])
  then show "map_of tb k = map_of rs k"
    using assms(4) map_of_filter_key [of "\<lambda>k. k \<in> set keys" tb k] by simp
  then show "map_of tb k = hash_collect rs k"
    by (simp add: hash_collect_map_of map_of_rev_distinct [OF d])
qed

subsection \<open>Deduplication\<close>

lemma upsert_spec:
  "distinct (map fst r) \<Longrightarrow> distinct (map fst (upsert p r)) \<and>
     map_of (upsert p r) = (map_of r)(fst p \<mapsto> snd p) \<and>
     fst ` set (upsert p r) = insert (fst p) (fst ` set r) \<and> length (upsert p r) \<le> Suc (length r)"
  by (induction p r rule: upsert.induct) (auto simp: fun_eq_iff)

lemma fold_upsert:
  "distinct (map fst r) \<Longrightarrow> distinct (map fst (fold upsert ps r)) \<and>
     map_of (fold upsert ps r) = map_of r ++ map_of (rev ps) \<and>
     fst ` set (fold upsert ps r) = fst ` set r \<union> fst ` set ps \<and>
     length (fold upsert ps r) \<le> length r + length ps"
proof (induction ps arbitrary: r)
  case (Cons p ps)
  show ?case
    using Cons.IH [of "upsert p r"] upsert_spec [OF Cons.prems, of p]
    by (cases p) (auto simp: fun_eq_iff map_add_def split: option.splits)
qed simp

lemma upserts_spec:
  "distinct (map fst (upserts ps))" "map_of (upserts ps) = map_of (rev ps)"
  "fst ` set (upserts ps) = fst ` set ps" "length (upserts ps) \<le> length ps"
  using fold_upsert [of "[]" ps] by (simp_all add: upserts_def)

lemma mset_distinct_fst:
  "mset ys = mset xs \<Longrightarrow> distinct (map fst xs) \<Longrightarrow> distinct (map fst ys)"
  by (metis mset_eq_imp_distinct_iff mset_map)

lemma dedup_distinct:
  assumes "\<And>xs. mset (hord xs) = mset xs"
  shows "distinct (map fst (dedup_pairs hord ps))"
proof (cases ps)
  case (Cons p qs)
  then show ?thesis
    using upserts_spec(1) [of ps] mset_distinct_fst [OF assms upserts_spec(1)]
    by (cases qs) (simp_all add: dedup_pairs_def)
qed (simp add: dedup_pairs_def)

lemma dedup_map_of:
  assumes "\<And>xs. mset (hord xs) = mset xs"
  shows "map_of (dedup_pairs hord ps) = map_of (rev ps)"
proof -
  have "map_of (hord (upserts ps)) = map_of (upserts ps)"
    by (intro map_of_unique mset_distinct_fst [OF assms] upserts_spec(1))
      (metis assms set_mset_mset)
  moreover have "map_of ps = map_of (rev ps)" if "length ps \<le> 1"
    using that by (cases ps) auto
  ultimately show ?thesis by (simp add: dedup_pairs_def upserts_spec(2))
qed

lemma tbl_puts_dedup:
  assumes "\<And>xs. mset (hord xs) = mset xs" "wf_table tb"
  shows "tbl_puts (dedup_pairs hord ps) tb = tbl_puts ps tb"
  using assms(2)
  by (intro wf_table_eqI)
    (simp_all add: map_of_tbl_puts map_of_rev_distinct dedup_distinct [OF assms(1)]
      dedup_map_of [OF assms(1)])

end
