(* ===== verification/Pg_Reference.thy ===== *)
theory Pg_Reference
  imports Pg_Server
begin

section \<open>A reference session\<close>

text \<open>
  An executable session that obeys the laws of \<open>pg_backend\<close>: an in-memory table with a savepoint
  stack, a committed copy and an aborted flag, running exactly the statement texts of one table
  name.  It shows that the laws can hold together and is the server of the concrete runs in the
  witnesses.  A statement on an aborted transaction fails with SQLSTATE 25P02, an unknown text
  with 42601, a batch that meets a key twice with 21000, a write in a read-only transaction with
  25006, an unknown savepoint with 3B001.
\<close>

record ref_session =
  r_table :: table
  r_saves :: "(string \<times> table) list"
  r_durable :: table
  r_aborted :: bool
  r_rw :: bool

fun ref_stmt :: "stmt \<Rightarrow> table \<Rightarrow> pg_result \<times> table" where
  "ref_stmt (SExists k) tb =
     (\<lparr>affected = 0, rows = (if map_of tb k = None then [] else [[(''exists_flag'', CInt 1)]])\<rparr>, tb)"
| "ref_stmt (SGet k) tb =
     (\<lparr>affected = 0, rows = (case map_of tb k of None \<Rightarrow> [] | Some v \<Rightarrow> [[(''val'', CBytes v)]])\<rparr>, tb)"
| "ref_stmt (SGetm ks) tb =
     (\<lparr>affected = 0, rows = map row_kv (filter (\<lambda>x. fst x \<in> set ks) tb)\<rparr>, tb)"
| "ref_stmt (SSet k v) tb = (\<lparr>affected = 1, rows = []\<rparr>, tbl_put k v tb)"
| "ref_stmt (SSetm ks vs) tb = (\<lparr>affected = length ks, rows = []\<rparr>, tbl_puts (zip ks vs) tb)"
| "ref_stmt (SPut k v) tb =
     (if map_of tb k = None then (\<lparr>affected = 1, rows = []\<rparr>, tbl_put k v tb)
      else (\<lparr>affected = 0, rows = []\<rparr>, tb))"
| "ref_stmt (SPutc k v c) tb =
     (if map_of tb k = Some c then (\<lparr>affected = 1, rows = []\<rparr>, tbl_put k v tb)
      else (\<lparr>affected = 0, rows = []\<rparr>, tb))"
| "ref_stmt (SDel k) tb =
     (\<lparr>affected = (if map_of tb k = None then 0 else 1), rows = []\<rparr>, tbl_del k tb)"
| "ref_stmt (SDelc k c) tb =
     (if map_of tb k = Some c then (\<lparr>affected = 1, rows = []\<rparr>, tbl_del k tb)
      else (\<lparr>affected = 0, rows = []\<rparr>, tb))"
| "ref_stmt (SDelr a b) tb =
     (\<lparr>affected = length (tbl_range a b tb), rows = []\<rparr>, tbl_delr a b tb)"
| "ref_stmt (SCount a b) tb =
     (\<lparr>affected = 0, rows = [[(''cnt'', CInt (int (length (tbl_range a b tb))))]]\<rparr>, tb)"
| "ref_stmt (SRange vals desc a b n m) tb =
     (\<lparr>affected = 0, rows = map (if vals then row_kv else row_key \<circ> fst)
       (page n m ((if desc then rev else id) (tbl_range a b tb)))\<rparr>, tb)"
| "ref_stmt (SRangeAll a b) tb = (\<lparr>affected = 0, rows = map row_kv (tbl_range a b tb)\<rparr>, tb)"
| "ref_stmt (SCountApprox n) tb =
     (\<lparr>affected = 0, rows = [[(''approx_cnt'', CInt (int (length tb)))]]\<rparr>, tb)"

definition sql_error :: "string \<Rightarrow> sqlx_error" where
  "sql_error code = Database (Some code) ''refused''"

definition ref_query ::
  "string \<Rightarrow> bool \<Rightarrow> string \<Rightarrow> pg_param list \<Rightarrow> ref_session \<Rightarrow> (sqlx_error + pg_result) \<times> ref_session"
where
  "ref_query t p q ps s =
     (if r_aborted s then (Inl (sql_error ''25P02''), s)
      else (case stmt_of t q ps of
          None \<Rightarrow> (Inl (sql_error ''42601''), s\<lparr>r_aborted := True\<rparr>)
        | Some st \<Rightarrow>
            if \<not> (is_read st \<or> r_rw s) then (Inl (sql_error ''25006''), s\<lparr>r_aborted := True\<rparr>)
            else if runnable st then
              (let (res, tb) = ref_stmt st (r_table s) in (Inr res, s\<lparr>r_table := tb\<rparr>))
            else (Inl (sql_error ''21000''), s\<lparr>r_aborted := True\<rparr>)))"

definition ref_commit :: "ref_session \<Rightarrow> (sqlx_error + unit) \<times> ref_session" where
  "ref_commit s =
     (Inr (), s\<lparr>r_durable := (if r_aborted s then r_durable s else r_table s), r_saves := []\<rparr>)"

definition ref_rollback :: "ref_session \<Rightarrow> (sqlx_error + unit) \<times> ref_session" where
  "ref_rollback s = (Inr (), s\<lparr>r_table := r_durable s, r_saves := [], r_aborted := False\<rparr>)"

definition ref_raw :: "string \<Rightarrow> ref_session \<Rightarrow> (sqlx_error + unit) \<times> ref_session" where
  "ref_raw q s =
     (if q = ''COMMIT'' then ref_commit s
      else if q = ''ROLLBACK'' then ref_rollback s
      else if starts_with ''ROLLBACK TO SAVEPOINT '' q then
        (case from_save (drop 22 q) (r_saves s) of
           [] \<Rightarrow> (Inl (sql_error ''3B001''), s\<lparr>r_aborted := True\<rparr>)
         | (n, tb) # sv \<Rightarrow>
             (Inr (), s\<lparr>r_table := tb, r_saves := (n, tb) # sv, r_aborted := False\<rparr>))
      else if r_aborted s then (Inl (sql_error ''25P02''), s)
      else if starts_with ''SAVEPOINT '' q then
        (Inr (), s\<lparr>r_saves := (drop 10 q, r_table s) # r_saves s\<rparr>)
      else if starts_with ''RELEASE SAVEPOINT '' q then
        (case from_save (drop 18 q) (r_saves s) of
           [] \<Rightarrow> (Inl (sql_error ''3B001''), s\<lparr>r_aborted := True\<rparr>)
         | _ # sv \<Rightarrow> (Inr (), s\<lparr>r_saves := sv\<rparr>))
      else (Inl (sql_error ''42601''), s\<lparr>r_aborted := True\<rparr>))"

definition ref_server :: "string \<Rightarrow> ref_session pg_server" where
  "ref_server t = \<lparr>srv_query = ref_query t, srv_raw = ref_raw, srv_commit = ref_commit,
     srv_rollback = ref_rollback\<rparr>"

definition ref_inv :: "ref_session \<Rightarrow> bool" where
  "ref_inv s \<longleftrightarrow> wf_table (r_table s) \<and> wf_table (r_durable s) \<and>
     list_all (\<lambda>p. wf_table (snd p)) (r_saves s)"

definition ref_view :: "ref_session pg_view" where
  "ref_view = \<lparr>pv_inv = ref_inv, pv_table = r_table, pv_saves = r_saves, pv_durable = r_durable,
     pv_aborted = r_aborted, pv_rw = r_rw, pv_healthy = (\<lambda>s. \<not> r_aborted s)\<rparr>"

text \<open>A session that has just begun on a table.\<close>

definition ref_begin :: "bool \<Rightarrow> table \<Rightarrow> ref_session" where
  "ref_begin rw tb =
     \<lparr>r_table = tb, r_saves = [], r_durable = tb, r_aborted = False, r_rw = rw\<rparr>"

subsection \<open>It obeys the laws\<close>

lemma wf_distinct_rows: "wf_table tb \<Longrightarrow> distinct tb"
  by (metis distinct_map wf_distinct)

lemma ref_getm_sem:
  "wf_table tb \<Longrightarrow> \<exists>rs. map row_kv (filter P tb) = map row_kv rs \<and> distinct rs \<and>
     set rs = set (filter P tb)"
  by (rule exI [of _ "filter P tb"]) (simp add: wf_distinct_rows)

lemma ref_stmt_sem:
  assumes "wf_table tb" "runnable st" "ref_stmt st tb = (res, tb')"
  shows "stmt_sem st tb res tb'"
proof (cases st)
  case (SGetm ks)
  with assms show ?thesis using ref_getm_sem [OF assms(1)] by auto
qed (use assms in \<open>auto split: if_splits\<close>)

lemma ref_stmt_wf: "\<lbrakk>wf_table tb; ref_stmt st tb = (res, tb')\<rbrakk> \<Longrightarrow> wf_table tb'"
  by (cases st) (auto split: if_splits)

lemma ref_query_Ok:
  "ref_query t p q ps s = (Inr res, s') \<longleftrightarrow> (\<exists>st tb. \<not> r_aborted s \<and> stmt_of t q ps = Some st \<and>
     (is_read st \<or> r_rw s) \<and> runnable st \<and> ref_stmt st (r_table s) = (res, tb) \<and>
     s' = s\<lparr>r_table := tb\<rparr>)"
  by (auto simp: ref_query_def split: option.splits prod.splits)

lemma ref_query_Err:
  "ref_query t p q ps s = (Inl e, s') \<Longrightarrow> s' = s\<lparr>r_aborted := True\<rparr>"
  by (auto simp: ref_query_def split: option.splits prod.splits if_splits)

lemma ref_raw_texts:
  "ref_raw (save_sql n) s = (if r_aborted s then (Inl (sql_error ''25P02''), s)
     else (Inr (), s\<lparr>r_saves := (n, r_table s) # r_saves s\<rparr>))"
  "ref_raw (release_sql n) s = (if r_aborted s then (Inl (sql_error ''25P02''), s)
     else (case from_save n (r_saves s) of
         [] \<Rightarrow> (Inl (sql_error ''3B001''), s\<lparr>r_aborted := True\<rparr>)
       | _ # sv \<Rightarrow> (Inr (), s\<lparr>r_saves := sv\<rparr>)))"
  "ref_raw (rollback_to_sql n) s =
     (case from_save n (r_saves s) of
        [] \<Rightarrow> (Inl (sql_error ''3B001''), s\<lparr>r_aborted := True\<rparr>)
      | (n', tb) # sv \<Rightarrow> (Inr (), s\<lparr>r_table := tb, r_saves := (n', tb) # sv, r_aborted := False\<rparr>))"
  by (simp_all add: ref_raw_def save_sql_def release_sql_def rollback_to_sql_def)

lemma from_save_suffix: "\<exists>p. sv = p @ from_save n sv"
  unfolding from_save_def by (metis takeWhile_dropWhile_id)

lemma from_save_wf: "list_all P sv \<Longrightarrow> list_all P (from_save n sv)"
  using from_save_suffix [of sv n] by (metis list_all_append)

lemma from_save_Nil: "from_save n sv = [] \<longleftrightarrow> n \<notin> fst ` set sv"
  by (force simp: from_save_def dropWhile_eq_Nil_conv)

lemma from_save_hd: "from_save n sv = (m, tb) # r \<Longrightarrow> m = n"
  unfolding from_save_def by (metis (mono_tags, lifting) fst_conv hd_dropWhile list.sel(1) list.discI)

lemma ref_inv_upd:
  "ref_inv s \<Longrightarrow> ref_inv (s\<lparr>r_aborted := b\<rparr>)"
  "\<lbrakk>ref_inv s; wf_table tb\<rbrakk> \<Longrightarrow> ref_inv (s\<lparr>r_table := tb\<rparr>)"
  "\<lbrakk>ref_inv s; list_all (\<lambda>p. wf_table (snd p)) sv\<rbrakk> \<Longrightarrow> ref_inv (s\<lparr>r_saves := sv\<rparr>)"
  by (simp_all add: ref_inv_def)

lemma ref_inv_savesD: "ref_inv s \<Longrightarrow> list_all (\<lambda>p. wf_table (snd p)) (from_save n (r_saves s))"
  by (simp add: ref_inv_def from_save_wf)

lemma ref_query_same:
  assumes "ref_inv s" "ref_query t p q ps s = (r, s')"
  shows "same_tx ref_view s s'"
proof (cases r)
  case (Inl e)
  with assms show ?thesis
    using ref_query_Err [of t p q ps s e s'] by (auto simp: same_tx_def ref_view_def ref_inv_upd)
next
  case (Inr res)
  with assms obtain st tb where "ref_stmt st (r_table s) = (res, tb)" "s' = s\<lparr>r_table := tb\<rparr>"
    by (auto simp: ref_query_Ok)
  with assms(1) show ?thesis
    using ref_stmt_wf [of "r_table s" st res tb]
    by (auto simp: same_tx_def ref_view_def ref_inv_upd) (simp add: ref_inv_def)
qed

lemma ref_raw_same:
  assumes "ref_inv s" "savepoint_text q" "ref_raw q s = (r, s')"
  shows "same_tx ref_view s s'"
proof -
  have wf: "list_all (\<lambda>p. wf_table (snd p)) (from_save n (r_saves s))" for n
    by (rule ref_inv_savesD [OF assms(1)])
  from assms(2) consider n where "q = save_sql n" | n where "q = release_sql n"
    | n where "q = rollback_to_sql n" by (auto simp: savepoint_text_def)
  then show ?thesis
  proof cases
    case (1 n)
    with assms show ?thesis
      by (auto simp: ref_raw_texts same_tx_def ref_view_def ref_inv_def split: if_splits)
  next
    case (2 n)
    with assms wf [of n] show ?thesis
      by (auto simp: ref_raw_texts same_tx_def ref_view_def ref_inv_def
          split: if_splits list.splits)
  next
    case (3 n)
    with assms wf [of n] show ?thesis
      by (auto simp: ref_raw_texts same_tx_def ref_view_def ref_inv_def
          split: if_splits list.splits)
  qed
qed

lemma ref_raw_Err:
  "\<lbrakk>savepoint_text q; ref_raw q s = (Inl e, s')\<rbrakk> \<Longrightarrow> r_table s' = r_table s \<and> r_saves s' = r_saves s"
  unfolding savepoint_text_def
  by (elim exE disjE) (auto simp: ref_raw_texts split: if_splits list.splits prod.splits)

lemma ref_end_texts [simp]:
  "ref_raw ''COMMIT'' s = ref_commit s" "ref_raw ''ROLLBACK'' s = ref_rollback s"
  by (simp_all add: ref_raw_def)

lemmas ref_simps = ref_view_def ref_server_def ref_raw_texts from_save_Nil

interpretation ref: pg_backend "ref_server t" t ref_view for t
proof unfold_locales
  fix s
  show "pv_inv ref_view s \<Longrightarrow> wf_table (pv_table ref_view s)"
    by (simp add: ref_simps ref_inv_def)
next
  fix s s' q p ps st rq
  assume "pv_inv ref_view s" "srv_query (ref_server t) p q ps s = (rq, s')"
  then show "same_tx ref_view s s'"
    using ref_query_same [of s t p q ps rq s'] by (simp add: ref_simps)
next
  fix s s' q p ps st res
  assume "pv_inv ref_view s" "stmt_of t q ps = Some st"
    "srv_query (ref_server t) p q ps s = (Inr res, s')"
  then show "stmt_sem st (pv_table ref_view s) res (pv_table ref_view s') \<and>
      pv_saves ref_view s' = pv_saves ref_view s \<and> \<not> pv_aborted ref_view s \<and>
      \<not> pv_aborted ref_view s'"
    by (auto simp: ref_simps ref_query_Ok ref_inv_def intro: ref_stmt_sem)
next
  fix s s' q p ps st e
  assume "srv_query (ref_server t) p q ps s = (Inl e, s')"
  then show "pv_table ref_view s' = pv_table ref_view s \<and>
      pv_saves ref_view s' = pv_saves ref_view s \<and> pv_aborted ref_view s'"
    using ref_query_Err [of t p q ps s e s'] by (simp add: ref_simps)
next
  fix s q p ps st
  assume "stmt_of t q ps = Some st" "runnable st" "pv_healthy ref_view s"
    "is_read st \<or> pv_rw ref_view s"
  then show "\<exists>res s'. srv_query (ref_server t) p q ps s = (Inr res, s') \<and> pv_healthy ref_view s'"
    by (cases "ref_stmt st (r_table s)") (auto simp: ref_simps ref_query_Ok)
next
  fix s s' :: ref_session and q r
  assume "pv_inv ref_view s" "savepoint_text q" "srv_raw (ref_server t) q s = (r, s')"
  then show "same_tx ref_view s s'"
    using ref_raw_same [of s q r s'] by (simp add: ref_simps)
next
  fix s s' q e
  assume "savepoint_text q" "srv_raw (ref_server t) q s = (Inl e, s')"
  then show "pv_table ref_view s' = pv_table ref_view s \<and> pv_saves ref_view s' = pv_saves ref_view s"
    using ref_raw_Err [of q s e s'] by (simp add: ref_simps)
next
  fix s s' n u
  assume "srv_raw (ref_server t) (save_sql n) s = (Inr u, s')"
  then show "pv_table ref_view s' = pv_table ref_view s \<and>
      pv_saves ref_view s' = (n, pv_table ref_view s) # pv_saves ref_view s"
    by (auto simp: ref_simps split: if_splits)
next
  fix s s' n u
  assume "srv_raw (ref_server t) (release_sql n) s = (Inr u, s')"
  then show "from_save n (pv_saves ref_view s) \<noteq> [] \<and> pv_table ref_view s' = pv_table ref_view s \<and>
      pv_saves ref_view s' = tl (from_save n (pv_saves ref_view s))"
    by (auto simp: ref_view_def ref_server_def ref_raw_texts split: if_splits list.splits)
next
  fix s s' n u
  assume "srv_raw (ref_server t) (rollback_to_sql n) s = (Inr u, s')"
  then show "from_save n (pv_saves ref_view s) \<noteq> [] \<and>
      pv_table ref_view s' = snd (hd (from_save n (pv_saves ref_view s))) \<and>
      pv_saves ref_view s' = from_save n (pv_saves ref_view s) \<and> \<not> pv_aborted ref_view s'"
    by (auto simp: ref_view_def ref_server_def ref_raw_texts split: if_splits list.splits)
next
  fix s n
  assume "pv_healthy ref_view s"
  then show "\<exists>s'. srv_raw (ref_server t) (save_sql n) s = (Inr (), s') \<and> pv_healthy ref_view s'"
    by (simp add: ref_simps)
next
  fix s n
  assume "pv_healthy ref_view s" "n \<in> fst ` set (pv_saves ref_view s)"
  then show "\<exists>s'. srv_raw (ref_server t) (release_sql n) s = (Inr (), s') \<and> pv_healthy ref_view s'"
    using from_save_Nil [of n "r_saves s"]
    by (cases "from_save n (r_saves s)") (auto simp: ref_view_def ref_server_def ref_raw_texts)
next
  fix s n
  assume "n \<in> fst ` set (pv_saves ref_view s)"
  then show "\<exists>s'. srv_raw (ref_server t) (rollback_to_sql n) s = (Inr (), s') \<and> pv_healthy ref_view s'"
    using from_save_Nil [of n "r_saves s"]
    by (cases "from_save n (r_saves s)") (auto simp: ref_view_def ref_server_def ref_raw_texts)
qed (auto simp: ref_view_def ref_server_def ends_commit_def ends_rollback_def ref_commit_def
      ref_rollback_def)

end
