(* ===== verification/Tx_Refine.thy ===== *)
theory Tx_Refine
  imports Pg_Transaction Pg_Reference
begin

section \<open>The transaction refines the key-value table\<close>

text \<open>
  The abstract specification of a transaction is a well-formed table and a function \<open>kv_step\<close> that
  says, for every operation, what it answers and what the table is afterwards.  The theory shows
  that \<^verbatim>\<open>PgTransaction\<close> implements it: on a healthy session the answer and the table are exactly
  those of \<open>kv_step\<close> (single operations and sequences of them), and on any session a
  successful answer still describes the table, with nothing committed.
\<close>

subsection \<open>The specification\<close>

datatype kv_op =
    KExists key
  | KGet key
  | KGetm "key list"
  | KSet key val
  | KSetm "(key \<times> val) list"
  | KPut key val
  | KPutc key val "val option"
  | KDel key
  | KDelc key "val option"
  | KDelr key key
  | KKeys key key u32 u32
  | KKeysr key key u32 u32
  | KScan key key u32 u32
  | KScanr key key u32 u32
  | KGetr key key
  | KCount key key

datatype kv_res =
    RUnit
  | RBool bool
  | RVal "val option"
  | RVals "val option list"
  | RKeys "key list"
  | RPairs "(key \<times> val) list"
  | RNum nat

fun is_write :: "kv_op \<Rightarrow> bool" where
  "is_write (KSet k v) = True"
| "is_write (KSetm ps) = True"
| "is_write (KPut k v) = True"
| "is_write (KPutc k v c) = True"
| "is_write (KDel k) = True"
| "is_write (KDelc k c) = True"
| "is_write (KDelr a b) = True"
| "is_write _ = False"

fun kv_effect :: "kv_op \<Rightarrow> table \<Rightarrow> kv_res result \<times> table" where
  "kv_effect (KExists k) tb = (Ok (RBool (map_of tb k \<noteq> None)), tb)"
| "kv_effect (KGet k) tb = (Ok (RVal (map_of tb k)), tb)"
| "kv_effect (KGetm ks) tb = (Ok (RVals (map (map_of tb) ks)), tb)"
| "kv_effect (KSet k v) tb = (Ok RUnit, tbl_put k v tb)"
| "kv_effect (KSetm ps) tb = (Ok RUnit, tbl_puts ps tb)"
| "kv_effect (KPut k v) tb =
     (if map_of tb k = None then (Ok RUnit, tbl_put k v tb) else (Err (KeyAlreadyExists k), tb))"
| "kv_effect (KPutc k v None) tb =
     (if map_of tb k = None then (Ok RUnit, tbl_put k v tb) else (Err (KeyAlreadyExists k), tb))"
| "kv_effect (KPutc k v (Some c)) tb =
     (if map_of tb k = Some c then (Ok RUnit, tbl_put k v tb) else (Err (ConditionNotMet k), tb))"
| "kv_effect (KDel k) tb = (Ok RUnit, tbl_del k tb)"
| "kv_effect (KDelc k None) tb = (Ok RUnit, tbl_del k tb)"
| "kv_effect (KDelc k (Some c)) tb =
     (if map_of tb k = Some c then (Ok RUnit, tbl_del k tb) else (Err (ConditionNotMet k), tb))"
| "kv_effect (KDelr a b) tb = (Ok RUnit, tbl_delr a b tb)"
| "kv_effect (KKeys a b n m) tb =
     (Ok (RKeys (map fst (page (unat n) (unat m) (tbl_range a b tb)))), tb)"
| "kv_effect (KKeysr a b n m) tb =
     (Ok (RKeys (map fst (page (unat n) (unat m) (rev (tbl_range a b tb))))), tb)"
| "kv_effect (KScan a b n m) tb = (Ok (RPairs (page (unat n) (unat m) (tbl_range a b tb))), tb)"
| "kv_effect (KScanr a b n m) tb =
     (Ok (RPairs (page (unat n) (unat m) (rev (tbl_range a b tb)))), tb)"
| "kv_effect (KGetr a b) tb = (Ok (RPairs (tbl_range a b tb)), tb)"
| "kv_effect (KCount a b) tb = (Ok (RNum (length (tbl_range a b tb))), tb)"

definition kv_step :: "bool \<Rightarrow> kv_op \<Rightarrow> table \<Rightarrow> kv_res result \<times> table" where
  "kv_step w op tb = (if is_write op \<and> \<not> w then (Err TxReadOnly, tb) else kv_effect op tb)"

fun kv_steps :: "bool \<Rightarrow> kv_op list \<Rightarrow> table \<Rightarrow> kv_res result list \<times> table" where
  "kv_steps w [] tb = ([], tb)"
| "kv_steps w (op # ops) tb =
     (let (r, tb1) = kv_step w op tb; (rs, tb2) = kv_steps w ops tb1 in (r # rs, tb2))"

subsection \<open>The implementation, operation by operation\<close>

definition wrap :: "('a \<Rightarrow> kv_res) \<Rightarrow> 'a result \<times> 's \<Rightarrow> kv_res result \<times> 's" where
  "wrap f r = (map_ok f (fst r), snd r)"

fun run_op ::
  "((key \<times> val) list \<Rightarrow> (key \<times> val) list) \<Rightarrow> 's pg_server \<Rightarrow> pg_tx \<Rightarrow> kv_op \<Rightarrow> 's \<Rightarrow> kv_res result \<times> 's"
where
  "run_op h srv tx (KExists k) s = wrap RBool (tx_exists srv tx k s)"
| "run_op h srv tx (KGet k) s = wrap RVal (tx_get srv tx k s)"
| "run_op h srv tx (KGetm ks) s = wrap RVals (tx_getm srv tx ks s)"
| "run_op h srv tx (KSet k v) s = wrap (\<lambda>_. RUnit) (tx_set srv tx k v s)"
| "run_op h srv tx (KSetm ps) s = wrap (\<lambda>_. RUnit) (tx_setm h srv tx ps s)"
| "run_op h srv tx (KPut k v) s = wrap (\<lambda>_. RUnit) (tx_put srv tx k v s)"
| "run_op h srv tx (KPutc k v c) s = wrap (\<lambda>_. RUnit) (tx_putc srv tx k v c s)"
| "run_op h srv tx (KDel k) s = wrap (\<lambda>_. RUnit) (tx_del srv tx k s)"
| "run_op h srv tx (KDelc k c) s = wrap (\<lambda>_. RUnit) (tx_delc srv tx k c s)"
| "run_op h srv tx (KDelr a b) s = wrap (\<lambda>_. RUnit) (tx_delr srv tx a b s)"
| "run_op h srv tx (KKeys a b n m) s = wrap RKeys (tx_keys srv tx a b n m s)"
| "run_op h srv tx (KKeysr a b n m) s = wrap RKeys (tx_keysr srv tx a b n m s)"
| "run_op h srv tx (KScan a b n m) s = wrap RPairs (tx_scan srv tx a b n m s)"
| "run_op h srv tx (KScanr a b n m) s = wrap RPairs (tx_scanr srv tx a b n m s)"
| "run_op h srv tx (KGetr a b) s = wrap RPairs (tx_getr srv tx a b s)"
| "run_op h srv tx (KCount a b) s = wrap RNum (tx_count srv tx a b s)"

fun run_ops ::
  "((key \<times> val) list \<Rightarrow> (key \<times> val) list) \<Rightarrow> 's pg_server \<Rightarrow> pg_tx \<Rightarrow> kv_op list \<Rightarrow> 's \<Rightarrow>
     kv_res result list \<times> 's"
where
  "run_ops h srv tx [] s = ([], s)"
| "run_ops h srv tx (op # ops) s =
     (let (r, s1) = run_op h srv tx op s; (rs, s2) = run_ops h srv tx ops s1 in (r # rs, s2))"

lemma wrap_simp [simp]: "wrap f (r, s) = (map_ok f r, s)"
  by (simp add: wrap_def)

lemma read_only_write:
  "\<lbrakk>\<not> writeable tx; is_write op\<rbrakk> \<Longrightarrow> run_op h srv tx op s =
     (Err (if conn tx = None \<and> (\<exists>ps. op = KSetm ps) then TxClosed else TxReadOnly), s)"
  by (cases op) (auto simp: tx_set_def tx_setm_def tx_put_def tx_putc_def tx_del_def tx_delc_def
      tx_delr_def check_writeable_def)

subsection \<open>What a session promises to the transaction\<close>

text \<open>The session of an open transaction of this table, able to do what the transaction allows.\<close>

definition ready :: "'s pg_view \<Rightarrow> string \<Rightarrow> pg_tx \<Rightarrow> 's \<Rightarrow> bool" where
  "ready pv t tx s \<longleftrightarrow> conn tx \<noteq> None \<and> sql tx = sql_new t \<and> pv_inv pv s \<and> pv_healthy pv s \<and>
     (writeable tx \<longrightarrow> pv_rw pv s)"

definition alive :: "'s pg_view \<Rightarrow> 's \<Rightarrow> 's \<Rightarrow> bool" where
  "alive pv s s' \<longleftrightarrow> same_tx pv s s' \<and> pv_healthy pv s' \<and> pv_saves pv s' = pv_saves pv s"

lemma alive_ready: "ready pv t tx s \<Longrightarrow> alive pv s s' \<Longrightarrow> ready pv t tx s'"
  by (auto simp: ready_def alive_def same_tx_def)

lemma alive_trans: "alive pv a b \<Longrightarrow> alive pv b c \<Longrightarrow> alive pv a c"
  by (auto simp: alive_def same_tx_def)

lemma alive_refl: "ready pv t tx s \<Longrightarrow> alive pv s s"
  by (auto simp: ready_def alive_def same_tx_def)

definition exact :: "'s pg_view \<Rightarrow> 's \<Rightarrow> 'r \<times> 's \<Rightarrow> 'r \<times> table \<Rightarrow> bool" where
  "exact pv s out spec \<longleftrightarrow> fst out = fst spec \<and> pv_table pv (snd out) = snd spec \<and>
     alive pv s (snd out)"

text \<open>
  \<open>sound\<close> holds on any session, refusing or broken ones and closed transactions included: no panic,
  nothing committed, and an \<open>Ok\<close> is the specification's answer about the table before and after.
  \<open>meets\<close> adds that a ready session answers exactly as specified.
\<close>

definition sound :: "'s pg_view \<Rightarrow> 's \<Rightarrow> 'a result \<times> 's \<Rightarrow> 'a result \<times> table \<Rightarrow> bool" where
  "sound pv s out spec \<longleftrightarrow> same_tx pv s (snd out) \<and> fst out \<noteq> Panic \<and>
     (\<forall>x. fst out = Ok x \<longrightarrow> spec = (Ok x, pv_table pv (snd out)))"

definition meets ::
  "'s pg_view \<Rightarrow> string \<Rightarrow> pg_tx \<Rightarrow> 's \<Rightarrow> 'a result \<times> 's \<Rightarrow> 'a result \<times> table \<Rightarrow> bool" where
  "meets pv t tx s out spec \<longleftrightarrow> sound pv s out spec \<and> (ready pv t tx s \<longrightarrow> exact pv s out spec)"

definition based :: "'s pg_view \<Rightarrow> string \<Rightarrow> pg_tx \<Rightarrow> 's \<Rightarrow> bool" where
  "based pv t tx s \<longleftrightarrow> pv_inv pv s \<and> sql tx = sql_new t"

lemma based_same: "based pv t tx s \<Longrightarrow> same_tx pv s s' \<Longrightarrow> based pv t tx s'"
  by (simp add: based_def same_tx_def)

lemma ready_based: "ready pv t tx s \<Longrightarrow> based pv t tx s"
  by (simp add: ready_def based_def)

lemma same_tx_refl: "based pv t tx s \<Longrightarrow> same_tx pv s s"
  by (simp add: based_def same_tx_def)

lemma same_tx_trans: "same_tx pv a b \<Longrightarrow> same_tx pv b c \<Longrightarrow> same_tx pv a c"
  by (simp add: same_tx_def)

lemma exact_wrap: "exact pv s out (r, tb) \<Longrightarrow> exact pv s (wrap f out) (map_ok f r, tb)"
  by (simp add: exact_def wrap_def)

lemma meets_wrap: "meets pv t tx s out (r, tb) \<Longrightarrow> meets pv t tx s (wrap f out) (map_ok f r, tb)"
  using exact_wrap [of pv s out r tb f] by (auto simp: meets_def sound_def wrap_def)

lemma meets_wrap_if:
  "meets pv t tx s out (if c then (Ok (), tb) else (Err e, tb')) \<Longrightarrow>
     meets pv t tx s (wrap (\<lambda>_. RUnit) out) (if c then (Ok RUnit, tb) else (Err e, tb'))"
  using meets_wrap [of pv t tx s out "Ok ()" tb "\<lambda>_. RUnit"]
    meets_wrap [of pv t tx s out "Err e" tb' "\<lambda>_. RUnit"] by (auto split: if_splits)

lemma meets_and_then:
  assumes "meets pv t tx s p (Ok x, tb)" "f x = Ok y"
  shows "meets pv t tx s (let (o', s') = p in (and_then o' f, s')) (Ok y, tb)"
proof -
  obtain o' s' where p: "p = (o', s')" by fastforce
  show ?thesis
  proof (cases o')
    case (Ok z)
    then have eq: "z = x" "tb = pv_table pv s'"
      using assms(1) by (simp_all add: p meets_def sound_def)
    show ?thesis
      using assms unfolding eq(2) by (simp add: p Ok eq(1) meets_def sound_def exact_def)
  next
    case (Err e)
    then show ?thesis
      using assms(1) by (simp add: p meets_def sound_def exact_def)
  next
    case Panic
    then show ?thesis
      using assms(1) by (simp add: p meets_def sound_def)
  qed
qed

lemma getm_read:
  assumes "wf_table tb" "stmt_sem (SGetm ks) tb res tb'"
  shows "(if use_linear (length (rows res)) (length ks)
      then map_ok (getm_linear ks) (rows_to_pairs (rows res))
      else map_ok (\<lambda>rs. map (hash_collect rs) ks) (rows_to_pairs (rows res)), tb') =
    (Ok (map (map_of tb) ks), tb)"
proof -
  from assms(2) obtain rs where rs: "rows res = map row_kv rs" "distinct rs"
    "set rs = {x \<in> set tb. fst x \<in> set ks}" "tb' = tb" by auto
  show ?thesis
    using getm_rows [OF assms(1) rs(2,3)] by (auto simp: rs(1,4) getm_linear_map_of)
qed

context pg_backend
begin

lemma query_then_live:
  assumes "ready pv t tx s" "stmt_of t q ps = Some st" "runnable st" "is_read st \<or> writeable tx"
  obtains res s' where "query_then srv tx q ps key f s = (f res, s')"
    "stmt_sem st (pv_table pv s) res (pv_table pv s')" "alive pv s s'"
proof -
  from assms(1) obtain c where c: "conn tx = Some c" and inv: "pv_inv pv s" "pv_healthy pv s"
    by (auto simp: ready_def)
  from assms have rw: "is_read st \<or> pv_rw pv s" by (auto simp: ready_def)
  obtain res s' where q: "srv_query srv (persistent tx) q ps s = (Inr res, s')" "pv_healthy pv s'"
    using query_live [OF inv(1) assms(2,3) inv(2) rw] by blast
  show thesis
  proof (rule that)
    show "query_then srv tx q ps key f s = (f res, s')"
      by (simp add: query_then_def run_query_def c q)
    show "stmt_sem st (pv_table pv s) res (pv_table pv s')"
      using query_ok [OF inv(1) assms(2) q(1)] by simp
    show "alive pv s s'"
      using query_ok [OF inv(1) assms(2) q(1)] query_frame [OF inv(1) assms(2) q(1)] q(2)
      by (simp add: alive_def)
  qed
qed

lemma query_meets:
  assumes "based pv t tx s" "stmt_of t q ps = Some st" "runnable st" "is_read st \<or> writeable tx"
    "\<And>res tb'. stmt_sem st (pv_table pv s) res tb' \<Longrightarrow> (f res, tb') = spec" "fst spec \<noteq> Panic"
  shows "meets pv t tx s (query_then srv tx q ps key f s) spec"
proof -
  have inv: "pv_inv pv s" using assms(1) by (simp add: based_def)
  obtain r s' where q: "srv_query srv (persistent tx) q ps s = (r, s')" by fastforce
  have "sound pv s (query_then srv tx q ps key f s) spec"
  proof (cases "conn tx")
    case None
    then show ?thesis
      using same_tx_refl [OF assms(1)] by (simp add: sound_def query_then_def run_query_def)
  next
    case (Some c)
    have same: "same_tx pv s s'" by (rule query_frame [OF inv assms(2) q])
    show ?thesis
    proof (cases r)
      case (Inr res)
      then have "stmt_sem st (pv_table pv s) res (pv_table pv s')"
        using query_ok [OF inv assms(2)] q by simp
      with assms(5) have "(f res, pv_table pv s') = spec" .
      then show ?thesis
        using same assms(6) by (auto simp: sound_def query_then_def run_query_def Some q Inr)
    qed (use same in \<open>simp add: sound_def query_then_def run_query_def Some q\<close>)
  qed
  moreover have "exact pv s (query_then srv tx q ps key f s) spec" if r: "ready pv t tx s"
  proof -
    obtain res s' where "query_then srv tx q ps key f s = (f res, s')"
      "stmt_sem st (pv_table pv s) res (pv_table pv s')" "alive pv s s'"
      by (rule query_then_live [OF r assms(2-4)])
    with assms(5) show ?thesis by (metis exact_def fst_conv snd_conv)
  qed
  ultimately show ?thesis by (simp add: meets_def)
qed

lemma based_sql: "based pv t tx s \<Longrightarrow> sql tx = sql_new t"
  by (simp add: based_def)

lemma based_wf: "based pv t tx s \<Longrightarrow> wf_table (pv_table pv s)"
  by (simp add: based_def inv_wf)

lemma stay_meets: "based pv t tx s \<Longrightarrow> r \<noteq> Panic \<Longrightarrow> meets pv t tx s (r, s) (r, pv_table pv s)"
  by (auto simp: meets_def exact_def sound_def same_tx_refl alive_refl)

lemma closed_meets: "based pv t tx s \<Longrightarrow> conn tx = None \<Longrightarrow> meets pv t tx s (Err TxClosed, s) spec"
  by (auto simp: meets_def sound_def same_tx_refl ready_def)

lemma meets_trans:
  assumes "meets pv t tx s (Ok (), s1) (Ok (), tb1)" "meets pv t tx s1 out spec"
  shows "meets pv t tx s out spec"
proof -
  have "alive pv s s1" "ready pv t tx s1" if "ready pv t tx s"
    using assms(1) that alive_ready [OF that, of s1] by (auto simp: meets_def exact_def)
  then show ?thesis
    using assms alive_trans [of pv s s1] same_tx_trans [of pv s s1]
    by (auto simp: meets_def sound_def exact_def)
qed

lemma exists_meets:
  assumes "based pv t tx s"
  shows "meets pv t tx s (tx_exists srv tx k s) (Ok (map_of (pv_table pv s) k \<noteq> None), pv_table pv s)"
  unfolding tx_exists_def based_sql [OF assms]
  by (rule query_meets [OF assms stmt_of_sql(1)]) (auto split: if_splits)

lemma get_meets:
  assumes "based pv t tx s"
  shows "meets pv t tx s (tx_get srv tx k s) (Ok (map_of (pv_table pv s) k), pv_table pv s)"
  unfolding tx_get_def based_sql [OF assms]
  by (rule query_meets [OF assms stmt_of_sql(2)]) (auto split: option.splits)

lemma getm_meets:
  assumes "based pv t tx s"
  shows "meets pv t tx s (tx_getm srv tx ks s) (Ok (map (map_of (pv_table pv s)) ks), pv_table pv s)"
proof (cases "ks = []")
  case True
  then show ?thesis  by (simp add: stay_meets [OF assms] tx_getm_def)
next
  case False
  show ?thesis
    unfolding tx_getm_def based_sql [OF assms] if_not_P [OF False]
    by (rule query_meets [OF assms stmt_of_sql(3)]) (simp_all add: getm_read [OF based_wf [OF assms]] del: stmt_sem.simps)
qed

lemma set_meets:
  assumes "based pv t tx s" "writeable tx"
  shows "meets pv t tx s (tx_set srv tx k v s) (Ok (), tbl_put k v (pv_table pv s))"
  unfolding tx_set_def check_writeable_def based_sql [OF assms(1)] if_P [OF assms(2)] outcome.case
  by (rule query_meets [OF assms(1) stmt_of_sql(4)]) (auto simp: assms)

lemma put_meets:
  assumes "based pv t tx s" "writeable tx"
  shows "meets pv t tx s (tx_put srv tx k v s)
    (if map_of (pv_table pv s) k = None then (Ok (), tbl_put k v (pv_table pv s))
     else (Err (KeyAlreadyExists k), pv_table pv s))"
  unfolding tx_put_def check_writeable_def based_sql [OF assms(1)] if_P [OF assms(2)] outcome.case
  by (rule query_meets [OF assms(1) stmt_of_sql(6)]) (auto simp: assms split: if_splits)

lemma putc_meets:
  assumes "based pv t tx s" "writeable tx"
  shows "meets pv t tx s (tx_putc srv tx k v (Some c) s)
    (if map_of (pv_table pv s) k = Some c then (Ok (), tbl_put k v (pv_table pv s))
     else (Err (ConditionNotMet k), pv_table pv s))"
  unfolding tx_putc_def check_writeable_def based_sql [OF assms(1)] if_P [OF assms(2)] outcome.case
    option.case
  by (rule query_meets [OF assms(1) stmt_of_sql(7)]) (auto simp: assms split: if_splits)

lemma putc_None: "writeable tx \<Longrightarrow> tx_putc srv tx k v None s = tx_put srv tx k v s"
  by (simp add: tx_putc_def check_writeable_def)

lemma del_meets:
  assumes "based pv t tx s" "writeable tx"
  shows "meets pv t tx s (tx_del srv tx k s) (Ok (), tbl_del k (pv_table pv s))"
  unfolding tx_del_def check_writeable_def based_sql [OF assms(1)] if_P [OF assms(2)] outcome.case
  by (rule query_meets [OF assms(1) stmt_of_sql(8)]) (auto simp: assms)

lemma delc_meets:
  assumes "based pv t tx s" "writeable tx"
  shows "meets pv t tx s (tx_delc srv tx k (Some c) s)
    (if map_of (pv_table pv s) k = Some c then (Ok (), tbl_del k (pv_table pv s))
     else (Err (ConditionNotMet k), pv_table pv s))"
  unfolding tx_delc_def check_writeable_def based_sql [OF assms(1)] if_P [OF assms(2)] outcome.case
    option.case
  by (rule query_meets [OF assms(1) stmt_of_sql(9)]) (auto simp: assms split: if_splits)

lemma delc_None: "writeable tx \<Longrightarrow> tx_delc srv tx k None s = tx_del srv tx k s"
  by (simp add: tx_delc_def check_writeable_def)

lemma delr_meets:
  assumes "based pv t tx s" "writeable tx"
  shows "meets pv t tx s (tx_delr srv tx a b s) (Ok (), tbl_delr a b (pv_table pv s))"
proof (cases "a \<ge> b")
  case True
  then show ?thesis
    using assms stay_meets [OF assms(1), of "Ok ()"]
    by (simp add: tx_delr_def check_writeable_def tbl_delr_empty)
next
  case False
  show ?thesis
    unfolding tx_delr_def check_writeable_def based_sql [OF assms(1)] if_P [OF assms(2)]
      outcome.case if_not_P [OF False]
    by (rule query_meets [OF assms(1) stmt_of_sql(10)]) (auto simp: assms)
qed

text \<open>A batch without duplicates is written whole, in one statement or in chunks.\<close>

lemma setm_batch_meets:
  assumes "based pv t tx s" "writeable tx" "distinct (map fst ps)"
  shows "meets pv t tx s (setm_batch srv tx ps s) (Ok (), tbl_puts ps (pv_table pv s))"
  unfolding setm_batch_def based_sql [OF assms(1)]
  by (rule query_meets [OF assms(1) stmt_of_sql(5)]) (auto simp: assms zip_map_fst_snd)

lemma take_drop_split: "start \<le> e \<Longrightarrow> drop start ps = take (e - start) (drop start ps) @ drop e ps"
  by (metis append_take_drop_id drop_drop le_add_diff_inverse2)

lemma meets_fail:
  assumes "meets pv t tx s (r, s1) (Ok (), tb)" "r \<noteq> Ok ()"
  shows "meets pv t tx s (r, s1) spec"
proof -
  from assms(2) have "\<And>x. r \<noteq> Ok x" by auto
  with assms(1) show ?thesis by (simp add: meets_def sound_def exact_def)
qed

lemma setm_chunks_meets:
  assumes "based pv t tx s" "writeable tx" "distinct (map fst ps)"
  shows "meets pv t tx s (setm_chunks srv tx ps start s)
    (Ok (), tbl_puts (drop start ps) (pv_table pv s))"
  using assms(1)
proof (induction "length ps - start" arbitrary: start s rule: less_induct)
  case less
  show ?case
  proof (cases "start < length ps")
    case True
    define e where "e = min (start + SETM_MAX_PAIRS) (length ps)"
    define c where "c = take (e - start) (drop start ps)"
    have e: "start < e" "e \<le> length ps" using True by (auto simp: e_def SETM_MAX_PAIRS_def)
    have dc: "distinct (map fst c)"
      unfolding c_def using assms(3) by (simp add: take_map [symmetric] drop_map [symmetric])
    have split: "drop start ps = c @ drop e ps"
      using take_drop_split [of start e ps] e by (simp add: c_def)
    obtain r s' where b: "setm_batch srv tx c s = (r, s')" by fastforce
    have m: "meets pv t tx s (r, s') (Ok (), tbl_puts c (pv_table pv s))"
      using setm_batch_meets [OF less.prems assms(2) dc] b by simp
    have step: "setm_chunks srv tx ps start s =
        (case (r, s') of (Ok _, s') \<Rightarrow> setm_chunks srv tx ps e s' | (r, s') \<Rightarrow> (r, s'))"
      using True b
      by (subst setm_chunks.simps) (simp only: e_def [symmetric] c_def [symmetric] Let_def if_True)
    show ?thesis
    proof (cases "r = Ok ()")
      case True
      then have tb: "pv_table pv s' = tbl_puts c (pv_table pv s)" and "same_tx pv s s'"
        using m by (auto simp: meets_def sound_def)
      then have "meets pv t tx s' (setm_chunks srv tx ps e s')
          (Ok (), tbl_puts (drop e ps) (tbl_puts c (pv_table pv s)))"
        using less.hyps [of e s'] based_same [OF less.prems, of s'] e by simp
      then show ?thesis
        using meets_trans [OF m [unfolded True]] step True by (simp add: split tbl_puts_append)
    next
      case False
      then have "setm_chunks srv tx ps start s = (r, s')" using step by (cases r) auto
      then show ?thesis using meets_fail [OF m False] by simp
    qed
  next
    case False
    then show ?thesis
      using stay_meets [OF less.prems, of "Ok ()"]
      by (subst setm_chunks.simps) (simp add: tbl_puts_def)
  qed
qed

lemma setm_meets:
  assumes "based pv t tx s" "writeable tx" "\<And>xs. mset (h xs) = mset xs"
  shows "meets pv t tx s (tx_setm h srv tx ps s) (Ok (), tbl_puts ps (pv_table pv s))"
proof -
  let ?d = "dedup_pairs h ps"
  have d: "distinct (map fst ?d)" by (rule dedup_distinct [OF assms(3)])
  have eq: "tbl_puts ?d (pv_table pv s) = tbl_puts ps (pv_table pv s)"
    by (rule tbl_puts_dedup [OF assms(3) based_wf [OF assms(1)]])
  consider "conn tx = None" | "conn tx \<noteq> None" "ps = []" | "conn tx \<noteq> None" "ps \<noteq> []" by blast
  then show ?thesis
  proof cases
    case 2
    then show ?thesis
      using stay_meets [OF assms(1), of "Ok ()"] assms(2)
      by (auto simp: tx_setm_def check_writeable_def tbl_puts_def)
  next
    case 3
    then show ?thesis
      using setm_batch_meets [OF assms(1,2) d] setm_chunks_meets [OF assms(1,2) d, of 0] assms(2)
      by (auto simp: tx_setm_def check_writeable_def Let_def eq)
  qed (simp add: tx_setm_def closed_meets [OF assms(1)])
qed

lemma range_offset_meets:
  assumes "based pv t tx s" "\<And>ps. stmt_of t q ps = range_stmt vals desc ps"
  shows "meets pv t tx s (range_query_offset srv tx q a b n m s)
    (Ok (map (if vals then row_kv else row_key \<circ> fst)
       (page (unat n) (unat m) ((if desc then rev else id) (tbl_range a b (pv_table pv s))))),
     pv_table pv s)"
proof (cases "a \<ge> b")
  case True
  then show ?thesis
     by (simp add: stay_meets [OF assms(1)] range_query_offset_def tbl_range_empty page_def)
next
  case False
  have q: "stmt_of t q [PBytes a, PBytes b, PInt (uint n), PInt (uint m)] =
      Some (SRange vals desc a b (unat n) (unat m))"
    by (simp add: assms(2))
  show ?thesis
    unfolding range_query_offset_def if_not_P [OF False]
    by (rule query_meets [OF assms(1) q]) auto
qed

lemma scan_keys_meets:
  assumes "based pv t tx s" "\<And>ps. stmt_of t q ps = range_stmt False desc ps"
  shows "meets pv t tx s (scan_keys srv tx q a b n m s)
    (Ok (map fst (page (unat n) (unat m) ((if desc then rev else id) (tbl_range a b (pv_table pv s))))),
     pv_table pv s)"
proof (cases "conn tx = None")
  case True
  then show ?thesis by (simp add: closed_meets [OF assms(1)] scan_keys_def)
next
  case False
  show ?thesis
    unfolding scan_keys_def if_not_P [OF False]
    by (rule meets_and_then [OF range_offset_meets [OF assms]]) simp
qed

lemma scan_pairs_meets:
  assumes "based pv t tx s" "\<And>ps. stmt_of t q ps = range_stmt True desc ps"
  shows "meets pv t tx s (scan_pairs srv tx q a b n m s)
    (Ok (page (unat n) (unat m) ((if desc then rev else id) (tbl_range a b (pv_table pv s)))),
     pv_table pv s)"
proof (cases "conn tx = None")
  case True
  then show ?thesis by (simp add: closed_meets [OF assms(1)] scan_pairs_def)
next
  case False
  show ?thesis
    unfolding scan_pairs_def if_not_P [OF False]
    by (rule meets_and_then [OF range_offset_meets [OF assms]]) simp
qed

lemma getr_meets:
  assumes "based pv t tx s"
  shows "meets pv t tx s (tx_getr srv tx a b s) (Ok (tbl_range a b (pv_table pv s)), pv_table pv s)"
proof (cases "a \<ge> b")
  case True
  then show ?thesis  by (simp add: stay_meets [OF assms] tx_getr_def tbl_range_empty)
next
  case False
  show ?thesis
    unfolding tx_getr_def if_not_P [OF False] based_sql [OF assms]
    by (rule query_meets [OF assms stmt_of_sql(16)]) auto
qed

lemma count_meets:
  assumes "based pv t tx s"
  shows "meets pv t tx s (tx_count srv tx a b s)
    (Ok (length (tbl_range a b (pv_table pv s))), pv_table pv s)"
proof (cases "a \<ge> b")
  case True
  then show ?thesis  by (simp add: stay_meets [OF assms] tx_count_def tbl_range_empty)
next
  case False
  show ?thesis
    unfolding tx_count_def if_not_P [OF False] based_sql [OF assms]
    by (rule query_meets [OF assms stmt_of_sql(11)]) auto
qed

lemmas read_meets = exists_meets get_meets getm_meets getr_meets count_meets

lemmas write_meets = set_meets del_meets delr_meets

lemma scan_meets:
  assumes "based pv t tx s"
  shows "meets pv t tx s (tx_keys srv tx a b n m s)
      (Ok (map fst (page (unat n) (unat m) (tbl_range a b (pv_table pv s)))), pv_table pv s)"
    and "meets pv t tx s (tx_keysr srv tx a b n m s)
      (Ok (map fst (page (unat n) (unat m) (rev (tbl_range a b (pv_table pv s))))), pv_table pv s)"
    and "meets pv t tx s (tx_scan srv tx a b n m s)
      (Ok (page (unat n) (unat m) (tbl_range a b (pv_table pv s))), pv_table pv s)"
    and "meets pv t tx s (tx_scanr srv tx a b n m s)
      (Ok (page (unat n) (unat m) (rev (tbl_range a b (pv_table pv s)))), pv_table pv s)"
  unfolding tx_keys_def tx_keysr_def tx_scan_def tx_scanr_def based_sql [OF assms]
  using scan_keys_meets [OF assms stmt_of_sql(12)] scan_keys_meets [OF assms stmt_of_sql(13)]
    scan_pairs_meets [OF assms stmt_of_sql(14)] scan_pairs_meets [OF assms stmt_of_sql(15)]
  by simp_all

lemma run_op_meets:
  assumes "based pv t tx s" "\<And>xs. mset (h xs) = mset xs"
  shows "meets pv t tx s (run_op h srv tx op s) (kv_step (writeable tx) op (pv_table pv s))"
proof (cases "is_write op \<and> \<not> writeable tx")
  case True
  then show ?thesis
    by (auto simp: read_only_write kv_step_def stay_meets [OF assms(1)] closed_meets [OF assms(1)])
next
  case False
  then have w: "kv_step (writeable tx) op (pv_table pv s) = kv_effect op (pv_table pv s)"
    and W: "is_write op \<Longrightarrow> writeable tx" by (auto simp: kv_step_def)
  show ?thesis
  proof (cases op)
    case (KSetm ps)
    with W show ?thesis
      unfolding w using meets_wrap [OF setm_meets [OF assms(1) _ assms(2)]] by simp
  next
    case (KPut k v)
    with W show ?thesis unfolding w using meets_wrap_if [OF put_meets [OF assms(1)]] by simp
  next
    case (KPutc k v c)
    with W show ?thesis
      unfolding w using meets_wrap_if [OF put_meets [OF assms(1)]] meets_wrap_if [OF putc_meets [OF assms(1)]]
      by (cases c) (simp_all add: putc_None)
  next
    case (KDelc k c)
    with W show ?thesis
      unfolding w using meets_wrap [OF del_meets [OF assms(1)]] meets_wrap_if [OF delc_meets [OF assms(1)]]
      by (cases c) (simp_all add: delc_None)
  qed (use W w write_meets [OF assms(1), THEN meets_wrap] read_meets [OF assms(1), THEN meets_wrap]
        scan_meets [OF assms(1), THEN meets_wrap] in simp_all)
qed

lemma run_ops_exact:
  assumes "ready pv t tx s" "\<And>xs. mset (h xs) = mset xs"
  shows "exact pv s (run_ops h srv tx ops s) (kv_steps (writeable tx) ops (pv_table pv s))"
  using assms(1)
proof (induction ops arbitrary: s)
  case Nil
  then show ?case by (simp add: exact_def alive_refl)
next
  case (Cons op ops)
  obtain r s1 where 1: "run_op h srv tx op s = (r, s1)" by fastforce
  have e1: "exact pv s (r, s1) (kv_step (writeable tx) op (pv_table pv s))"
    using run_op_meets [OF ready_based [OF Cons.prems] assms(2)] Cons.prems
    by (simp add: 1 [symmetric] meets_def)
  then have "alive pv s s1" by (simp add: exact_def)
  then have "exact pv s1 (run_ops h srv tx ops s1) (kv_steps (writeable tx) ops (pv_table pv s1))"
    using Cons.IH alive_ready [OF Cons.prems] by blast
  with e1 1 show ?case
    by (auto simp: exact_def split: prod.splits intro: alive_trans)
qed

lemma run_ops_sound:
  assumes "based pv t tx s" "\<And>xs. mset (h xs) = mset xs"
  shows "same_tx pv s (snd (run_ops h srv tx ops s)) \<and> Panic \<notin> set (fst (run_ops h srv tx ops s))"
  using assms(1)
proof (induction ops arbitrary: s)
  case Nil
  then show ?case by (simp add: same_tx_refl)
next
  case (Cons op ops)
  obtain r s1 where 1: "run_op h srv tx op s = (r, s1)" by fastforce
  then have s1: "same_tx pv s s1" "r \<noteq> Panic"
    using run_op_meets [OF Cons.prems assms(2), of op] by (simp_all add: meets_def sound_def)
  with 1 Cons.IH [OF based_same [OF Cons.prems s1(1)]] show ?case
    by (auto split: prod.splits dest: same_tx_trans)
qed

end

end
