(* ===== verification/Tx_Control.thy ===== *)
theory Tx_Control
  imports Tx_Refine
begin

section \<open>Savepoints, commit and rollback refine a stack of tables\<close>

text \<open>
  The whole life of a transaction against its specification: a stack machine over tables, where a
  savepoint pushes the table, a release drops the top, a rollback restores it, and the commit
  makes the table durable.  The struct's stack of names and the server's stack of savepoints agree
  throughout, also when the 32-bit counter behind the names wraps around and repeats one.
\<close>

subsection \<open>The specification\<close>

datatype ctl = CSave | CRelease | CRollback | COp kv_op

type_synonym stack = "table \<times> table list"

fun stack_step :: "bool \<Rightarrow> ctl \<Rightarrow> stack \<Rightarrow> kv_res result \<times> stack" where
  "stack_step w CSave (tb, sv) = (Ok RUnit, (tb, tb # sv))"
| "stack_step w CRelease (tb, sv) = (Ok RUnit, (tb, tl sv))"
| "stack_step w CRollback (tb, []) = (Ok RUnit, (tb, []))"
| "stack_step w CRollback (tb, t0 # sv) = (Ok RUnit, (t0, sv))"
| "stack_step w (COp op) (tb, sv) = (let (r, tb') = kv_step w op tb in (r, (tb', sv)))"

fun stack_steps :: "bool \<Rightarrow> ctl list \<Rightarrow> stack \<Rightarrow> kv_res result list \<times> stack" where
  "stack_steps w [] st = ([], st)"
| "stack_steps w (c # cs) st =
     (let (r, st1) = stack_step w c st; (rs, st2) = stack_steps w cs st1 in (r # rs, st2))"

subsection \<open>The implementation\<close>

definition wrap3 :: "unit result \<times> pg_tx \<times> 's \<Rightarrow> kv_res result \<times> pg_tx \<times> 's" where
  "wrap3 r = (map_ok (\<lambda>_. RUnit) (fst r), snd r)"

fun run_ctl ::
  "((key \<times> val) list \<Rightarrow> (key \<times> val) list) \<Rightarrow> 's pg_server \<Rightarrow> ctl \<Rightarrow> pg_tx \<times> 's \<Rightarrow>
     kv_res result \<times> pg_tx \<times> 's" where
  "run_ctl h srv CSave (tx, s) = wrap3 (new_save_point srv tx s)"
| "run_ctl h srv CRelease (tx, s) = wrap3 (release_last_save_point srv tx s)"
| "run_ctl h srv CRollback (tx, s) = wrap3 (rollback_to_save_point srv tx s)"
| "run_ctl h srv (COp op) (tx, s) = (let (r, s') = run_op h srv tx op s in (r, tx, s'))"

fun run_ctls ::
  "((key \<times> val) list \<Rightarrow> (key \<times> val) list) \<Rightarrow> 's pg_server \<Rightarrow> ctl list \<Rightarrow> pg_tx \<times> 's \<Rightarrow>
     kv_res result list \<times> pg_tx \<times> 's" where
  "run_ctls h srv [] st = ([], st)"
| "run_ctls h srv (c # cs) st =
     (let (r, st1) = run_ctl h srv c st; (rs, st2) = run_ctls h srv cs st1 in (r # rs, st2))"

subsection \<open>The two stacks\<close>

definition agree :: "'s pg_view \<Rightarrow> pg_tx \<Rightarrow> 's \<Rightarrow> bool" where
  "agree pv tx s \<longleftrightarrow> savepoints tx = rev (map fst (pv_saves pv s))"

definition stack_of :: "'s pg_view \<Rightarrow> 's \<Rightarrow> stack" where
  "stack_of pv s = (pv_table pv s, map snd (pv_saves pv s))"

text \<open>What one step leaves of a transaction that stays open.\<close>

definition carries :: "'s pg_view \<Rightarrow> string \<Rightarrow> pg_tx \<times> 's \<Rightarrow> pg_tx \<times> 's \<Rightarrow> bool" where
  "carries pv t a b \<longleftrightarrow> ready pv t (fst b) (snd b) \<and> agree pv (fst b) (snd b) \<and>
     pv_durable pv (snd b) = pv_durable pv (snd a) \<and> writeable (fst b) = writeable (fst a) \<and>
     conn (fst b) = conn (fst a)"

lemma agree_pop:
  assumes "agree pv tx s"
  shows "case pv_saves pv s of
      [] \<Rightarrow> pop_savepoint_name tx = (None, tx)
    | (n, tb) # sv \<Rightarrow> pop_savepoint_name tx =
        (Some n, tx\<lparr>savepoints := rev (map fst sv)\<rparr>)"
  using assms by (auto simp: agree_def pop_savepoint_name_def split: list.split)

lemma from_save_hd_eq [simp]: "from_save n ((n, tb) # sv) = (n, tb) # sv"
  by (simp add: from_save_def)

lemma execute_simple_fields [simp]:
  "execute_simple srv (tx\<lparr>savepoints := ns\<rparr>) q key s = execute_simple srv tx q key s"
  "execute_simple srv (tx\<lparr>savepoint_counter := c\<rparr>) q key s = execute_simple srv tx q key s"
  by (simp_all add: execute_simple_def)

lemma savepoint_texts [simp]:
  "savepoint_text (save_sql n)" "savepoint_text (release_sql n)" "savepoint_text (rollback_to_sql n)"
  by (auto simp: savepoint_text_def)

lemma ready_fields [simp]:
  "ready pv t (tx\<lparr>savepoints := ns\<rparr>) s \<longleftrightarrow> ready pv t tx s"
  "ready pv t (tx\<lparr>savepoint_counter := c\<rparr>) s \<longleftrightarrow> ready pv t tx s"
  by (simp_all add: ready_def)

context pg_backend
begin

lemma raw_ready:
  "\<lbrakk>ready pv t tx s; savepoint_text q; srv_raw srv q s = (Inr (), s'); pv_healthy pv s'\<rbrakk> \<Longrightarrow>
     ready pv t tx s' \<and> pv_durable pv s' = pv_durable pv s"
  using raw_frame [of s q "Inr ()" s'] by (auto simp: ready_def same_tx_def)

lemma execute_live:
  assumes "ready pv t tx s" "\<exists>s'. srv_raw srv q s = (Inr (), s') \<and> pv_healthy pv s'" "savepoint_text q"
  obtains s' where "execute_simple srv tx q None s = (Ok (), s')" "srv_raw srv q s = (Inr (), s')"
    "ready pv t tx s'" "pv_durable pv s' = pv_durable pv s"
proof -
  obtain s' where s': "srv_raw srv q s = (Inr (), s')" "pv_healthy pv s'" using assms(2) by blast
  moreover obtain c where "conn tx = Some c" using assms(1) by (auto simp: ready_def)
  ultimately show thesis
    using that raw_ready [OF assms(1,3) s'] by (simp add: execute_simple_def)
qed

lemma new_save_point_live:
  assumes "ready pv t tx s" "agree pv tx s"
  obtains tx' s' where "new_save_point srv tx s = (Ok (), tx', s')" "carries pv t (tx, s) (tx', s')"
    "stack_of pv s' = (pv_table pv s, pv_table pv s # map snd (pv_saves pv s))"
proof -
  obtain name tx1 where p: "push_savepoint_name tx = (name, tx1)" by fastforce
  then have tx1: "tx1 = tx\<lparr>savepoint_counter := savepoint_counter tx + 1, savepoints := savepoints tx @ [name]\<rparr>"
    by (auto simp: push_savepoint_name_def Let_def)
  have inv: "pv_inv pv s" "pv_healthy pv s" using assms(1) by (simp_all add: ready_def)
  obtain s' where s': "execute_simple srv tx (save_sql name) None s = (Ok (), s')"
    "srv_raw srv (save_sql name) s = (Inr (), s')" "ready pv t tx s'" "pv_durable pv s' = pv_durable pv s"
    by (rule execute_live [OF assms(1) save_live [OF inv]]) simp
  show thesis
  proof (rule that)
    show "new_save_point srv tx s = (Ok (), tx1, s')"
      by (simp add: new_save_point_def p s'(1) tx1)
    show "carries pv t (tx, s) (tx1, s')"
      using save_ok [OF inv(1) s'(2)] s'(3,4) assms(2) by (simp add: carries_def tx1 agree_def)
    show "stack_of pv s' = (pv_table pv s, pv_table pv s # map snd (pv_saves pv s))"
      using save_ok [OF inv(1) s'(2)] by (simp add: stack_of_def)
  qed
qed

lemma release_live_cons:
  assumes "ready pv t tx s" "pv_saves pv s = (n, tb) # sv"
  obtains s' where "execute_simple srv tx (release_sql n) None s = (Ok (), s')"
    "ready pv t tx s'" "pv_durable pv s' = pv_durable pv s" "pv_table pv s' = pv_table pv s"
    "pv_saves pv s' = sv"
proof -
  have inv: "pv_inv pv s" "pv_healthy pv s" using assms(1) by (simp_all add: ready_def)
  have n: "n \<in> fst ` set (pv_saves pv s)" by (simp add: assms(2))
  obtain s' where s': "execute_simple srv tx (release_sql n) None s = (Ok (), s')"
    "srv_raw srv (release_sql n) s = (Inr (), s')" "ready pv t tx s'" "pv_durable pv s' = pv_durable pv s"
    by (rule execute_live [OF assms(1) release_live [OF inv n]]) simp
  then show thesis using that release_ok [OF inv(1) s'(2)] by (simp add: assms(2))
qed

lemma rollback_live_cons:
  assumes "ready pv t tx s" "pv_saves pv s = (n, tb) # sv"
  obtains s' where "execute_simple srv tx (rollback_to_sql n) None s = (Ok (), s')"
    "ready pv t tx s'" "pv_durable pv s' = pv_durable pv s" "pv_table pv s' = tb"
    "pv_saves pv s' = (n, tb) # sv"
proof -
  have inv: "pv_inv pv s" "pv_healthy pv s \<or> pv_aborted pv s" using assms(1) by (simp_all add: ready_def)
  have n: "n \<in> fst ` set (pv_saves pv s)" by (simp add: assms(2))
  obtain s' where s': "execute_simple srv tx (rollback_to_sql n) None s = (Ok (), s')"
    "srv_raw srv (rollback_to_sql n) s = (Inr (), s')" "ready pv t tx s'"
    "pv_durable pv s' = pv_durable pv s"
    by (rule execute_live [OF assms(1) rollback_to_live [OF inv n]]) simp
  then show thesis using that rollback_to_ok [OF inv(1) s'(2)] by (simp add: assms(2))
qed

lemma run_release_exact:
  assumes "ready pv t tx s" "agree pv tx s"
  obtains tx' s' where
    "run_ctl h srv CRelease (tx, s) = (fst (stack_step (writeable tx) CRelease (stack_of pv s)), tx', s')"
    "carries pv t (tx, s) (tx', s')"
    "stack_of pv s' = snd (stack_step (writeable tx) CRelease (stack_of pv s))"
proof (cases "pv_saves pv s")
  case Nil
  then show thesis
    using that [of tx s] agree_pop [OF assms(2)] assms(1,2)
    by (simp add: release_last_save_point_def wrap3_def stack_of_def carries_def)
next
  case (Cons p sv)
  obtain n tb where p: "p = (n, tb)" by fastforce
  obtain s' where s': "execute_simple srv tx (release_sql n) None s = (Ok (), s')"
    "ready pv t tx s'" "pv_durable pv s' = pv_durable pv s" "pv_table pv s' = pv_table pv s"
    "pv_saves pv s' = sv"
    using release_live_cons [OF assms(1), of n tb sv] Cons p by blast
  let ?tx = "tx\<lparr>savepoints := rev (map fst sv)\<rparr>"
  show thesis
  proof (rule that [of ?tx s'])
    show "run_ctl h srv CRelease (tx, s) = (fst (stack_step (writeable tx) CRelease (stack_of pv s)), ?tx, s')"
      using agree_pop [OF assms(2)] s'(1) by (simp add: release_last_save_point_def wrap3_def
          stack_of_def Cons p)
  qed (simp_all add: stack_of_def carries_def agree_def Cons p s')
qed

lemma run_rollback_exact:
  assumes "ready pv t tx s" "agree pv tx s"
  obtains tx' s' where
    "run_ctl h srv CRollback (tx, s) = (fst (stack_step (writeable tx) CRollback (stack_of pv s)), tx', s')"
    "carries pv t (tx, s) (tx', s')"
    "stack_of pv s' = snd (stack_step (writeable tx) CRollback (stack_of pv s))"
proof (cases "pv_saves pv s")
  case Nil
  then show thesis
    using that [of tx s] agree_pop [OF assms(2)] assms(1,2)
    by (simp add: rollback_to_save_point_def wrap3_def stack_of_def carries_def)
next
  case (Cons p sv)
  obtain n tb where p: "p = (n, tb)" by fastforce
  obtain s1 where s1: "execute_simple srv tx (rollback_to_sql n) None s = (Ok (), s1)"
    "ready pv t tx s1" "pv_durable pv s1 = pv_durable pv s" "pv_table pv s1 = tb"
    "pv_saves pv s1 = (n, tb) # sv"
    using rollback_live_cons [OF assms(1), of n tb sv] Cons p by blast
  obtain s' where s': "execute_simple srv tx (release_sql n) None s1 = (Ok (), s')"
    "ready pv t tx s'" "pv_durable pv s' = pv_durable pv s1" "pv_table pv s' = pv_table pv s1"
    "pv_saves pv s' = sv"
    by (rule release_live_cons [OF s1(2,5)])
  let ?tx = "tx\<lparr>savepoints := rev (map fst sv)\<rparr>"
  show thesis
  proof (rule that [of ?tx s'])
    show "run_ctl h srv CRollback (tx, s) = (fst (stack_step (writeable tx) CRollback (stack_of pv s)), ?tx, s')"
      using agree_pop [OF assms(2)] s1(1) s'(1)
      by (simp add: rollback_to_save_point_def wrap3_def stack_of_def Cons p)
  qed (simp_all add: stack_of_def carries_def agree_def Cons p s' s1)
qed

lemma run_ctl_exact:
  assumes "ready pv t tx s" "agree pv tx s" "\<And>xs. mset (h xs) = mset xs"
  obtains tx' s' where
    "run_ctl h srv c (tx, s) = (fst (stack_step (writeable tx) c (stack_of pv s)), tx', s')"
    "carries pv t (tx, s) (tx', s')"
    "stack_of pv s' = snd (stack_step (writeable tx) c (stack_of pv s))"
proof (cases c)
  case CSave
  obtain tx' s' where "new_save_point srv tx s = (Ok (), tx', s')" "carries pv t (tx, s) (tx', s')"
    "stack_of pv s' = (pv_table pv s, pv_table pv s # map snd (pv_saves pv s))"
    by (rule new_save_point_live [OF assms(1,2)])
  then show thesis using that [of tx' s'] by (simp add: CSave wrap3_def stack_of_def)
next
  case CRelease
  then show thesis using run_release_exact [OF assms(1,2), of h thesis] that by blast
next
  case CRollback
  then show thesis using run_rollback_exact [OF assms(1,2), of h thesis] that by blast
next
  case (COp op)
  have "exact pv s (run_op h srv tx op s) (kv_step (writeable tx) op (pv_table pv s))"
    using run_op_meets [OF ready_based [OF assms(1)] assms(3)] assms(1) by (simp add: meets_def)
  then have e: "fst (run_op h srv tx op s) = fst (kv_step (writeable tx) op (pv_table pv s))"
    "pv_table pv (snd (run_op h srv tx op s)) = snd (kv_step (writeable tx) op (pv_table pv s))"
    "alive pv s (snd (run_op h srv tx op s))" by (simp_all add: exact_def)
  show thesis
  proof (rule that [of tx "snd (run_op h srv tx op s)"])
    show "carries pv t (tx, s) (tx, snd (run_op h srv tx op s))"
      using alive_ready [OF assms(1) e(3)] e(3) assms(2)
      by (simp add: carries_def alive_def same_tx_def agree_def)
  qed (use e in \<open>simp_all add: COp stack_of_def alive_def case_prod_beta\<close>)
qed

lemma run_ctls_exact:
  assumes "ready pv t tx s" "agree pv tx s" "\<And>xs. mset (h xs) = mset xs"
  shows "\<exists>tx' s'. run_ctls h srv cs (tx, s) =
      (fst (stack_steps (writeable tx) cs (stack_of pv s)), tx', s') \<and>
    carries pv t (tx, s) (tx', s') \<and>
    stack_of pv s' = snd (stack_steps (writeable tx) cs (stack_of pv s))"
  using assms(1,2)
proof (induction cs arbitrary: tx s)
  case Nil
  then show ?case by (simp add: carries_def)
next
  case (Cons c cs)
  obtain tx1 s1 where 1:
    "run_ctl h srv c (tx, s) = (fst (stack_step (writeable tx) c (stack_of pv s)), tx1, s1)"
    "carries pv t (tx, s) (tx1, s1)"
    "stack_of pv s1 = snd (stack_step (writeable tx) c (stack_of pv s))"
    by (rule run_ctl_exact [OF Cons.prems assms(3)])
  then have c1: "ready pv t tx1 s1" "agree pv tx1 s1" "writeable tx1 = writeable tx"
    by (simp_all add: carries_def)
  obtain tx2 s2 where 2:
    "run_ctls h srv cs (tx1, s1) = (fst (stack_steps (writeable tx) cs (stack_of pv s1)), tx2, s2)"
    "carries pv t (tx1, s1) (tx2, s2)"
    "stack_of pv s2 = snd (stack_steps (writeable tx) cs (stack_of pv s1))"
    using Cons.IH [OF c1(1,2)] c1(3) by auto
  show ?case
    by (rule exI [of _ tx2], rule exI [of _ s2])
      (use 1 2 in \<open>auto simp: carries_def split: prod.splits\<close>)
qed

end

subsection \<open>The end: commit, rollback, drop\<close>

datatype tx_end_call = ECommit | ECancel | EDrop

fun run_end :: "'s pg_server \<Rightarrow> tx_end_call \<Rightarrow> pg_tx \<times> 's \<Rightarrow> unit result \<times> pg_tx \<times> 's" where
  "run_end srv ECommit (tx, s) = tx_commit srv tx s"
| "run_end srv ECancel (tx, s) = tx_cancel srv tx s"
| "run_end srv EDrop (tx, s) = (Ok (), tx_drop tx, s)"

fun run_ends ::
  "'s pg_server \<Rightarrow> tx_end_call list \<Rightarrow> pg_tx \<times> 's \<Rightarrow> unit result list \<times> pg_tx \<times> 's" where
  "run_ends srv [] st = ([], st)"
| "run_ends srv (c # cs) st =
     (let (r, st1) = run_end srv c st; (rs, st2) = run_ends srv cs st1 in (r # rs, st2))"

text \<open>What the calls answer once the transaction is closed.\<close>

fun closed_end :: "tx_end_call \<Rightarrow> unit result" where
  "closed_end EDrop = Ok ()"
| "closed_end _ = Err TxClosed"

lemma run_end_open:
  "conn tx = Some c \<Longrightarrow> \<exists>r s'. run_end srv e (tx, s) =
     (r, tx\<lparr>conn := None, savepoints := (if e = EDrop then savepoints tx else []),
        tx_active := tx_active tx - 1\<rparr>, s')"
  by (cases e) (simp_all add: tx_commit_def tx_cancel_def tx_end_def tx_drop_def release_active_def
      is_open_def case_prod_beta)

lemma run_end_closed: "conn tx = None \<Longrightarrow> run_end srv e (tx, s) = (closed_end e, tx, s)"
  by (cases e) (simp_all add: tx_commit_def tx_cancel_def tx_end_def tx_drop_def is_open_def)

lemma run_ends_closed:
  "conn tx = None \<Longrightarrow> run_ends srv es (tx, s) = (map closed_end es, tx, s)"
  by (induction es) (simp_all add: run_end_closed)

context pg_backend
begin

lemma commit_inner_ends:
  "commit_inner srv c s = (r, s') \<Longrightarrow> \<exists>r0. ends_commit srv s (r0, s') \<and> end_result (r0, s') = (r, s')"
  by (cases c; cases "srv_commit srv s"; cases "srv_raw srv ''COMMIT'' s")
    (auto simp: commit_inner_def ends_commit_def end_result_def split: sum.splits)

lemma cancel_inner_ends:
  "cancel_inner srv c s = (r, s') \<Longrightarrow> \<exists>r0. ends_rollback srv s (r0, s') \<and> end_result (r0, s') = (r, s')"
  by (cases c; cases "srv_rollback srv s"; cases "srv_raw srv ''ROLLBACK'' s")
    (auto simp: cancel_inner_def ends_rollback_def end_result_def split: sum.splits)

lemma end_result_simps [simp]:
  "end_result (r0, s) = (Ok (), s') \<longleftrightarrow> r0 = Inr () \<and> s' = s"
  "end_result (Inr (), s) = (r, s') \<longleftrightarrow> r = Ok () \<and> s' = s"
  by (auto simp: end_result_def split: sum.splits)

lemma commit_inner_durable:
  assumes "pv_inv pv s" "commit_inner srv c s = (Ok (), s')"
  shows "pv_durable pv s' = (if pv_aborted pv s then pv_durable pv s else pv_table pv s)"
proof -
  have "ends_commit srv s (Inr (), s')"
    using commit_inner_ends [OF assms(2)] by auto
  from commit_ok [OF assms(1) this] show ?thesis .
qed

lemma commit_inner_live:
  assumes "pv_inv pv s" "pv_healthy pv s \<or> pv_aborted pv s"
  shows "fst (commit_inner srv c s) = Ok ()" "fst (cancel_inner srv c s) = Ok ()"
proof -
  obtain r s' where c: "commit_inner srv c s = (r, s')" by fastforce
  then obtain r0 where "ends_commit srv s (r0, s')" "end_result (r0, s') = (r, s')"
    using commit_inner_ends by blast
  with end_live [OF assms, of r0 s'] c show "fst (commit_inner srv c s) = Ok ()" by auto
  obtain r s' where c: "cancel_inner srv c s = (r, s')" by fastforce
  then obtain r0 where "ends_rollback srv s (r0, s')" "end_result (r0, s') = (r, s')"
    using cancel_inner_ends by blast
  with end_live [OF assms, of r0 s'] c show "fst (cancel_inner srv c s) = Ok ()" by auto
qed

lemma cancel_inner_durable:
  assumes "pv_inv pv s" "cancel_inner srv c s = (r, s')"
  shows "pv_durable pv s' = pv_durable pv s"
  using cancel_inner_ends [OF assms(2)] rollback_end [OF assms(1)] by blast

lemma tx_commit_durable:
  assumes "pv_inv pv s" "tx_commit srv tx s = (Ok (), tx', s')"
  shows "pv_durable pv s' = (if pv_aborted pv s then pv_durable pv s else pv_table pv s)"
  using assms commit_inner_durable [OF assms(1)]
  by (auto simp: tx_commit_def tx_end_def split: option.splits prod.splits)

lemma tx_commit_live:
  assumes "ready pv t tx s"
  obtains tx' s' where "tx_commit srv tx s = (Ok (), tx', s')" "pv_durable pv s' = pv_table pv s"
    "conn tx' = None"
proof -
  obtain c where c: "conn tx = Some c" and inv: "pv_inv pv s" "pv_healthy pv s"
    using assms by (auto simp: ready_def)
  obtain s' where s': "commit_inner srv c s = (Ok (), s')"
    using commit_inner_live(1) [OF inv(1), of c] inv(2) by (metis prod.collapse)
  then show thesis
    using commit_inner_durable [OF inv(1) s'] healthy_open [OF inv] c
      that [of "release_active (tx\<lparr>conn := None, savepoints := []\<rparr>)" s']
    by (simp add: tx_commit_def tx_end_def c release_active_def)
qed

lemma tx_cancel_live:
  assumes "ready pv t tx s"
  obtains tx' s' where "tx_cancel srv tx s = (Ok (), tx', s')" "pv_durable pv s' = pv_durable pv s"
    "conn tx' = None"
proof -
  obtain c where c: "conn tx = Some c" and inv: "pv_inv pv s" "pv_healthy pv s"
    using assms by (auto simp: ready_def)
  obtain s' where s': "cancel_inner srv c s = (Ok (), s')"
    using commit_inner_live(2) [OF inv(1), of c] inv(2) by (metis prod.collapse)
  then show thesis
    using cancel_inner_durable [OF inv(1) s'] c
      that [of "release_active (tx\<lparr>conn := None, savepoints := []\<rparr>)" s']
    by (simp add: tx_cancel_def tx_end_def c release_active_def)
qed

end

subsection \<open>Preservation by queries\<close>

text \<open>What every statement of this table preserves, every operation preserves.\<close>

definition query_kept :: "'s pg_server \<Rightarrow> string \<Rightarrow> ('s \<Rightarrow> bool) \<Rightarrow> bool" where
  "query_kept srv t Q \<longleftrightarrow> (\<forall>p q ps s. stmt_of t q ps \<noteq> None \<longrightarrow> Q s \<longrightarrow> Q (snd (srv_query srv p q ps s)))"

lemma query_keptD:
  "\<lbrakk>query_kept srv t Q; stmt_of t q ps \<noteq> None; Q s; srv_query srv p q ps s = (r, s')\<rbrakk> \<Longrightarrow> Q s'"
  by (metis query_kept_def snd_conv)

lemma query_then_kept:
  assumes "query_kept srv t Q" "stmt_of t q ps \<noteq> None" "Q s"
  shows "Q (snd (query_then srv tx q ps key f s))"
proof -
  obtain r s' where r: "srv_query srv (persistent tx) q ps s = (r, s')" by fastforce
  show ?thesis
    using query_keptD [OF assms r] assms(3)
    by (simp add: query_then_def run_query_def r case_prod_beta split: option.split sum.split)
qed

lemma setm_chunks_kept:
  "\<lbrakk>query_kept srv t Q; sql tx = sql_new t; Q s\<rbrakk> \<Longrightarrow> Q (snd (setm_chunks srv tx ps start s))"
proof (induction "length ps - start" arbitrary: start s rule: less_induct)
  case less
  show ?case
  proof (cases "start < length ps")
    case True
    define e where "e = min (start + SETM_MAX_PAIRS) (length ps)"
    define c where "c = take (e - start) (drop start ps)"
    obtain r s' where b: "setm_batch srv tx c s = (r, s')" by fastforce
    have Q: "Q s'"
      using query_then_kept [OF less.prems(1), of "q_setm (sql_new t)" _ s] less.prems(2,3) b
      by (metis option.distinct(1) setm_batch_def snd_conv stmt_of_sql(5))
    have step: "setm_chunks srv tx ps start s =
        (case (r, s') of (Ok _, s') \<Rightarrow> setm_chunks srv tx ps e s' | (r, s') \<Rightarrow> (r, s'))"
      using True b
      by (subst setm_chunks.simps) (simp only: e_def [symmetric] c_def [symmetric] Let_def if_True)
    have "start < e" using True by (simp add: e_def SETM_MAX_PAIRS_def)
    then have "length ps - e < length ps - start" using True by simp
    from less.hyps [OF this less.prems(1,2) Q] Q show ?thesis
      by (simp add: step split: outcome.split)
  qed (use less.prems in \<open>subst setm_chunks.simps, simp\<close>)
qed

lemma range_kept:
  assumes "query_kept srv t Q" "\<And>ps. stmt_of t q ps = range_stmt vals desc ps" "Q s"
  shows "Q (snd (scan_keys srv tx q a b n m s))" "Q (snd (scan_pairs srv tx q a b n m s))"
  using query_then_kept [OF assms(1), of q "[PBytes a, PBytes b, PInt (uint n), PInt (uint m)]" s] assms(2,3)
  by (auto simp: scan_keys_def scan_pairs_def range_query_offset_def case_prod_beta)

lemma run_op_kept:
  assumes "query_kept srv t Q" "sql tx = sql_new t" "Q s"
  shows "Q (snd (run_op h srv tx op s))"
proof -
  note q = query_then_kept [OF assms(1) _ assms(3)]
  show ?thesis
    by (cases op)
      (auto simp: wrap_def tx_exists_def tx_get_def tx_getm_def tx_set_def tx_setm_def setm_batch_def
        tx_put_def tx_putc_def tx_del_def tx_delc_def tx_delr_def tx_keys_def tx_keysr_def tx_scan_def
        tx_scanr_def tx_getr_def tx_count_def check_writeable_def assms(2,3) Let_def
        intro!: q setm_chunks_kept [OF assms] range_kept [OF assms(1) _ assms(3)]
        split: option.splits)
qed

lemma run_ops_kept:
  "\<lbrakk>query_kept srv t Q; sql tx = sql_new t; Q s\<rbrakk> \<Longrightarrow> Q (snd (run_ops h srv tx ops s))"
proof (induction ops arbitrary: s)
  case (Cons op ops)
  then show ?case
    using run_op_kept [OF Cons.prems, of h op] by (simp add: case_prod_beta)
qed simp

subsection \<open>When statements fail\<close>

text \<open>
  A session whose errors all come from the server: the connection is up, and the server refuses
  what it refuses.
\<close>

definition server_errors_only :: "'s pg_server \<Rightarrow> bool" where
  "server_errors_only srv \<longleftrightarrow>
     (\<forall>p q ps s e s'. srv_query srv p q ps s = (Inl e, s') \<longrightarrow> is_database e) \<and>
     (\<forall>q s e s'. srv_raw srv q s = (Inl e, s') \<longrightarrow> is_database e)"

lemma server_errors_onlyD:
  "\<lbrakk>server_errors_only srv; srv_query srv p q ps s = (Inl e, s')\<rbrakk> \<Longrightarrow> is_database e"
  "\<lbrakk>server_errors_only srv; srv_raw srv q s = (Inl e, s')\<rbrakk> \<Longrightarrow> is_database e"
  unfolding server_errors_only_def by blast+

context pg_backend
begin

lemma saves_kept:
  assumes "server_errors_only srv"
  shows "query_kept srv t (\<lambda>s. pv_inv pv s \<and> pv_saves pv s = sv)"
  unfolding query_kept_def
proof (intro allI impI, elim conjE)
  fix p q ps s
  assume "stmt_of t q ps \<noteq> None" and inv: "pv_inv pv s" and sv: "pv_saves pv s = sv"
  then obtain st where st: "stmt_of t q ps = Some st" by blast
  obtain r s' where r: "srv_query srv p q ps s = (r, s')" by fastforce
  have "pv_saves pv s' = sv"
  proof (cases r)
    case (Inl e)
    with query_err [OF inv st, of p e s'] server_errors_onlyD(1) [OF assms] r sv show ?thesis by blast
  next
    case (Inr res)
    with query_ok [OF inv st, of p res s'] r sv show ?thesis by simp
  qed
  with query_frame [OF inv st r] show "pv_inv pv (snd (srv_query srv p q ps s)) \<and>
      pv_saves pv (snd (srv_query srv p q ps s)) = sv"
    by (simp add: r same_tx_def)
qed

lemma execute_simple_cases:
  assumes "pv_inv pv s" "savepoint_text q" "server_errors_only srv" "conn tx \<noteq> None"
    "execute_simple srv tx q key s = (r, s')"
  shows "pv_inv pv s' \<and> r \<noteq> Panic \<and> (r = Ok () \<longrightarrow> srv_raw srv q s = (Inr (), s')) \<and>
    (\<forall>e. r = Err e \<longrightarrow> pv_table pv s' = pv_table pv s \<and> pv_saves pv s' = pv_saves pv s)"
proof -
  obtain r0 s0 where 0: "srv_raw srv q s = (r0, s0)" by fastforce
  have same: "same_tx pv s s0" by (rule raw_frame [OF assms(1,2) 0])
  show ?thesis
  proof (cases r0)
    case (Inl e)
    then show ?thesis
      using raw_err [OF assms(1,2)] server_errors_onlyD(2) [OF assms(3)] 0 assms(4,5) same
      by (auto simp: execute_simple_def same_tx_def)
  next
    case (Inr u)
    then show ?thesis
      using 0 assms(4,5) same by (auto simp: execute_simple_def same_tx_def)
  qed
qed

lemma agree_fields [simp]:
  "agree pv (tx\<lparr>savepoints := ns\<rparr>) s \<longleftrightarrow> ns = rev (map fst (pv_saves pv s))"
  "agree pv (tx\<lparr>savepoint_counter := c\<rparr>) s \<longleftrightarrow> agree pv tx s"
  by (simp_all add: agree_def)

lemma release_step:
  assumes "pv_inv pv s" "server_errors_only srv" "conn tx \<noteq> None" "pv_saves pv s = (n, tb) # sv"
    "execute_simple srv tx (release_sql n) None s = (r, s')"
  shows "pv_inv pv s' \<and> (r = Ok () \<and> pv_saves pv s' = sv \<or> (\<exists>e. r = Err e) \<and> pv_saves pv s' = (n, tb) # sv)"
proof -
  note c = execute_simple_cases [OF assms(1) savepoint_texts(2) assms(2,3,5)]
  show ?thesis
    using c release_ok [OF assms(1), of n "()" s'] assms(4) by (cases r) auto
qed

lemma rollback_step:
  assumes "pv_inv pv s" "server_errors_only srv" "conn tx \<noteq> None" "pv_saves pv s = (n, tb) # sv"
    "execute_simple srv tx (rollback_to_sql n) None s = (r, s')"
  shows "pv_inv pv s' \<and> (r = Ok () \<or> (\<exists>e. r = Err e)) \<and> pv_saves pv s' = (n, tb) # sv"
proof -
  note c = execute_simple_cases [OF assms(1) savepoint_texts(3) assms(2,3,5)]
  show ?thesis
    using c rollback_to_ok [OF assms(1), of n "()" s'] assms(4) by (cases r) auto
qed

lemma save_step:
  assumes "pv_inv pv s" "server_errors_only srv" "conn tx \<noteq> None"
    "execute_simple srv tx (save_sql n) None s = (r, s')"
  shows "pv_inv pv s' \<and> (r = Ok () \<and> pv_saves pv s' = (n, pv_table pv s) # pv_saves pv s \<or>
    (\<exists>e. r = Err e) \<and> pv_saves pv s' = pv_saves pv s)"
proof -
  note c = execute_simple_cases [OF assms(1) savepoint_texts(1) assms(2,3,4)]
  show ?thesis
    using c save_ok [OF assms(1), of n "()" s'] by (cases r) auto
qed

definition agreeing :: "pg_tx \<times> 's \<Rightarrow> bool" where
  "agreeing st \<longleftrightarrow> pv_inv pv (snd st) \<and> agree pv (fst st) (snd st) \<and> conn (fst st) \<noteq> None \<and>
     sql (fst st) = sql_new t"

lemma save_agrees:
  assumes "server_errors_only srv" "agreeing (tx, s)"
  shows "agreeing (snd (new_save_point srv tx s))"
proof -
  have b: "pv_inv pv s" "conn tx \<noteq> None" using assms(2) by (simp_all add: agreeing_def)
  obtain name tx1 where p: "push_savepoint_name tx = (name, tx1)" by fastforce
  then have tx1: "tx1 = tx\<lparr>savepoint_counter := savepoint_counter tx + 1, savepoints := savepoints tx @ [name]\<rparr>"
    by (auto simp: push_savepoint_name_def Let_def)
  obtain r s' where e: "execute_simple srv tx (save_sql name) None s = (r, s')" by fastforce
  show ?thesis
    using save_step [OF b(1) assms(1) b(2) e] assms(2)
    by (auto simp: new_save_point_def p tx1 e agreeing_def) (simp_all add: agree_def)
qed

lemma release_agrees:
  assumes "server_errors_only srv" "agreeing (tx, s)"
  shows "agreeing (snd (release_last_save_point srv tx s))"
proof -
  have b: "pv_inv pv s" "conn tx \<noteq> None" "agree pv tx s" using assms(2) by (simp_all add: agreeing_def)
  show ?thesis
  proof (cases "pv_saves pv s")
    case Nil
    then show ?thesis using agree_pop [OF b(3)] assms(2) by (simp add: release_last_save_point_def)
  next
    case (Cons p sv)
    obtain n tb where p: "p = (n, tb)" by fastforce
    obtain r s' where e: "execute_simple srv tx (release_sql n) None s = (r, s')" by fastforce
    show ?thesis
      using release_step [OF b(1) assms(1) b(2) _ e, of tb sv] agree_pop [OF b(3)] assms(2)
      by (auto simp: release_last_save_point_def Cons p e agreeing_def push_back_def)
  qed
qed

lemma rollback_agrees:
  assumes "server_errors_only srv" "agreeing (tx, s)"
  shows "agreeing (snd (rollback_to_save_point srv tx s))"
proof -
  have b: "pv_inv pv s" "conn tx \<noteq> None" "agree pv tx s" using assms(2) by (simp_all add: agreeing_def)
  show ?thesis
  proof (cases "pv_saves pv s")
    case Nil
    then show ?thesis using agree_pop [OF b(3)] assms(2) by (simp add: rollback_to_save_point_def)
  next
    case (Cons p sv)
    obtain n tb where p: "p = (n, tb)" by fastforce
    obtain r s1 where e: "execute_simple srv tx (rollback_to_sql n) None s = (r, s1)" by fastforce
    have 1: "pv_inv pv s1" "r = Ok () \<or> (\<exists>e. r = Err e)" "pv_saves pv s1 = (n, tb) # sv"
      using rollback_step [OF b(1) assms(1) b(2) _ e] Cons p by auto
    obtain r2 s2 where e2: "execute_simple srv tx (release_sql n) None s1 = (r2, s2)" by fastforce
    show ?thesis
      using 1 release_step [OF 1(1) assms(1) b(2) 1(3) e2] agree_pop [OF b(3)] assms(2)
      by (auto simp: rollback_to_save_point_def Cons p e e2 agreeing_def push_back_def)
  qed
qed

lemma run_ctl_agrees:
  assumes "server_errors_only srv" "agreeing st"
  shows "agreeing (snd (run_ctl h srv c st))"
proof -
  obtain tx s where st: "st = (tx, s)" by fastforce
  show ?thesis
  proof (cases c)
    case (COp op)
    have "pv_inv pv (snd (run_op h srv tx op s)) \<and> pv_saves pv (snd (run_op h srv tx op s)) = pv_saves pv s"
      using run_op_kept [OF saves_kept [OF assms(1), of "pv_saves pv s"], of tx s h op] assms(2)
      by (simp add: agreeing_def st)
    then show ?thesis
      using assms(2) by (simp add: COp st case_prod_beta agreeing_def agree_def)
  qed (use save_agrees [OF assms(1)] release_agrees [OF assms(1)] rollback_agrees [OF assms(1)] assms(2)
        in \<open>simp_all add: st wrap3_def\<close>)
qed

lemma run_ctls_agrees:
  "\<lbrakk>server_errors_only srv; agreeing st\<rbrakk> \<Longrightarrow> agreeing (snd (run_ctls h srv cs st))"
  by (induction cs arbitrary: st) (simp_all add: case_prod_beta run_ctl_agrees)

text \<open>A rollback to a savepoint also revives a transaction the server has aborted.\<close>

lemma rollback_revives:
  assumes "pv_inv pv s" "pv_healthy pv s \<or> pv_aborted pv s" "conn tx \<noteq> None" "sql tx = sql_new t"
    "writeable tx \<longrightarrow> pv_rw pv s" "agree pv tx s" "pv_saves pv s = (n, tb) # sv"
  obtains tx' s' where "rollback_to_save_point srv tx s = (Ok (), tx', s')" "pv_table pv s' = tb"
    "pv_saves pv s' = sv" "ready pv t tx' s'" "agree pv tx' s'"
proof -
  have n: "n \<in> fst ` set (pv_saves pv s)" by (simp add: assms(7))
  obtain s1 where s1: "srv_raw srv (rollback_to_sql n) s = (Inr (), s1)" "pv_healthy pv s1"
    using rollback_to_live [OF assms(1,2) n] by blast
  have same: "same_tx pv s s1" by (rule raw_frame [OF assms(1) savepoint_texts(3) s1(1)])
  have 1: "ready pv t tx s1" "pv_table pv s1 = tb" "pv_saves pv s1 = (n, tb) # sv"
    using rollback_to_ok [OF assms(1) s1(1)] same s1(2) assms(3-5,7) by (auto simp: ready_def same_tx_def)
  obtain s' where s': "execute_simple srv tx (release_sql n) None s1 = (Ok (), s')"
    "ready pv t tx s'" "pv_durable pv s' = pv_durable pv s1" "pv_table pv s' = pv_table pv s1"
    "pv_saves pv s' = sv"
    by (rule release_live_cons [OF 1(1,3)])
  have "execute_simple srv tx (rollback_to_sql n) None s = (Ok (), s1)"
    using assms(3) s1(1) by (auto simp: execute_simple_def)
  then have "rollback_to_save_point srv tx s = (Ok (), tx\<lparr>savepoints := rev (map fst sv)\<rparr>, s')"
    using agree_pop [OF assms(6)] s'(1) by (simp add: rollback_to_save_point_def assms(7))
  then show thesis
    by (rule that) (use 1 s' in simp_all)
qed

text \<open>A statement the server refuses aborts the transaction; a commit then succeeds in vain.\<close>

lemma refused_aborts:
  assumes "pv_inv pv s" "server_errors_only srv" "stmt_of t q ps = Some st"
    "query_then srv tx q ps key f s = (Err e, s')" "\<And>res. \<not> (\<exists>e. f res = Err e)" "conn tx \<noteq> None"
  shows "pv_aborted pv s' \<and> pv_table pv s' = pv_table pv s"
proof -
  obtain r s1 where r: "srv_query srv (persistent tx) q ps s = (r, s1)" by fastforce
  show ?thesis
  proof (cases r)
    case (Inl e')
    then show ?thesis
      using query_err [OF assms(1,3), of "persistent tx" e' s1] server_errors_onlyD(1) [OF assms(2)] r assms(4,6)
      by (auto simp: query_then_def run_query_def)
  next
    case (Inr res)
    then show ?thesis
      using r assms(4,5,6) by (auto simp: query_then_def run_query_def)
  qed
qed

end

text \<open>What the savepoint calls leave of the struct, on any server.\<close>

lemma savepoints_keep_sql:
  "sql (fst (snd (new_save_point srv tx s))) = sql tx \<and>
   writeable (fst (snd (new_save_point srv tx s))) = writeable tx"
  "sql (fst (snd (release_last_save_point srv tx s))) = sql tx \<and>
   writeable (fst (snd (release_last_save_point srv tx s))) = writeable tx"
  "sql (fst (snd (rollback_to_save_point srv tx s))) = sql tx \<and>
   writeable (fst (snd (rollback_to_save_point srv tx s))) = writeable tx"
  by (auto simp: new_save_point_def push_savepoint_name_def release_last_save_point_def
      rollback_to_save_point_def pop_savepoint_name_def push_back_def Let_def split: prod.split outcome.split)

end
