(* ===== verification/Pg_Tx.thy ===== *)
theory Pg_Tx
  imports Tx_Control
begin

section \<open>The Transactable wrapper (src/pg_tx.rs)\<close>

text \<open>
  \<^verbatim>\<open>PgTx\<close> as its caller sees it when one call runs at a time: the version check, the closed and
  writable guards, the call on the inner \<^verbatim>\<open>PgTransaction\<close>, the mapping of its error into
  \<^verbatim>\<open>kvs::Error\<close>, the byte counts of the results, and the commit and rollback counters.  The mutex
  is free between calls; theory \<open>Pg_Tx_Conc\<close> models the calls that overlap.
\<close>

subsection \<open>Data\<close>

text \<open>
  \<open>left_active\<close> is not a field of the struct: it is the value of the shared counter of active
  transactions once the inner transaction, which holds the handle to it, is gone.
\<close>

record pg_ptx =
  inner :: "pg_tx option"
  fin :: bool
  pwrite :: bool
  tx_committed :: u64
  tx_rolled_back :: u64
  left_active :: u64

type_synonym 'a kresult = "(kvs_error, 'a) outcome"

record keys_result =
  kr_keys :: "key list"
  kr_key_bytes :: u64

record scan_result =
  sr_values :: "(key \<times> val) list"
  sr_key_bytes :: u64
  sr_value_bytes :: u64

record get_multi_result =
  gr_values :: "val option list"
  gr_records :: u64
  gr_value_bytes :: u64

definition ptx_new :: "pg_tx \<Rightarrow> u64 \<Rightarrow> u64 \<Rightarrow> pg_ptx" where
  "ptx_new tx c r =
     \<lparr>inner = Some tx, fin = False, pwrite = writeable tx, tx_committed = c, tx_rolled_back = r,
      left_active = tx_active tx\<rparr>"

definition active_count :: "pg_ptx \<Rightarrow> u64" where
  "active_count p = (case inner p of Some tx \<Rightarrow> tx_active tx | None \<Rightarrow> left_active p)"

text \<open>The end of the inner transaction: it has been taken out and is dropped.\<close>

definition without_inner :: "pg_tx \<Rightarrow> pg_ptx \<Rightarrow> pg_ptx" where
  "without_inner tx p = p\<lparr>inner := None, left_active := tx_active (tx_drop tx)\<rparr>"

subsection \<open>Guards\<close>

definition check_version :: "u64 option \<Rightarrow> unit kresult" where
  "check_version ver = (case ver of Some _ \<Rightarrow> Err KvsUnsupportedVersionedQueries | None \<Rightarrow> Ok ())"

definition ptx_lock :: "pg_ptx \<Rightarrow> pg_tx kresult" where
  "ptx_lock p =
     (if fin p then Err TransactionFinished
      else case inner p of None \<Rightarrow> Err TransactionFinished | Some tx \<Rightarrow> Ok tx)"

definition ptx_lock_write :: "pg_ptx \<Rightarrow> pg_tx kresult" where
  "ptx_lock_write p =
     (if fin p then Err TransactionFinished
      else if \<not> pwrite p then Err TransactionReadonly
      else case inner p of None \<Rightarrow> Err TransactionFinished | Some tx \<Rightarrow> Ok tx)"

definition ptx_closed :: "pg_ptx \<Rightarrow> bool" where "ptx_closed p = fin p"
definition ptx_writeable :: "pg_ptx \<Rightarrow> bool" where "ptx_writeable p = pwrite p"

definition ptx_kind :: string where "ptx_kind = ''postgres''"
definition display_ptx :: string where "display_ptx = ''PostgreSQL transaction''"

text \<open>Run a call on the guarded transaction and map its error.\<close>

definition guarded ::
  "pg_tx kresult \<Rightarrow> (pg_tx \<Rightarrow> 's \<Rightarrow> 'a result \<times> 's) \<Rightarrow> 's \<Rightarrow> 'a kresult \<times> 's" where
  "guarded g f s =
     (case g of
        Ok tx \<Rightarrow> (let (r, s') = f tx s in (map_err to_kvs r, s'))
      | Err e \<Rightarrow> (Err e, s)
      | Panic \<Rightarrow> (Panic, s))"

definition versioned :: "u64 option \<Rightarrow> 'a kresult \<times> 's \<Rightarrow> 's \<Rightarrow> 'a kresult \<times> 's" where
  "versioned ver r s = (case check_version ver of Ok _ \<Rightarrow> r | Err e \<Rightarrow> (Err e, s) | Panic \<Rightarrow> (Panic, s))"

definition finish :: "('a \<Rightarrow> 'b) \<Rightarrow> 'a kresult \<times> 's \<Rightarrow> 'b kresult \<times> 's" where
  "finish f r = (map_ok f (fst r), snd r)"

subsection \<open>Byte counts\<close>

definition sum_u64 :: "nat list \<Rightarrow> u64" where
  "sum_u64 ns = foldl (\<lambda>a n. a + of_nat n) 0 ns"

definition keys_result_of :: "key list \<Rightarrow> keys_result" where
  "keys_result_of ks = \<lparr>kr_keys = ks, kr_key_bytes = sum_u64 (map length ks)\<rparr>"

definition scan_result_of :: "(key \<times> val) list \<Rightarrow> scan_result" where
  "scan_result_of ps = \<lparr>sr_values = ps, sr_key_bytes = sum_u64 (map (\<lambda>p. length (fst p)) ps),
     sr_value_bytes = sum_u64 (map (\<lambda>p. length (snd p)) ps)\<rparr>"

definition get_multi_result_of :: "val option list \<Rightarrow> get_multi_result" where
  "get_multi_result_of vs = \<lparr>gr_values = vs,
     gr_records = of_nat (length (filter (\<lambda>v. v \<noteq> None) vs)),
     gr_value_bytes = sum_u64 (map (\<lambda>v. case v of None \<Rightarrow> 0 | Some b \<Rightarrow> length b) vs)\<rparr>"

subsection \<open>Operations\<close>

definition ptx_exists where
  "ptx_exists srv p k ver s = versioned ver (guarded (ptx_lock p) (\<lambda>tx. tx_exists srv tx k) s) s"

definition ptx_get where
  "ptx_get srv p k ver s = versioned ver (guarded (ptx_lock p) (\<lambda>tx. tx_get srv tx k) s) s"

definition ptx_set where
  "ptx_set srv p k v s = guarded (ptx_lock_write p) (\<lambda>tx. tx_set srv tx k v) s"

definition ptx_put where
  "ptx_put srv p k v s = guarded (ptx_lock_write p) (\<lambda>tx. tx_put srv tx k v) s"

definition ptx_putc where
  "ptx_putc srv p k v chk s = guarded (ptx_lock_write p) (\<lambda>tx. tx_putc srv tx k v chk) s"

definition ptx_del where
  "ptx_del srv p k s = guarded (ptx_lock_write p) (\<lambda>tx. tx_del srv tx k) s"

definition ptx_delc where
  "ptx_delc srv p k chk s = guarded (ptx_lock_write p) (\<lambda>tx. tx_delc srv tx k chk) s"

definition ptx_delr where
  "ptx_delr srv p a b s = guarded (ptx_lock_write p) (\<lambda>tx. tx_delr srv tx a b) s"

definition ptx_clrr where
  "ptx_clrr srv p a b s = ptx_delr srv p a b s"

definition ptx_keys where
  "ptx_keys srv p a b n m ver s =
     finish keys_result_of (versioned ver (guarded (ptx_lock p) (\<lambda>tx. tx_keys srv tx a b n m) s) s)"

definition ptx_keysr where
  "ptx_keysr srv p a b n m ver s =
     finish keys_result_of (versioned ver (guarded (ptx_lock p) (\<lambda>tx. tx_keysr srv tx a b n m) s) s)"

definition ptx_scan where
  "ptx_scan srv p a b n m ver s =
     finish scan_result_of (versioned ver (guarded (ptx_lock p) (\<lambda>tx. tx_scan srv tx a b n m) s) s)"

definition ptx_scanr where
  "ptx_scanr srv p a b n m ver s =
     finish scan_result_of (versioned ver (guarded (ptx_lock p) (\<lambda>tx. tx_scanr srv tx a b n m) s) s)"

definition ptx_getm where
  "ptx_getm srv p ks ver s =
     finish get_multi_result_of (versioned ver (guarded (ptx_lock p) (\<lambda>tx. tx_getm srv tx ks) s) s)"

definition ptx_getr where
  "ptx_getr srv p a b ver s =
     finish scan_result_of (versioned ver (guarded (ptx_lock p) (\<lambda>tx. tx_getr srv tx a b) s) s)"

definition ptx_count where
  "ptx_count srv p a b ver s = versioned ver (guarded (ptx_lock p) (\<lambda>tx. tx_count srv tx a b) s) s"

text \<open>The savepoint calls change the inner transaction.\<close>

definition ptx_savepoint ::
  "(pg_tx \<Rightarrow> 's \<Rightarrow> unit result \<times> pg_tx \<times> 's) \<Rightarrow> pg_ptx \<Rightarrow> 's \<Rightarrow> unit kresult \<times> pg_ptx \<times> 's" where
  "ptx_savepoint f p s =
     (case ptx_lock p of
        Ok tx \<Rightarrow> (let (r, tx', s') = f tx s in (map_err to_kvs r, p\<lparr>inner := Some tx'\<rparr>, s'))
      | Err e \<Rightarrow> (Err e, p, s)
      | Panic \<Rightarrow> (Panic, p, s))"

definition ptx_new_save_point where
  "ptx_new_save_point srv p s = ptx_savepoint (new_save_point srv) p s"

definition ptx_release_last_save_point where
  "ptx_release_last_save_point srv p s = ptx_savepoint (release_last_save_point srv) p s"

definition ptx_rollback_to_save_point where
  "ptx_rollback_to_save_point srv p s = ptx_savepoint (rollback_to_save_point srv) p s"

text \<open>
  The closing calls: the flag is set and the transaction taken before it is committed or rolled
  back, so the wrapper is finished whatever the server answers.
\<close>

definition ptx_commit :: "'s pg_server \<Rightarrow> pg_ptx \<Rightarrow> 's \<Rightarrow> unit kresult \<times> pg_ptx \<times> 's" where
  "ptx_commit srv p s =
     (if fin p then (Err TransactionFinished, p, s)
      else
        (let p1 = p\<lparr>fin := True, inner := None\<rparr> in
         case inner p of
           None \<Rightarrow> (Ok (), p1, s)
         | Some tx \<Rightarrow>
             (case tx_commit srv tx s of
                (Ok _, tx', s') \<Rightarrow> (Ok (), (without_inner tx' p1)\<lparr>tx_committed := tx_committed p + 1\<rparr>, s')
              | (Err e, tx', s') \<Rightarrow> (Err (to_kvs e), (without_inner tx' p1)\<lparr>tx_rolled_back := tx_rolled_back p + 1\<rparr>, s')
              | (Panic, tx', s') \<Rightarrow> (Panic, without_inner tx' p1, s'))))"

definition ptx_cancel :: "'s pg_server \<Rightarrow> pg_ptx \<Rightarrow> 's \<Rightarrow> unit kresult \<times> pg_ptx \<times> 's" where
  "ptx_cancel srv p s =
     (if fin p then (Err TransactionFinished, p, s)
      else
        (let p1 = p\<lparr>fin := True, inner := None\<rparr> in
         case inner p of
           None \<Rightarrow> (Ok (), p1, s)
         | Some tx \<Rightarrow>
             (case tx_cancel srv tx s of
                (Ok _, tx', s') \<Rightarrow> (Ok (), (without_inner tx' p1)\<lparr>tx_rolled_back := tx_rolled_back p + 1\<rparr>, s')
              | (Err e, tx', s') \<Rightarrow> (Err (to_kvs e), (without_inner tx' p1)\<lparr>tx_rolled_back := tx_rolled_back p + 1\<rparr>, s')
              | (Panic, tx', s') \<Rightarrow> (Panic, without_inner tx' p1, s'))))"

text \<open>\<^verbatim>\<open>Drop for PgTx\<close>, then the drop of its fields.\<close>

definition ptx_drop :: "pg_ptx \<Rightarrow> pg_ptx" where
  "ptx_drop p =
     (let p1 = (if fin p then p else p\<lparr>tx_rolled_back := tx_rolled_back p + 1\<rparr>) in
      case inner p1 of None \<Rightarrow> p1 | Some tx \<Rightarrow> without_inner tx p1)"

end
