(* ===== verification/Kv_Contract.thy ===== *)
theory Kv_Contract
  imports Pg_Tx
begin

section \<open>The contract of a key-value transaction\<close>

text \<open>
  What SurrealDB relies on when it uses a transaction, as an interface: a step function on some
  state, the table the state stands for, and the law that a step is the specified step of the
  table.  The consequences a client uses are proved once, in the locale; \<^verbatim>\<open>PgTransaction\<close> and
  \<^verbatim>\<open>PgTx\<close> both satisfy it over every backend (the two sublocales).
\<close>

text \<open>\<^verbatim>\<open>Transactable\<close> has no batch write; \<^verbatim>\<open>PgTransaction::setm\<close> stands outside the contract.\<close>

fun offered :: "kv_op \<Rightarrow> bool" where
  "offered (KSetm ps) = False"
| "offered _ = True"

fun steps_of :: "('o \<Rightarrow> 'c \<Rightarrow> 'r \<times> 'c) \<Rightarrow> 'o list \<Rightarrow> 'c \<Rightarrow> 'r list \<times> 'c" where
  "steps_of step [] c = ([], c)"
| "steps_of step (x # xs) c =
     (let (r, c1) = step x c; (rs, c2) = steps_of step xs c1 in (r # rs, c2))"

locale kv_contract =
  fixes step :: "kv_op \<Rightarrow> 'c \<Rightarrow> ('e, kv_res) outcome \<times> 'c"
    and tbl :: "'c \<Rightarrow> table"
    and good :: "'c \<Rightarrow> bool"
    and rw :: "'c \<Rightarrow> bool"
    and err :: "pg_store_error \<Rightarrow> 'e"
  assumes good_wf: "good c \<Longrightarrow> wf_table (tbl c)"
    and step_answer: "\<lbrakk>good c; offered op\<rbrakk> \<Longrightarrow> fst (step op c) = map_err err (fst (kv_step (rw c) op (tbl c)))"
    and step_table: "\<lbrakk>good c; offered op\<rbrakk> \<Longrightarrow> tbl (snd (step op c)) = snd (kv_step (rw c) op (tbl c))"
    and step_good: "\<lbrakk>good c; offered op\<rbrakk> \<Longrightarrow> good (snd (step op c)) \<and> rw (snd (step op c)) = rw c"
begin

lemma steps_refine:
  "\<lbrakk>good c; list_all offered ops\<rbrakk> \<Longrightarrow> fst (steps_of step ops c) = map (map_err err) (fst (kv_steps (rw c) ops (tbl c))) \<and>
     tbl (snd (steps_of step ops c)) = snd (kv_steps (rw c) ops (tbl c)) \<and> good (snd (steps_of step ops c))"
proof (induction ops arbitrary: c)
  case (Cons op ops)
  have o: "good c" "offered op" "list_all offered ops" using Cons.prems by simp_all
  have g: "good (snd (step op c))" "rw (snd (step op c)) = rw c" using step_good [OF o(1,2)] by auto
  show ?case
    using Cons.IH [OF g(1) o(3)] step_answer [OF o(1,2)] step_table [OF o(1,2)] g(2)
    by (simp add: case_prod_beta)
qed simp

text \<open>A write is read back, and changes no other key.\<close>

lemma read_your_write:
  assumes "good c" "rw c"
  shows "fst (step (KGet k') (snd (step (KSet k v) c))) =
    Ok (RVal (if k' = k then Some v else map_of (tbl c) k'))"
  using step_good [OF assms(1), of "KSet k v"] step_table [OF assms(1), of "KSet k v"] assms
    step_answer [of "snd (step (KSet k v) c)" "KGet k'"] good_wf [OF assms(1)]
  by (simp add: kv_step_def)

text \<open>Of two writers that compare with the same old value, the second fails.\<close>

lemma second_putc_fails:
  assumes "good c" "rw c" "fst (step (KPutc k v (Some old)) c) = Ok RUnit" "v \<noteq> old"
  shows "fst (step (KPutc k v' (Some old)) (snd (step (KPutc k v (Some old)) c))) =
      Err (err (ConditionNotMet k)) \<and>
    map_of (tbl (snd (step (KPutc k v' (Some old)) (snd (step (KPutc k v (Some old)) c))))) k = Some v"
proof -
  let ?c = "snd (step (KPutc k v (Some old)) c)"
  have "map_of (tbl c) k = Some old"
    using assms(2,3) step_answer [OF assms(1), of "KPutc k v (Some old)"]
    by (simp add: kv_step_def split: if_splits)
  then have tb: "tbl ?c = tbl_put k v (tbl c)"
    using assms(2) step_table [OF assms(1), of "KPutc k v (Some old)"] by (simp add: kv_step_def)
  have g: "good ?c" "rw ?c" using step_good [OF assms(1)] assms(2) by simp_all
  show ?thesis
    using step_answer [OF g(1), of "KPutc k v' (Some old)"] step_table [OF g(1), of "KPutc k v' (Some old)"]
      g(2) tb good_wf [OF assms(1)] assms(4)
    by (simp add: kv_step_def)
qed

text \<open>The four ways of reading a range tell the same.\<close>

lemma count_is_length_getr:
  assumes "good c" "fst (step (KGetr a b) c) = Ok (RPairs ps)"
  shows "fst (step (KCount a b) c) = Ok (RNum (length ps)) \<and>
    fst (step (KScan a b n 0) c) = Ok (RPairs (take (unat n) ps)) \<and>
    fst (step (KKeys a b n 0) c) = Ok (RKeys (take (unat n) (map fst ps))) \<and>
    fst (step (KKeysr a b n 0) c) = Ok (RKeys (take (unat n) (rev (map fst ps))))"
  using assms step_answer [OF assms(1)]
  by (simp add: kv_step_def page_def take_map rev_map)

lemma delr_empties:
  assumes "good c" "rw c" "a \<le> k" "k < b"
  shows "fst (step (KExists k) (snd (step (KDelr a b) c))) = Ok (RBool False)"
  using step_good [OF assms(1), of "KDelr a b"] step_table [OF assms(1), of "KDelr a b"] assms
    step_answer [of "snd (step (KDelr a b) c)" "KExists k"]
  by (simp add: kv_step_def map_of_tbl_delr)

end

subsection \<open>PgTransaction keeps the contract\<close>

locale pg_backend_hash = pg_backend +
  fixes h :: "(key \<times> val) list \<Rightarrow> (key \<times> val) list"
  assumes hash_order: "mset (h xs) = mset xs"

definition tx_call ::
  "((key \<times> val) list \<Rightarrow> (key \<times> val) list) \<Rightarrow> 's pg_server \<Rightarrow> kv_op \<Rightarrow> pg_tx \<times> 's \<Rightarrow>
     kv_res result \<times> pg_tx \<times> 's" where
  "tx_call h srv op c = (let (r, s') = run_op h srv (fst c) op (snd c) in (r, fst c, s'))"

lemma map_err_id [simp]: "map_err (\<lambda>e. e) r = r"
  by (cases r) simp_all

context pg_backend_hash
begin

lemma op_exact:
  "ready pv t tx s \<Longrightarrow> exact pv s (run_op h srv tx op s) (kv_step (writeable tx) op (pv_table pv s))"
  using run_op_meets [OF ready_based hash_order] by (simp add: meets_def)

end

sublocale pg_backend_hash \<subseteq> txc: kv_contract "tx_call h srv" "\<lambda>c. pv_table pv (snd c)"
  "\<lambda>c. ready pv t (fst c) (snd c)" "\<lambda>c. writeable (fst c)" "\<lambda>e. e"
proof unfold_locales
  fix c :: "pg_tx \<times> 'a" and op
  assume r: "ready pv t (fst c) (snd c)"
  have e: "exact pv (snd c) (run_op h srv (fst c) op (snd c)) (kv_step (writeable (fst c)) op (pv_table pv (snd c)))"
    by (rule op_exact [OF r])
  show "wf_table (pv_table pv (snd c))" using r by (simp add: ready_def inv_wf)
  show "fst (tx_call h srv op c) = map_err (\<lambda>e. e) (fst (kv_step (writeable (fst c)) op (pv_table pv (snd c))))"
    using e by (simp add: tx_call_def case_prod_beta exact_def)
  show "pv_table pv (snd (snd (tx_call h srv op c))) = snd (kv_step (writeable (fst c)) op (pv_table pv (snd c)))"
    using e by (simp add: tx_call_def case_prod_beta exact_def)
  show "ready pv t (fst (snd (tx_call h srv op c))) (snd (snd (tx_call h srv op c))) \<and>
      writeable (fst (snd (tx_call h srv op c))) = writeable (fst c)"
    using e alive_ready [OF r] by (simp add: tx_call_def case_prod_beta exact_def)
qed

subsection \<open>PgTx keeps the contract\<close>

fun run_ptx ::
  "'s pg_server \<Rightarrow> pg_ptx \<Rightarrow> kv_op \<Rightarrow> 's \<Rightarrow> kv_res kresult \<times> 's"
where
  "run_ptx srv p (KExists k) s = finish RBool (ptx_exists srv p k None s)"
| "run_ptx srv p (KGet k) s = finish RVal (ptx_get srv p k None s)"
| "run_ptx srv p (KGetm ks) s = finish (RVals \<circ> gr_values) (ptx_getm srv p ks None s)"
| "run_ptx srv p (KSet k v) s = finish (\<lambda>_. RUnit) (ptx_set srv p k v s)"
| "run_ptx srv p (KPut k v) s = finish (\<lambda>_. RUnit) (ptx_put srv p k v s)"
| "run_ptx srv p (KPutc k v c) s = finish (\<lambda>_. RUnit) (ptx_putc srv p k v c s)"
| "run_ptx srv p (KDel k) s = finish (\<lambda>_. RUnit) (ptx_del srv p k s)"
| "run_ptx srv p (KDelc k c) s = finish (\<lambda>_. RUnit) (ptx_delc srv p k c s)"
| "run_ptx srv p (KDelr a b) s = finish (\<lambda>_. RUnit) (ptx_delr srv p a b s)"
| "run_ptx srv p (KKeys a b n m) s = finish (RKeys \<circ> kr_keys) (ptx_keys srv p a b n m None s)"
| "run_ptx srv p (KKeysr a b n m) s = finish (RKeys \<circ> kr_keys) (ptx_keysr srv p a b n m None s)"
| "run_ptx srv p (KScan a b n m) s = finish (RPairs \<circ> sr_values) (ptx_scan srv p a b n m None s)"
| "run_ptx srv p (KScanr a b n m) s = finish (RPairs \<circ> sr_values) (ptx_scanr srv p a b n m None s)"
| "run_ptx srv p (KGetr a b) s = finish (RPairs \<circ> sr_values) (ptx_getr srv p a b None s)"
| "run_ptx srv p (KCount a b) s = finish RNum (ptx_count srv p a b None s)"

text \<open>\<^verbatim>\<open>PgTx\<close> between its creation and its end.\<close>

definition ptx_ready :: "'s pg_view \<Rightarrow> string \<Rightarrow> pg_ptx \<Rightarrow> 's \<Rightarrow> bool" where
  "ptx_ready pv t p s \<longleftrightarrow> \<not> fin p \<and>
     (case inner p of None \<Rightarrow> False | Some tx \<Rightarrow> pwrite p = writeable tx \<and> ready pv t tx s)"

definition ptx_call ::
  "'s pg_server \<Rightarrow> kv_op \<Rightarrow> pg_ptx \<times> 's \<Rightarrow> kv_res kresult \<times> pg_ptx \<times> 's" where
  "ptx_call srv op c = (let (r, s') = run_ptx srv (fst c) op (snd c) in (r, fst c, s'))"

lemma map_ok_comp [simp]: "map_ok g (map_ok f r) = map_ok (g \<circ> f) r"
  by (cases r) simp_all

lemma map_ok_err: "map_ok f (map_err g r) = map_err g (map_ok f r)"
  by (cases r) simp_all

lemma finish_guarded:
  "finish f (guarded (Ok tx) g s) = (map_err to_kvs (map_ok f (fst (g tx s))), snd (g tx s))"
  "finish f (map_err to_kvs r, s) = (map_err to_kvs (map_ok f r), s)"
  by (simp_all add: finish_def guarded_def case_prod_beta map_ok_err)

lemma finish_finish [simp]: "finish f (finish g r) = finish (f \<circ> g) r"
  by (simp add: finish_def)

lemma results_of [simp]:
  "RKeys \<circ> kr_keys \<circ> keys_result_of = RKeys" "RPairs \<circ> sr_values \<circ> scan_result_of = RPairs"
  "RVals \<circ> gr_values \<circ> get_multi_result_of = RVals"
  by (simp_all add: fun_eq_iff keys_result_of_def scan_result_of_def get_multi_result_of_def)

lemmas results_of' [simp] = results_of [unfolded comp_assoc]

text \<open>An open wrapper runs the operation of its inner transaction and maps the error.\<close>

lemma run_ptx_inner:
  assumes "\<not> fin p" "inner p = Some tx" "pwrite p = writeable tx" "offered op"
  shows "run_ptx srv p op s = (map_err to_kvs (fst (run_op h srv tx op s)), snd (run_op h srv tx op s))"
proof -
  have l: "ptx_lock p = Ok tx" using assms by (simp add: ptx_lock_def)
  have w: "ptx_lock_write p = (if writeable tx then Ok tx else Err TransactionReadonly)"
    using assms by (simp add: ptx_lock_write_def)
  show ?thesis
  proof (cases "is_write op \<and> \<not> writeable tx")
    case True
    then have "run_ptx srv p op s = (Err TransactionReadonly, s)"
      using assms(4)
      by (cases op) (simp_all add: ptx_set_def ptx_put_def ptx_putc_def ptx_del_def ptx_delc_def
          ptx_delr_def w guarded_def finish_def)
    then show ?thesis using True assms(4) by (cases op) (simp_all add: read_only_write del: run_op.simps)
  next
    case False
    then show ?thesis
      using assms(4)
      by (cases op) (simp_all add: ptx_exists_def ptx_get_def ptx_getm_def ptx_set_def ptx_put_def
          ptx_putc_def ptx_del_def ptx_delc_def ptx_delr_def ptx_keys_def ptx_keysr_def ptx_scan_def
          ptx_scanr_def ptx_getr_def ptx_count_def versioned_def check_version_def l w finish_guarded
          wrap_def)
  qed
qed

sublocale pg_backend_hash \<subseteq> ptxc: kv_contract "ptx_call srv" "\<lambda>c. pv_table pv (snd c)"
  "\<lambda>c. ptx_ready pv t (fst c) (snd c)" "\<lambda>c. pwrite (fst c)" to_kvs
proof unfold_locales
  fix c :: "pg_ptx \<times> 'a" and op
  assume r: "ptx_ready pv t (fst c) (snd c)"
  then obtain tx where tx: "\<not> fin (fst c)" "inner (fst c) = Some tx" "pwrite (fst c) = writeable tx"
    "ready pv t tx (snd c)"
    by (auto simp: ptx_ready_def split: option.splits)
  show "wf_table (pv_table pv (snd c))" using tx(4) by (simp add: ready_def inv_wf)
  assume o: "offered op"
  note run = run_ptx_inner [OF tx(1-3) o, of srv "snd c" h]
  have e: "exact pv (snd c) (run_op h srv tx op (snd c)) (kv_step (writeable tx) op (pv_table pv (snd c)))"
    by (rule op_exact [OF tx(4)])
  show "fst (ptx_call srv op c) = map_err to_kvs (fst (kv_step (pwrite (fst c)) op (pv_table pv (snd c))))"
    using e tx(3) by (simp add: ptx_call_def run exact_def)
  show "pv_table pv (snd (snd (ptx_call srv op c))) = snd (kv_step (pwrite (fst c)) op (pv_table pv (snd c)))"
    using e tx(3) by (simp add: ptx_call_def run exact_def)
  show "ptx_ready pv t (fst (snd (ptx_call srv op c))) (snd (snd (ptx_call srv op c))) \<and>
      pwrite (fst (snd (ptx_call srv op c))) = pwrite (fst c)"
    using e alive_ready [OF tx(4)] tx by (simp add: ptx_call_def run exact_def ptx_ready_def)
qed

context pg_backend_hash
begin

lemma ptx_is_contract:
  "kv_contract (ptx_call srv) (\<lambda>c. pv_table pv (snd c)) (\<lambda>c. ptx_ready pv t (fst c) (snd c))
     (\<lambda>c. pwrite (fst c)) to_kvs"
  by (rule ptxc.kv_contract_axioms)

lemma tx_is_contract:
  "kv_contract (tx_call h srv) (\<lambda>c. pv_table pv (snd c)) (\<lambda>c. ready pv t (fst c) (snd c))
     (\<lambda>c. writeable (fst c)) (\<lambda>e. e)"
  by (rule txc.kv_contract_axioms)

end

interpretation refc: pg_backend_hash "ref_server t" t ref_view rev for t
  by unfold_locales simp

end
