(* ===== verification/Tx_Props.thy ===== *)
theory Tx_Props
  imports Tx_Control
begin

section \<open>Properties of transactions\<close>

text \<open>
  The properties of \<^verbatim>\<open>PgTransaction\<close> as closed statements over the model's definitions, resting
  on the lemmas of the backend's locale, each with a run on the reference session as its witness;
  and paging with a cursor, which the crate leaves to the caller.
\<close>

subsection \<open>Concrete transactions for the witnesses\<close>

definition tx0 :: "bool \<Rightarrow> pg_tx" where
  "tx0 w = new_pooled w Serializable True (sql_new ''kv'') 1"

lemma tx0_simps [simp]:
  "writeable (tx0 w) = w" "conn (tx0 w) = Some Pooled" "savepoints (tx0 w) = []"
  "sql (tx0 w) = sql_new ''kv''" "tx_active (tx0 w) = 1"
  by (simp_all add: tx0_def new_pooled_def)

lemma ready_tx0: "wf_table tb \<Longrightarrow> ready ref_view ''kv'' (tx0 w) (ref_begin w tb)"
  by (simp add: ready_def ref_view_def ref_inv_def ref_begin_def)

lemma agree_tx0: "agree ref_view (tx0 w) (ref_begin w tb)"
  by (simp add: agree_def ref_view_def ref_begin_def)

lemma ref_view_begin [simp]:
  "pv_table ref_view (ref_begin w tb) = tb" "pv_durable ref_view (ref_begin w tb) = tb"
  "pv_saves ref_view (ref_begin w tb) = []" "stack_of ref_view (ref_begin w tb) = (tb, [])"
  by (simp_all add: ref_view_def ref_begin_def stack_of_def)

lemma ref_errors: "server_errors_only (ref_server t)"
  by (auto simp: server_errors_only_def ref_server_def ref_query_def ref_raw_def ref_commit_def
      ref_rollback_def sql_error_def split: option.splits prod.splits list.splits if_splits)

subsection \<open>The whole life of a transaction\<close>


definition demo_ctls :: "ctl list" where
  "demo_ctls = [COp (KSet [1] [10]), CSave, COp (KPutc [1] [11] (Some [10])), CSave,
     COp (KDelr [0] [9]), CRollback, CRelease, COp (KPut [1] [12]), COp (KGetm [[2], [1]])]"


subsection \<open>Any session\<close>

text \<open>
  C3. On any session of the documented kind, healthy or not, and whether the transaction is open
  or closed: an operation never panics, commits nothing, and when it returns \<open>Ok\<close> the answer is the
  specified one for the table it met and the table it leaves is the specified one.
\<close>

theorem operation_sound:
  assumes "pg_backend srv t pv" "pv_inv pv s" "sql tx = sql_new t" "\<And>xs. mset (h xs) = mset xs"
    "run_op h srv tx op s = (r, s')"
  shows "r \<noteq> Panic \<and> pv_inv pv s' \<and> pv_durable pv s' = pv_durable pv s \<and>
    (\<forall>x. r = Ok x \<longrightarrow> kv_step (writeable tx) op (pv_table pv s) = (Ok x, pv_table pv s'))"
  using pg_backend.run_op_meets [OF assms(1) _ assms(4), of tx s op] assms(2,3,5)
  by (simp add: meets_def sound_def based_def same_tx_def)

lemma operation_sound_witness:
  "kv_step True (KPutc [1] [2] (Some [7])) [([1], [7])] = (Ok RUnit, [([1], [2])])"
proof -
  let ?op = "KPutc [1] [2] (Some [7])"
  let ?s = "ref_begin True [([1], [7])]"
  have s: "pv_inv ref_view ?s" by (simp add: ref_view_def ref_inv_def ref_begin_def)
  have run: "run_op rev (ref_server ''kv'') (tx0 True) ?op ?s =
      (Ok RUnit, ?s\<lparr>r_table := [([1], [2])]\<rparr>)"
    by (simp add: tx_putc_def check_writeable_def query_then_def run_query_def ref_server_def
        ref_query_def ref_begin_def)
  show ?thesis
    using operation_sound [OF ref.pg_backend_axioms s _ _ run]
    by (simp add: ref_view_def ref_begin_def)
qed

subsection \<open>Batches\<close>

text \<open>
  \<^verbatim>\<open>dedup_pairs\<close> gives each key once, with the last value the batch has for it, no other key,
  whatever order the hash map iterates in; so writing the deduplicated batch in any order is
  writing the pairs one after the other.
\<close>

theorem dedup_pairs_last_wins:
  assumes "\<And>xs. mset (h xs) = mset xs" "wf_table tb"
  shows "distinct (map fst (dedup_pairs h ps)) \<and> map_of (dedup_pairs h ps) = map_of (rev ps) \<and>
    tbl_puts (dedup_pairs h ps) tb = tbl_puts ps tb"
  using dedup_distinct [OF assms(1)] dedup_map_of [OF assms(1)] tbl_puts_dedup [OF assms] by simp

lemma dedup_pairs_last_wins_witness:
  "map_of (dedup_pairs rev [([1], [1]), ([2], [2]), ([1], [3])]) [1] = Some [3] \<and>
   tbl_puts (dedup_pairs rev [([1], [1]), ([2], [2]), ([1], [3])]) [] = [([1], [3]), ([2], [2])]"
  using dedup_pairs_last_wins [of rev "[]" "[([1], [1]), ([2], [2]), ([1], [3])]"]
  by (simp add: tbl_puts_def)

subsection \<open>Savepoints\<close>



text \<open>
  C24. Rolling back to a savepoint restores the table of that savepoint and forgets only it, on a
  healthy session and also on one the server has aborted after a failed statement: the transaction
  is usable again.
\<close>

theorem rollback_to_save_point_restores:
  assumes "pg_backend srv t pv" "pv_inv pv s" "pv_healthy pv s \<or> pv_aborted pv s"
    "conn tx \<noteq> None" "sql tx = sql_new t" "writeable tx \<longrightarrow> pv_rw pv s" "agree pv tx s"
    "pv_saves pv s = (n, tb) # sv"
  shows "\<exists>tx' s'. rollback_to_save_point srv tx s = (Ok (), tx', s') \<and> pv_table pv s' = tb \<and>
    pv_saves pv s' = sv \<and> ready pv t tx' s' \<and> agree pv tx' s'"
  by (rule pg_backend.rollback_revives [OF assms]) blast

lemma rollback_to_save_point_restores_witness:
  "\<exists>tx' s'. rollback_to_save_point (ref_server ''kv'') ((tx0 True)\<lparr>savepoints := [''sp_1'']\<rparr>)
      \<lparr>r_table = [([2], [2])], r_saves = [(''sp_1'', [([1], [1])])], r_durable = [],
       r_aborted = True, r_rw = True\<rparr> = (Ok (), tx', s') \<and> r_table s' = [([1], [1])] \<and>
    \<not> r_aborted s'"
proof -
  let ?tx = "(tx0 True)\<lparr>savepoints := [''sp_1'']\<rparr>"
  let ?s = "\<lparr>r_table = [([2], [2])], r_saves = [(''sp_1'', [([1], [1])])], r_durable = [],
       r_aborted = True, r_rw = True\<rparr>"
  have s: "pv_inv ref_view ?s" "pv_healthy ref_view ?s \<or> pv_aborted ref_view ?s"
    "writeable ?tx \<longrightarrow> pv_rw ref_view ?s" "agree ref_view ?tx ?s"
    "pv_saves ref_view ?s = [(''sp_1'', [([1], [1])])]"
    by (simp_all add: ref_view_def ref_inv_def agree_def)
  show ?thesis
    using rollback_to_save_point_restores [OF ref.pg_backend_axioms [of "''kv''"] s(1,2) _ _ s(3,4,5)]
    by (auto simp: ready_def) (auto simp: ref_view_def)
qed

subsection \<open>Closing\<close>

text \<open>
  A transaction is closed once: whatever sequence of commits, cancels and drops is called on an
  open transaction, the first one closes it and takes one from the shared counter of active
  transactions, and every later one changes neither the struct, the session nor the counter and
  answers \<open>TxClosed\<close> (a drop answers nothing).
\<close>

theorem closed_once:
  assumes "conn tx = Some c"
  shows "\<exists>tx' s'. run_ends srv (e # es) (tx, s) =
      (fst (run_end srv e (tx, s)) # map closed_end es, tx', s') \<and>
    conn tx' = None \<and> tx_active tx' = tx_active tx - 1"
proof -
  obtain r s' where e: "run_end srv e (tx, s) =
     (r, tx\<lparr>conn := None, savepoints := (if e = EDrop then savepoints tx else []),
        tx_active := tx_active tx - 1\<rparr>, s')"
    using run_end_open [OF assms, of srv e s] by metis
  show ?thesis by (simp add: e run_ends_closed)
qed

lemma closed_once_witness:
  "\<exists>tx' s'. run_ends (ref_server ''kv'') [ECommit, ECancel, EDrop] (tx0 True, ref_begin True []) =
      ([Ok (), Err TxClosed, Ok ()], tx', s') \<and> tx_active tx' = 0"
proof -
  have "fst (run_end (ref_server ''kv'') ECommit (tx0 True, ref_begin True [])) = Ok ()"
    by (simp add: tx_commit_def tx_end_def commit_inner_def end_result_def ref_server_def
      ref_commit_def case_prod_beta)
  then show ?thesis
    using closed_once [of "tx0 True" Pooled "ref_server ''kv''" ECommit "[ECancel, EDrop]" "ref_begin True []"]
    by (auto simp del: run_ends.simps run_end.simps)
qed

text \<open>What each operation answers on a closed transaction, without touching the session.\<close>

fun closed_answer :: "bool \<Rightarrow> kv_op \<Rightarrow> kv_res result" where
  "closed_answer w (KGetm ks) = (if ks = [] then Ok (RVals []) else Err TxClosed)"
| "closed_answer w (KGetr a b) = (if a \<ge> b then Ok (RPairs []) else Err TxClosed)"
| "closed_answer w (KCount a b) = (if a \<ge> b then Ok (RNum 0) else Err TxClosed)"
| "closed_answer w (KDelr a b) =
     (if \<not> w then Err TxReadOnly else if a \<ge> b then Ok RUnit else Err TxClosed)"
| "closed_answer w (KSetm ps) = Err TxClosed"
| "closed_answer w op = (if is_write op \<and> \<not> w then Err TxReadOnly else Err TxClosed)"

text \<open>
  C28. After the end every operation leaves the session alone and answers \<open>TxClosed\<close>, except: an empty
  batch read, an empty range read, count or delete still succeed, and a read-only transaction
  answers \<open>TxReadOnly\<close> to every write but the batch write.  A savepoint release or rollback after a
  commit or cancel succeeds too, without effect.
\<close>

theorem closed_operations:
  assumes "conn tx = None"
  shows "run_op h srv tx op s = (closed_answer (writeable tx) op, s) \<and>
    (savepoints tx = [] \<longrightarrow> release_last_save_point srv tx s = (Ok (), tx, s) \<and>
       rollback_to_save_point srv tx s = (Ok (), tx, s)) \<and>
    fst (new_save_point srv tx s) = Err TxClosed"
proof -
  have q: "query_then srv tx q ps key f s = (Err TxClosed, s)" for q ps key and f :: "pg_result \<Rightarrow> 'z result"
    by (simp add: query_then_def run_query_def assms)
  have "run_op h srv tx op s = (closed_answer (writeable tx) op, s)"
    by (cases op)
      (auto simp: tx_exists_def tx_get_def tx_getm_def tx_set_def tx_setm_def tx_put_def tx_putc_def
        tx_del_def tx_delc_def tx_delr_def tx_keys_def tx_keysr_def tx_scan_def tx_scanr_def
        tx_getr_def tx_count_def scan_keys_def scan_pairs_def check_writeable_def q assms
        split: option.split)
  then show ?thesis
    by (auto simp: release_last_save_point_def rollback_to_save_point_def pop_savepoint_name_def
        new_save_point_def push_savepoint_name_def execute_simple_def assms Let_def)
qed

lemma closed_operations_witness:
  "run_op rev (ref_server ''kv'') ((tx0 True)\<lparr>conn := None\<rparr>) (KDelr [2] [1]) (ref_begin True []) =
     (Ok RUnit, ref_begin True []) \<and>
   run_op rev (ref_server ''kv'') ((tx0 True)\<lparr>conn := None\<rparr>) (KGet [1]) (ref_begin True []) =
     (Err TxClosed, ref_begin True [])"
  using closed_operations [of "(tx0 True)\<lparr>conn := None\<rparr>" rev "ref_server ''kv''" "KDelr [2] [1]"]
    closed_operations [of "(tx0 True)\<lparr>conn := None\<rparr>" rev "ref_server ''kv''" "KGet [1]"]
  by simp



subsection \<open>Paging\<close>

text \<open>
  The crate has no cursor of its own: the comment of \<^verbatim>\<open>struct Sql\<close> says how the caller pages, with
  \<^verbatim>\<open>skip\<close> 0 and the start of the range moved to the last key followed by a zero byte.  \<open>pages\<close> is
  that caller, with fuel.
\<close>

fun pages ::
  "'s pg_server \<Rightarrow> pg_tx \<Rightarrow> u32 \<Rightarrow> nat \<Rightarrow> key \<Rightarrow> key \<Rightarrow> 's \<Rightarrow> (key \<times> val) list list result \<times> 's" where
  "pages srv tx n 0 a b s = (Ok [], s)"
| "pages srv tx n (Suc fuel) a b s =
     (case tx_scan srv tx a b n 0 s of
        (Ok ps, s1) \<Rightarrow>
          (if ps = [] then (Ok [], s1)
           else (case pages srv tx n fuel (fst (last ps) @ [0]) b s1 of
               (Ok qs, s2) \<Rightarrow> (Ok (ps # qs), s2)
             | (r, s2) \<Rightarrow> (r, s2)))
      | (Err e, s1) \<Rightarrow> (Err e, s1)
      | (Panic, s1) \<Rightarrow> (Panic, s1))"

lemma pages_exact:
  assumes "pg_backend srv t pv" "0 < n" "ready pv t tx s"
    "length (tbl_range a b (pv_table pv s)) < fuel"
  shows "\<exists>ps s'. pages srv tx n fuel a b s = (Ok ps, s') \<and>
    concat ps = tbl_range a b (pv_table pv s) \<and> (\<forall>p \<in> set ps. p \<noteq> [] \<and> length p \<le> unat n) \<and>
    pv_table pv s' = pv_table pv s \<and> ready pv t tx s'"
  using assms(3,4)
proof (induction fuel arbitrary: a s)
  case (Suc fuel)
  let ?R = "tbl_range a b (pv_table pv s)"
  let ?p = "take (unat n) ?R"
  have n: "0 < unat n" using assms(2) by (simp add: unat_gt_0 word_gt_0)
  obtain s1 where s1: "tx_scan srv tx a b n 0 s = (Ok ?p, s1)" "pv_table pv s1 = pv_table pv s"
    "alive pv s s1"
    using pg_backend.scan_meets(3) [OF assms(1) ready_based [OF Suc.prems(1)], of a b n 0] Suc.prems(1)
    by (cases "tx_scan srv tx a b n 0 s") (auto simp: meets_def exact_def page_def)
  have r1: "ready pv t tx s1" by (rule alive_ready [OF Suc.prems(1) s1(3)])
  show ?case
  proof (cases "?p = []")
    case True
    then have "?R = []" using n by simp
    with s1 r1 show ?thesis by simp
  next
    case False
    let ?a = "fst (last ?p) @ [0]"
    have wf: "wf_table (pv_table pv s)"
      using Suc.prems(1) pg_backend.inv_wf [OF assms(1)] by (simp add: ready_def)
    have R: "?R = ?p @ tbl_range ?a b (pv_table pv s1)"
      unfolding s1(2) by (rule range_page_step [OF wf False])
    then have "length ?R = length ?p + length (tbl_range ?a b (pv_table pv s1))"
      by (metis length_append)
    then have "length (tbl_range ?a b (pv_table pv s1)) < fuel"
      using Suc.prems(2) False by (cases ?p) auto
    then obtain qs s2 where 2: "pages srv tx n fuel ?a b s1 = (Ok qs, s2)"
      "concat qs = tbl_range ?a b (pv_table pv s1)" "\<forall>p \<in> set qs. p \<noteq> [] \<and> length p \<le> unat n"
      "pv_table pv s2 = pv_table pv s1" "ready pv t tx s2"
      using Suc.IH [OF r1] by blast
    have "pages srv tx n (Suc fuel) a b s = (Ok (?p # qs), s2)"
      using s1(1) 2(1) False by simp
    moreover have "concat (?p # qs) = ?R" using R 2(2) by simp
    moreover have "\<forall>p \<in> set (?p # qs). p \<noteq> [] \<and> length p \<le> unat n"
      using 2(3) False by simp
    ultimately show ?thesis using 2(4,5) s1(2) by metis
  qed
qed simp



end
