(* ===== verification/Ptx_Props.thy ===== *)
theory Ptx_Props
  imports Kv_Contract Tx_Props
begin

section \<open>Properties of the Transactable wrapper\<close>

text \<open>
  What \<^verbatim>\<open>PgTx\<close> promises SurrealDB: the key-value contract with SurrealDB's errors, the order of the
  guards, exact byte counts, and one count of every transaction as committed or rolled back.
\<close>

lemma backend_hash: "pg_backend srv t pv \<Longrightarrow> pg_backend_hash srv t pv (\<lambda>xs. xs)"
  by (simp add: pg_backend_hash_def pg_backend_hash_axioms_def)

lemma ptx_contract:
  "pg_backend srv t pv \<Longrightarrow> kv_contract (ptx_call srv) (\<lambda>c. pv_table pv (snd c))
     (\<lambda>c. ptx_ready pv t (fst c) (snd c)) (\<lambda>c. pwrite (fst c)) to_kvs"
  by (rule pg_backend_hash.ptx_is_contract [OF backend_hash])

definition ptx0 :: "bool \<Rightarrow> pg_ptx" where
  "ptx0 w = ptx_new (tx0 w) 5 7"

lemma ptx0_simps [simp]:
  "fin (ptx0 w) = False" "inner (ptx0 w) = Some (tx0 w)" "pwrite (ptx0 w) = w"
  "tx_committed (ptx0 w) = 5" "tx_rolled_back (ptx0 w) = 7"
  by (simp_all add: ptx0_def ptx_new_def)

lemma ptx_ready0: "wf_table tb \<Longrightarrow> ptx_ready ref_view ''kv'' (ptx0 w) (ref_begin w tb)"
  by (simp add: ptx_ready_def ready_tx0)

subsection \<open>The contract\<close>



text \<open>
  Compare-and-set is exclusive: after a successful \<^verbatim>\<open>putc\<close> on an old value, a second \<^verbatim>\<open>putc\<close> on the
  same old value fails with \<^verbatim>\<open>TransactionConditionNotMet\<close> and the first value stays.
\<close>

theorem ptx_putc_exclusive:
  assumes "pg_backend srv t pv" "ptx_ready pv t p s" "pwrite p" "v \<noteq> old"
    "ptx_call srv (KPutc k v (Some old)) (p, s) = (Ok RUnit, p1, s1)"
  shows "fst (ptx_call srv (KPutc k v' (Some old)) (p1, s1)) = Err TransactionConditionNotMet \<and>
    map_of (pv_table pv (snd (snd (ptx_call srv (KPutc k v' (Some old)) (p1, s1))))) k = Some v"
  using kv_contract.second_putc_fails [OF ptx_contract [OF assms(1)], of "(p, s)" k v old v'] assms(2-5)
  by simp

lemma ptx_putc_exclusive_witness:
  "\<exists>p1 s1. ptx_call (ref_server ''kv'') (KPutc [1] [8] (Some [7])) (ptx0 True, ref_begin True [([1], [7])]) =
      (Ok RUnit, p1, s1) \<and>
    fst (ptx_call (ref_server ''kv'') (KPutc [1] [9] (Some [7])) (p1, s1)) = Err TransactionConditionNotMet"
proof -
  have wf: "wf_table [([1], [7])]" by simp
  let ?c = "(ptx0 True, ref_begin True [([1], [7])])"
  let ?r = "ptx_call (ref_server ''kv'') (KPutc [1] [8] (Some [7])) ?c"
  have a: "fst ?r = Ok RUnit"
    using kv_contract.step_answer [OF ptx_contract [OF ref.pg_backend_axioms [of "''kv''"]], of ?c]
      ptx_ready0 [OF wf, of True] by (simp add: kv_step_def)
  obtain p1 s1 where run: "?r = (Ok RUnit, p1, s1)" using a by (metis prod.collapse)
  show ?thesis
    using ptx_putc_exclusive [OF ref.pg_backend_axioms [of "''kv''"] ptx_ready0 [OF wf, of True] _ _ run]
      run by simp
qed

subsection \<open>Guards\<close>

lemmas guard_defs = ptx_exists_def ptx_get_def ptx_getm_def ptx_set_def ptx_put_def ptx_putc_def ptx_del_def
  ptx_delc_def ptx_delr_def ptx_keys_def ptx_keysr_def ptx_scan_def ptx_scanr_def ptx_getr_def
  ptx_count_def versioned_def check_version_def guarded_def finish_def

lemma finished_refuses:
  "offered op \<Longrightarrow> run_ptx srv (p\<lparr>fin := True\<rparr>) op s = (Err TransactionFinished, s)"
  by (cases op) (simp_all add: guard_defs ptx_lock_def ptx_lock_write_def)

lemma readonly_refuses:
  "\<lbrakk>offered op; is_write op\<rbrakk> \<Longrightarrow>
     run_ptx srv (p\<lparr>fin := False, pwrite := False\<rparr>) op s = (Err TransactionReadonly, s)"
  by (cases op) (simp_all add: guard_defs ptx_lock_write_def)

text \<open>
  C25. The guards stand in one order and keep the server out: a versioned read is refused as
  unsupported whatever the state; else a finished wrapper answers \<^verbatim>\<open>TransactionFinished\<close>; else a
  write on a read-only wrapper answers \<^verbatim>\<open>TransactionReadonly\<close>; in all three cases the session is not
  touched.
\<close>

theorem ptx_guards:
  assumes "offered op"
  shows "run_ptx srv (p\<lparr>fin := True\<rparr>) op s = (Err TransactionFinished, s) \<and>
   (is_write op \<longrightarrow> run_ptx srv (p\<lparr>fin := False, pwrite := False\<rparr>) op s = (Err TransactionReadonly, s)) \<and>
   ptx_exists srv p k (Some n) s = (Err KvsUnsupportedVersionedQueries, s) \<and>
   ptx_get srv p k (Some n) s = (Err KvsUnsupportedVersionedQueries, s) \<and>
   ptx_getm srv p ks (Some n) s = (Err KvsUnsupportedVersionedQueries, s) \<and>
   ptx_keys srv p a b l m (Some n) s = (Err KvsUnsupportedVersionedQueries, s) \<and>
   ptx_keysr srv p a b l m (Some n) s = (Err KvsUnsupportedVersionedQueries, s) \<and>
   ptx_scan srv p a b l m (Some n) s = (Err KvsUnsupportedVersionedQueries, s) \<and>
   ptx_scanr srv p a b l m (Some n) s = (Err KvsUnsupportedVersionedQueries, s) \<and>
   ptx_getr srv p a b (Some n) s = (Err KvsUnsupportedVersionedQueries, s) \<and>
   ptx_count srv p a b (Some n) s = (Err KvsUnsupportedVersionedQueries, s) \<and>
   ptx_commit srv (p\<lparr>fin := True\<rparr>) s = (Err TransactionFinished, p\<lparr>fin := True\<rparr>, s) \<and>
   ptx_cancel srv (p\<lparr>fin := True\<rparr>) s = (Err TransactionFinished, p\<lparr>fin := True\<rparr>, s) \<and>
   ptx_new_save_point srv (p\<lparr>fin := True\<rparr>) s = (Err TransactionFinished, p\<lparr>fin := True\<rparr>, s) \<and>
   ptx_release_last_save_point srv (p\<lparr>fin := True\<rparr>) s =
     (Err TransactionFinished, p\<lparr>fin := True\<rparr>, s) \<and>
   ptx_rollback_to_save_point srv (p\<lparr>fin := True\<rparr>) s =
     (Err TransactionFinished, p\<lparr>fin := True\<rparr>, s)"
  by (simp add: finished_refuses [OF assms] readonly_refuses [OF assms] guard_defs ptx_commit_def ptx_cancel_def ptx_new_save_point_def ptx_savepoint_def
      ptx_release_last_save_point_def ptx_rollback_to_save_point_def ptx_lock_def)

lemma ptx_guards_witness:
  "run_ptx (ref_server ''kv'') ((ptx0 True)\<lparr>fin := True\<rparr>) (KSet [1] [1]) (ref_begin True []) =
     (Err TransactionFinished, ref_begin True []) \<and>
   run_ptx (ref_server ''kv'') ((ptx0 True)\<lparr>fin := False, pwrite := False\<rparr>) (KSet [1] [1])
     (ref_begin True []) = (Err TransactionReadonly, ref_begin True [])"
  using ptx_guards [of "KSet [1] [1]" "ref_server ''kv''" "ptx0 True" "ref_begin True []"] by simp

subsection \<open>Byte counts\<close>

lemma sum_u64_of_nat: "sum_u64 ns = of_nat (sum_list ns)"
proof -
  have "foldl (\<lambda>a n. a + of_nat n) x ns = x + (of_nat (sum_list ns) :: u64)" for x
    by (induction ns arbitrary: x) (simp_all add: add.assoc)
  then show ?thesis by (simp add: sum_u64_def)
qed

text \<open>
  The byte counts a scan reports are the total lengths of the keys and of the values it returns,
  modulo 2^64, and the counts of a batch read are the number of the values found and their bytes.
\<close>

lemma byte_counts:
  "unat (sr_key_bytes (scan_result_of ps)) = length (concat (map fst ps)) mod 2 ^ 64 \<and>
   unat (sr_value_bytes (scan_result_of ps)) = length (concat (map snd ps)) mod 2 ^ 64 \<and>
   unat (kr_key_bytes (keys_result_of ks)) = length (concat ks) mod 2 ^ 64 \<and>
   unat (gr_records (get_multi_result_of vs)) = length (List.map_filter (\<lambda>v. v) vs) mod 2 ^ 64 \<and>
   unat (gr_value_bytes (get_multi_result_of vs)) =
     length (concat (List.map_filter (\<lambda>v. v) vs)) mod 2 ^ 64"
proof -
  have "sum_list (map (\<lambda>v. case v of None \<Rightarrow> 0 | Some b \<Rightarrow> length b) vs) =
      length (concat (List.map_filter (\<lambda>v. v) vs))"
    by (induction vs) (auto simp: map_filter_def split: option.splits)
  moreover have "length (filter (\<lambda>v. v \<noteq> None) vs) = length (List.map_filter (\<lambda>v. v) vs)"
    by (induction vs) (auto simp: map_filter_def)
  ultimately show ?thesis
    by (simp add: scan_result_of_def keys_result_of_def get_multi_result_of_def sum_u64_of_nat
        unat_of_nat length_concat comp_def)
qed

subsection \<open>Counting commits and rollbacks\<close>

datatype closer = PCommit | PCancel

fun run_closer :: "'s pg_server \<Rightarrow> closer \<Rightarrow> pg_ptx \<times> 's \<Rightarrow> unit kresult \<times> pg_ptx \<times> 's" where
  "run_closer srv PCommit (p, s) = ptx_commit srv p s"
| "run_closer srv PCancel (p, s) = ptx_cancel srv p s"

lemma end_no_panic: "fst (end_result r) \<noteq> Panic"
  by (auto simp: end_result_def split: prod.splits sum.splits)

lemma tx_end_no_panic:
  "conn tx = Some c \<Longrightarrow> fst (tx_commit srv tx s) \<noteq> Panic \<and> fst (tx_cancel srv tx s) \<noteq> Panic"
  by (cases c) (simp_all add: tx_commit_def tx_cancel_def tx_end_def commit_inner_def cancel_inner_def
      case_prod_beta end_no_panic)

definition ended :: "pg_ptx \<Rightarrow> u64" where
  "ended p = tx_committed p + tx_rolled_back p"

lemma run_closer_ends:
  assumes "\<not> fin p" "inner p = Some tx" "conn tx \<noteq> None"
  shows "fin (fst (snd (run_closer srv c (p, s)))) \<and>
    ended (fst (snd (run_closer srv c (p, s)))) = ended p + 1"
proof -
  obtain k where k: "conn tx = Some k" using assms(3) by blast
  show ?thesis
    using assms(1,2) tx_end_no_panic [OF k, of srv s]
    by (cases c) (auto simp: ptx_commit_def ptx_cancel_def ended_def without_inner_def Let_def
        split: prod.split outcome.split)
qed

lemma run_closer_fin: "fin p \<Longrightarrow> run_closer srv c (p, s) = (Err TransactionFinished, p, s)"
  by (cases c) (simp_all add: ptx_commit_def ptx_cancel_def)

lemma steps_closer_fin: "fin p \<Longrightarrow> fst (snd (steps_of (run_closer srv) cs (p, s))) = p"
proof (induction cs)
  case (Cons c cs)
  then show ?case by (simp add: run_closer_fin case_prod_beta)
qed simp

lemma ended_drop: "ended (ptx_drop p) = (if fin p then ended p else ended p + 1)"
  by (simp add: ptx_drop_def ended_def without_inner_def Let_def split: option.split)

lemma ptx_counted_once:
  assumes "\<not> fin p" "inner p = Some tx" "conn tx \<noteq> None"
  shows "ended (ptx_drop (fst (snd (steps_of (run_closer srv) cs (p, s))))) = ended p + 1"
proof (cases cs)
  case Nil
  then show ?thesis using assms(1) by (simp add: ended_drop)
next
  case (Cons c cs')
  obtain r p1 s1 where 1: "run_closer srv c (p, s) = (r, p1, s1)" by (metis prod.collapse)
  then have "fin p1" "ended p1 = ended p + 1" using run_closer_ends [OF assms, of srv c s] by simp_all
  then show ?thesis
    using Cons 1 steps_closer_fin [of p1 srv cs' s1] by (simp add: case_prod_beta ended_drop)
qed

text \<open>Everything a caller can do with the wrapper between its creation and its drop.\<close>

datatype ptx_event = EvOp kv_op | EvSave | EvRelease | EvRollback | EvClose closer

fun run_event :: "'s pg_server \<Rightarrow> ptx_event \<Rightarrow> pg_ptx \<times> 's \<Rightarrow> pg_ptx \<times> 's" where
  "run_event srv (EvOp op) c = snd (ptx_call srv op c)"
| "run_event srv EvSave (p, s) = snd (ptx_new_save_point srv p s)"
| "run_event srv EvRelease (p, s) = snd (ptx_release_last_save_point srv p s)"
| "run_event srv EvRollback (p, s) = snd (ptx_rollback_to_save_point srv p s)"
| "run_event srv (EvClose k) c = snd (run_closer srv k c)"

text \<open>
  The books of one wrapper: open, with \<open>n\<close> ends and \<open>a\<close> active transactions counted, or closed, with
  one more end and one active transaction less.
\<close>

definition in_books :: "u64 \<Rightarrow> u64 \<Rightarrow> pg_ptx \<Rightarrow> bool" where
  "in_books n a p \<longleftrightarrow>
     (\<not> fin p \<and> (\<exists>tx. inner p = Some tx \<and> conn tx \<noteq> None) \<and> ended p = n \<and> active_count p = a) \<or>
     (fin p \<and> inner p = None \<and> ended p = n + 1 \<and> active_count p = a - 1)"

lemma savepoint_keeps:
  "conn (fst (snd (new_save_point srv tx s))) = conn tx \<and>
   tx_active (fst (snd (new_save_point srv tx s))) = tx_active tx"
  "conn (fst (snd (release_last_save_point srv tx s))) = conn tx \<and>
   tx_active (fst (snd (release_last_save_point srv tx s))) = tx_active tx"
  "conn (fst (snd (rollback_to_save_point srv tx s))) = conn tx \<and>
   tx_active (fst (snd (rollback_to_save_point srv tx s))) = tx_active tx"
  by (auto simp: new_save_point_def push_savepoint_name_def release_last_save_point_def
      rollback_to_save_point_def pop_savepoint_name_def push_back_def Let_def split: prod.split outcome.split)

lemma ptx_savepoint_books:
  assumes "in_books n a p" "\<And>tx s. conn (fst (snd (f tx s))) = conn tx \<and> tx_active (fst (snd (f tx s))) = tx_active tx"
  shows "in_books n a (fst (snd (ptx_savepoint f p s)))"
  using assms(1) assms(2) [of "the (inner p)" s]
  by (cases "f (the (inner p)) s")
    (auto simp: in_books_def ptx_savepoint_def ptx_lock_def ended_def active_count_def Let_def)

lemma tx_end_counts:
  assumes "conn tx \<noteq> None"
  shows "conn (fst (snd (tx_commit srv tx s))) = None \<and>
      tx_active (fst (snd (tx_commit srv tx s))) = tx_active tx - 1"
    and "conn (fst (snd (tx_cancel srv tx s))) = None \<and>
      tx_active (fst (snd (tx_cancel srv tx s))) = tx_active tx - 1"
  using assms
  by (auto simp: tx_commit_def tx_cancel_def tx_end_def release_active_def case_prod_beta)

lemma closer_books: "in_books n a p \<Longrightarrow> in_books n a (fst (snd (run_closer srv k (p, s))))"
proof (cases "fin p")
  case False
  assume "in_books n a p"
  with False obtain tx where tx: "inner p = Some tx" "conn tx \<noteq> None" "ended p = n" "active_count p = a"
    by (auto simp: in_books_def)
  then obtain c where c: "conn tx = Some c" by blast
  have "fin (fst (snd (run_closer srv k (p, s)))) \<and> ended (fst (snd (run_closer srv k (p, s)))) = n + 1"
    using run_closer_ends [OF False tx(1,2), of srv k s] tx(3) by simp
  moreover have "inner (fst (snd (run_closer srv k (p, s)))) = None \<and>
      active_count (fst (snd (run_closer srv k (p, s)))) = a - 1"
    using False tx tx_end_counts [OF tx(2), of srv s] tx_end_no_panic [OF c, of srv s]
    by (cases k) (auto simp: ptx_commit_def ptx_cancel_def without_inner_def active_count_def tx_drop_def
        is_open_def Let_def split: prod.split outcome.split)
  ultimately show ?thesis by (simp add: in_books_def)
qed (simp add: run_closer_fin)

lemma event_books: "in_books n a (fst c) \<Longrightarrow> in_books n a (fst (run_event srv e c))"
proof (cases c)
  case (Pair p s)
  assume "in_books n a (fst c)"
  with Pair show ?thesis
    by (cases e) (simp_all add: ptx_call_def case_prod_beta closer_books ptx_savepoint_books savepoint_keeps
        ptx_new_save_point_def ptx_release_last_save_point_def ptx_rollback_to_save_point_def)
qed

lemma events_books: "in_books n a (fst c) \<Longrightarrow> in_books n a (fst (fold (run_event srv) es c))"
  by (induction es arbitrary: c) (simp_all add: event_books)

lemma drop_books:
  assumes "in_books n a p"
  shows "ended (ptx_drop p) = n + 1 \<and> active_count (ptx_drop p) = a - 1 \<and> inner (ptx_drop p) = None"
  using assms
  by (auto simp: in_books_def ptx_drop_def ended_def active_count_def without_inner_def tx_drop_def
      release_active_def is_open_def Let_def)

end
