(* ===== verification/Pg_Tx_Conc.thy ===== *)
theory Pg_Tx_Conc
  imports Pg_Tx
begin

section \<open>Overlapping calls on one wrapper (src/pg_tx.rs)\<close>

text \<open>
  \<^verbatim>\<open>PgTx\<close> is shared: any number of tasks may call it at once, and the runtime may drop a call's
  future at any of its await points.  The calls are step sequences over the atomic flag, the
  mutex and the option inside it, interleaved in any order.  The first, relaxed load of the flag
  may read a stale \<open>False\<close>; the swap reads the latest value.  Counters count this wrapper's share.
\<close>

subsection \<open>Data\<close>

datatype close_kind = KCommit | KCancel

datatype call = Use | Close close_kind

text \<open>
  Where a task stands: waiting for the lock, holding it, using the transaction under the lock,
  having won the swap, awaiting the server's answer to its \<^verbatim>\<open>COMMIT\<close> or \<^verbatim>\<open>ROLLBACK\<close> after the lock
  is released, finished (refused or served), or dropped at an await.
\<close>

datatype pc =
    Idle
  | Waiting call
  | Holding call
  | Using
  | Swapped close_kind
  | InFlight close_kind
  | Refused
  | Served
  | Closed close_kind bool
  | Dropped

record wrapper =
  flag :: bool
  owner :: "nat option"
  present :: bool
  counted_c :: nat
  counted_r :: nat
  gone :: bool
  task :: "nat \<Rightarrow> pc"
  sent :: "(nat \<times> close_kind) list"

definition init_wrapper :: wrapper where
  "init_wrapper = \<lparr>flag = False, owner = None, present = True, counted_c = 0, counted_r = 0,
     gone = False, task = (\<lambda>_. Idle), sent = []\<rparr>"

definition at :: "nat \<Rightarrow> pc \<Rightarrow> wrapper \<Rightarrow> wrapper" where
  "at i q w = w\<lparr>task := (task w)(i := q)\<rparr>"

text \<open>A commit that fails is counted as a rollback, and so is every cancel.\<close>

definition count_close :: "close_kind \<Rightarrow> bool \<Rightarrow> wrapper \<Rightarrow> wrapper" where
  "count_close k ok w =
     (if k = KCommit \<and> ok then w\<lparr>counted_c := counted_c w + 1\<rparr>
      else w\<lparr>counted_r := counted_r w + 1\<rparr>)"

fun active :: "pc \<Rightarrow> bool" where
  "active (Waiting c) = True"
| "active (Holding c) = True"
| "active Using = True"
| "active (Swapped k) = True"
| "active (InFlight k) = True"
| "active _ = False"

subsection \<open>Steps\<close>

inductive step :: "wrapper \<Rightarrow> wrapper \<Rightarrow> bool" where
  start: "\<lbrakk>task w i = Idle; \<not> gone w\<rbrakk> \<Longrightarrow> step w (at i (Waiting c) w)"
| start_done: "\<lbrakk>task w i = Idle; \<not> gone w; flag w\<rbrakk> \<Longrightarrow> step w (at i Refused w)"
| acquire: "\<lbrakk>task w i = Waiting c; owner w = None\<rbrakk> \<Longrightarrow> step w (at i (Holding c) w\<lparr>owner := Some i\<rparr>)"
| use_none: "\<lbrakk>task w i = Holding Use; \<not> present w\<rbrakk> \<Longrightarrow> step w (at i Refused w\<lparr>owner := None\<rparr>)"
| use_some: "\<lbrakk>task w i = Holding Use; present w\<rbrakk> \<Longrightarrow> step w (at i Using w)"
| use_end: "task w i = Using \<Longrightarrow> step w (at i Served w\<lparr>owner := None\<rparr>)"
| swap_lost: "\<lbrakk>task w i = Holding (Close k); flag w\<rbrakk> \<Longrightarrow> step w (at i Refused w\<lparr>owner := None\<rparr>)"
| swap_won: "\<lbrakk>task w i = Holding (Close k); \<not> flag w\<rbrakk> \<Longrightarrow> step w (at i (Swapped k) w\<lparr>flag := True\<rparr>)"
| take_some: "\<lbrakk>task w i = Swapped k; present w\<rbrakk> \<Longrightarrow>
    step w (at i (InFlight k) w\<lparr>present := False, owner := None, sent := (i, k) # sent w\<rparr>)"
| take_none: "\<lbrakk>task w i = Swapped k; \<not> present w\<rbrakk> \<Longrightarrow> step w (at i Served w\<lparr>owner := None\<rparr>)"
| answer: "task w i = InFlight k \<Longrightarrow> step w (count_close k ok (at i (Closed k ok) w))"
| drop_waiting: "task w i = Waiting c \<Longrightarrow> step w (at i Dropped w)"
| drop_using: "task w i = Using \<Longrightarrow> step w (at i Dropped w\<lparr>owner := None\<rparr>)"
| drop_flight: "task w i = InFlight k \<Longrightarrow> step w (at i Dropped w)"
| drop_wrapper: "\<lbrakk>\<not> gone w; \<forall>i. \<not> active (task w i)\<rbrakk> \<Longrightarrow>
    step w (if flag w then w\<lparr>gone := True\<rparr> else w\<lparr>gone := True, counted_r := counted_r w + 1\<rparr>)"

inductive reachable :: "wrapper \<Rightarrow> bool" where
  reach_init: "reachable init_wrapper"
| reach_step: "\<lbrakk>reachable w; step w w'\<rbrakk> \<Longrightarrow> reachable w'"

inductive_cases stepE: "step w w'"

subsection \<open>The invariant\<close>

fun holds_lock :: "pc \<Rightarrow> bool" where
  "holds_lock (Holding c) = True"
| "holds_lock Using = True"
| "holds_lock (Swapped k) = True"
| "holds_lock _ = False"

fun is_closed :: "pc \<Rightarrow> bool" where
  "is_closed (Closed k ok) = True"
| "is_closed _ = False"

fun in_flight :: "pc \<Rightarrow> bool" where
  "in_flight (InFlight k) = True"
| "in_flight _ = False"

fun is_swapped :: "pc \<Rightarrow> bool" where
  "is_swapped (Swapped k) = True"
| "is_swapped _ = False"

text \<open>Exactly the tasks at the critical points hold the lock.\<close>

definition inv_lock :: "wrapper \<Rightarrow> bool" where
  "inv_lock w \<longleftrightarrow> (\<forall>i. holds_lock (task w i) \<longleftrightarrow> owner w = Some i)"

text \<open>The flag is set from the swap on, and the transaction is present until it is taken.\<close>

definition inv_flag :: "wrapper \<Rightarrow> bool" where
  "inv_flag w \<longleftrightarrow> (\<not> present w \<longrightarrow> flag w) \<and>
     (\<forall>i. is_swapped (task w i) \<longrightarrow> flag w \<and> present w) \<and>
     (flag w \<longrightarrow> present w \<longrightarrow> (\<exists>i. is_swapped (task w i))) \<and>
     (\<forall>i. task w i = Using \<longrightarrow> present w)"

text \<open>Something was sent iff the transaction is gone, by one task, which awaits, has or lost the answer.\<close>

definition inv_sent :: "wrapper \<Rightarrow> bool" where
  "inv_sent w \<longleftrightarrow> (present w \<longleftrightarrow> sent w = []) \<and> length (sent w) \<le> 1 \<and>
     (\<forall>i. in_flight (task w i) \<or> is_closed (task w i) \<longrightarrow> fst ` set (sent w) = {i}) \<and>
     (\<forall>i \<in> fst ` set (sent w). in_flight (task w i) \<or> is_closed (task w i) \<or> task w i = Dropped)"

definition answered :: "wrapper \<Rightarrow> nat" where
  "answered w = length (filter (\<lambda>x. is_closed (task w (fst x))) (sent w))"

definition inv_count :: "wrapper \<Rightarrow> bool" where
  "inv_count w \<longleftrightarrow> (gone w \<longrightarrow> (\<forall>i. \<not> active (task w i))) \<and>
     counted_c w + counted_r w = answered w + (if gone w \<and> \<not> flag w then 1 else 0)"

definition inv :: "wrapper \<Rightarrow> bool" where
  "inv w \<longleftrightarrow> inv_lock w \<and> inv_flag w \<and> inv_sent w \<and> inv_count w"

lemma at_simps [simp]:
  "flag (at i q w) = flag w" "owner (at i q w) = owner w" "present (at i q w) = present w"
  "counted_c (at i q w) = counted_c w" "counted_r (at i q w) = counted_r w" "gone (at i q w) = gone w"
  "task (at i q w) = (task w)(i := q)" "sent (at i q w) = sent w"
  by (simp_all add: at_def)

lemma count_close_simps [simp]:
  "flag (count_close k ok w) = flag w" "owner (count_close k ok w) = owner w"
  "present (count_close k ok w) = present w" "gone (count_close k ok w) = gone w"
  "task (count_close k ok w) = task w" "sent (count_close k ok w) = sent w"
  "counted_c (count_close k ok w) + counted_r (count_close k ok w) = counted_c w + counted_r w + 1"
  by (simp_all add: count_close_def)

lemma inv_init: "inv init_wrapper"
  by (simp add: inv_def init_wrapper_def inv_lock_def inv_flag_def inv_sent_def inv_count_def
      answered_def)

text \<open>One task moves: it keeps the lock or its absence, takes the free lock, or gives its lock up.\<close>

lemma lock_move:
  assumes "inv_lock w" "task w' = (task w)(i := q)"
    "holds_lock q = holds_lock (task w i) \<and> owner w' = owner w \<or>
     holds_lock q \<and> owner w = None \<and> owner w' = Some i \<or>
     holds_lock (task w i) \<and> \<not> holds_lock q \<and> owner w' = None"
  shows "inv_lock w'"
  unfolding inv_lock_def
proof
  fix j
  have j: "holds_lock (task w j) = (owner w = Some j)" and i: "holds_lock (task w i) = (owner w = Some i)"
    using assms(1) by (simp_all add: inv_lock_def)
  show "holds_lock (task w' j) = (owner w' = Some j)"
    using assms(2,3) i j by (cases "j = i") auto
qed

lemma step_lock: "\<lbrakk>inv_lock w; step w w'\<rbrakk> \<Longrightarrow> inv_lock w'"
proof (erule step.cases, goal_cases)
  case (15 v)
  then show ?case by (simp add: inv_lock_def)
qed (auto intro!: lock_move [of w])

lemma flag_move:
  assumes "inv_flag w" "task w' = (task w)(i := q)" "flag w' = flag w" "present w' = present w"
    "\<not> is_swapped (task w i)" "\<not> is_swapped q" "q = Using \<longrightarrow> present w"
  shows "inv_flag w'"
proof -
  have "is_swapped (task w' j) = is_swapped (task w j)" for j
    using assms(2,5,6) by simp
  moreover have "task w' j = Using \<Longrightarrow> task w j = Using \<or> present w" for j
    using assms(2,7) by (auto split: if_splits)
  ultimately show ?thesis using assms(1,3,4) unfolding inv_flag_def by metis
qed

lemma one_holder: "\<lbrakk>inv_lock w; holds_lock (task w i); holds_lock (task w j)\<rbrakk> \<Longrightarrow> j = i"
  by (simp add: inv_lock_def)

lemma swapped_holds: "is_swapped q \<Longrightarrow> holds_lock q"
  by (cases q) simp_all

lemma step_flag:
  assumes "inv_lock w" "inv_flag w" "step w w'"
  shows "inv_flag w'"
  using assms(3)
proof cases
  case (swap_won i k)
  have "present w" using swap_won(3) assms(2) unfolding inv_flag_def by blast
  moreover have "is_swapped (task w' i)" "flag w'" "present w' = present w" by (simp_all add: swap_won(1))
  moreover have "task w' j = Using \<Longrightarrow> present w" for j using \<open>present w\<close> by simp
  ultimately show ?thesis unfolding inv_flag_def by blast
next
  case (take_some i k)
  have "\<not> is_swapped (task w' j) \<and> task w' j \<noteq> Using" for j
  proof (cases "j = i")
    case False
    have "holds_lock (task w i)" by (simp add: take_some(2))
    then have free: "\<not> holds_lock (task w j)" using one_holder [OF assms(1)] False by blast
    then have "\<not> is_swapped (task w j)" using swapped_holds by blast
    moreover have "task w j \<noteq> Using" using free by (metis holds_lock.simps(2))
    moreover have "task w' j = task w j" using False by (simp add: take_some(1))
    ultimately show ?thesis by simp
  qed (simp add: take_some(1))
  moreover have "is_swapped (task w i)" by (simp add: take_some(2))
  then have "flag w" using assms(2) unfolding inv_flag_def by blast
  moreover have "flag w' = flag w" "\<not> present w'" by (simp_all add: take_some(1))
  ultimately show ?thesis by (simp add: inv_flag_def)
next
  case (take_none i k)
  then have "is_swapped (task w i)" by simp
  then have "present w" using assms(2) unfolding inv_flag_def by blast
  with take_none show ?thesis by simp
next
  case drop_wrapper
  then have "task w' = task w" "flag w' = flag w" "present w' = present w" by simp_all
  then show ?thesis using assms(2) unfolding inv_flag_def by metis
qed (auto intro!: flag_move [OF assms(2)])

lemma sent_move:
  assumes "inv_sent w" "task w' = (task w)(i := q)" "sent w' = sent w" "present w' = present w"
    "\<not> in_flight q \<and> \<not> is_closed q \<and> \<not> in_flight (task w i) \<and> \<not> is_closed (task w i) \<and> task w i \<noteq> Dropped \<or>
     in_flight (task w i) \<and> (is_closed q \<or> q = Dropped)"
  shows "inv_sent w'"
  using assms unfolding inv_sent_def by (auto split: if_splits)

lemma step_sent:
  assumes "inv_lock w" "inv_flag w" "inv_sent w" "step w w'"
  shows "inv_sent w'"
  using assms(4)
proof cases
  case (take_some i k)
  have "sent w = []" using take_some(3) assms(3) by (simp add: inv_sent_def)
  moreover have "\<not> in_flight (task w j) \<and> \<not> is_closed (task w j)" for j
    using assms(3) \<open>sent w = []\<close> by (auto simp: inv_sent_def)
  ultimately show ?thesis using take_some by (auto simp: inv_sent_def)
next
  case drop_wrapper
  with assms(3) show ?thesis by (simp add: inv_sent_def)
qed (auto intro!: sent_move [OF assms(3)])

lemma answered_move:
  assumes "task w' = (task w)(i := q)" "sent w' = sent w" "is_closed q = is_closed (task w i)"
  shows "answered w' = answered w"
  using assms by (auto simp: answered_def intro!: arg_cong [where f = length] filter_cong)

lemma count_move:
  assumes "inv_count w" "task w' = (task w)(i := q)" "sent w' = sent w"
    "is_closed q = is_closed (task w i)" "gone w' = gone w" "flag w' = flag w \<or> \<not> gone w"
    "counted_c w' = counted_c w" "counted_r w' = counted_r w" "active (task w i) \<or> \<not> gone w"
  shows "inv_count w'"
  using assms(1,5-9) answered_move [OF assms(2-4)] by (auto simp: inv_count_def)

lemma answer_counts:
  assumes "inv_sent w" "task w i = InFlight k"
  shows "answered (count_close k ok (at i (Closed k ok) w)) = answered w + 1"
proof -
  have "fst ` set (sent w) = {i}" "length (sent w) \<le> 1"
    using assms by (auto simp: inv_sent_def dest!: spec [of _ i])
  then obtain k' where "sent w = [(i, k')]"
    by (cases "sent w"; cases "tl (sent w)") auto
  with assms(2) show ?thesis by (simp add: answered_def)
qed

lemma step_count:
  assumes "inv_sent w" "inv_count w" "step w w'"
  shows "inv_count w'"
  using assms(3)
proof cases
  case (take_some i k)
  have "sent w = []" using take_some(3) assms(1) by (simp add: inv_sent_def)
  with take_some assms(2) show ?thesis
    by (auto simp: inv_count_def answered_def dest!: spec [of _ i])
next
  case (swap_won i k)
  then have "\<not> gone w" using assms(2) by (auto simp: inv_count_def dest!: spec [of _ i])
  with swap_won show ?thesis by (auto intro!: count_move [OF assms(2)])
next
  case (answer i k ok)
  then have "\<not> gone w" using assms(2) by (auto simp: inv_count_def dest!: spec [of _ i])
  with answer answer_counts [OF assms(1) answer(2), of ok] assms(2) show ?thesis
    by (simp add: inv_count_def)
next
  case drop_wrapper
  with assms(2) show ?thesis by (auto simp: inv_count_def answered_def)
qed (auto intro!: count_move [OF assms(2)])

lemma reachable_inv: "reachable w \<Longrightarrow> inv w"
proof (induction rule: reachable.induct)
  case (reach_step w w')
  then show ?case
    unfolding inv_def using step_lock step_flag step_sent step_count by blast
qed (rule inv_init)

subsection \<open>A run\<close>

text \<open>Task 0 commits; the states up to the moment its \<^verbatim>\<open>COMMIT\<close> is on the wire.\<close>

definition in_commit :: wrapper where
  "in_commit = (init_wrapper\<lparr>task := (\<lambda>_. Idle)(0 := InFlight KCommit), flag := True, present := False,
     sent := [(0, KCommit)]\<rparr>)"

lemma reachable_in_commit: "reachable in_commit"
proof -
  let ?c = "Close KCommit"
  define w1 where "w1 = at 0 (Waiting ?c) init_wrapper"
  define w2 where "w2 = (at 0 (Holding ?c) w1)\<lparr>owner := Some 0\<rparr>"
  define w3 where "w3 = (at 0 (Swapped KCommit) w2)\<lparr>flag := True\<rparr>"
  define w4 where "w4 = (at 0 (InFlight KCommit) w3)\<lparr>present := False, owner := None, sent := (0, KCommit) # sent w3\<rparr>"
  note defs = w1_def w2_def w3_def w4_def init_wrapper_def
  have "step init_wrapper w1" unfolding w1_def by (rule step.start) (simp_all add: init_wrapper_def)
  moreover have "step w1 w2" unfolding w2_def by (rule step.acquire) (simp_all add: defs)
  moreover have "step w2 w3" unfolding w3_def by (rule step.swap_won) (simp_all add: defs)
  moreover have "step w3 w4" unfolding w4_def by (rule step.take_some) (simp_all add: defs)
  ultimately have "reachable w4" by (meson reach_init reach_step)
  moreover have "w4 = in_commit" by (simp add: defs in_commit_def at_def fun_upd_def cong: if_cong)
  ultimately show ?thesis by simp
qed

subsection \<open>Properties\<close>



text \<open>
  C23. The counters: a wrapper is never counted twice, and once it is dropped it has been counted
  exactly once, unless the future of the call that sent the \<^verbatim>\<open>COMMIT\<close> or \<^verbatim>\<open>ROLLBACK\<close> was dropped
  before its answer.
\<close>

theorem counted_at_most_once:
  assumes "reachable w"
  shows "counted_c w + counted_r w \<le> 1 \<and>
    (gone w \<and> (\<forall>x \<in> set (sent w). task w (fst x) \<noteq> Dropped) \<longrightarrow> counted_c w + counted_r w = 1)"
proof -
  have l: "inv_flag w" and s: "inv_sent w" and c: "inv_count w"
    using reachable_inv [OF assms] by (simp_all add: inv_def)
  have active: "is_swapped q \<Longrightarrow> active q" "in_flight q \<Longrightarrow> active q" for q by (cases q; simp)+
  have flagged: "flag w" if "sent w \<noteq> []" using that s l unfolding inv_sent_def inv_flag_def by blast
  have le: "answered w \<le> length (sent w)" by (simp add: answered_def)
  have len: "length (sent w) \<le> 1" using s unfolding inv_sent_def by blast
  show ?thesis
  proof (cases "sent w")
    case Nil
    have "\<not> flag w" if "gone w"
      using that c l s Nil active(1) unfolding inv_count_def inv_flag_def inv_sent_def by metis
    then show ?thesis using c Nil le unfolding inv_count_def by auto
  next
    case (Cons x r)
    then have r: "sent w = [x]" using len by (cases r) auto
    have "is_closed (task w (fst x))" if "gone w" "task w (fst x) \<noteq> Dropped"
    proof -
      have "in_flight (task w (fst x)) \<or> is_closed (task w (fst x)) \<or> task w (fst x) = Dropped"
        using s r unfolding inv_sent_def by simp
      moreover have "\<not> in_flight (task w (fst x))"
        using that(1) c active(2) unfolding inv_count_def by blast
      ultimately show ?thesis using that(2) by blast
    qed
    then show ?thesis
      using c flagged r len le unfolding inv_count_def by (auto simp: answered_def)
  qed
qed

lemma counted_at_most_once_witness: "counted_c in_commit + counted_r in_commit \<le> 1"
  using counted_at_most_once [OF reachable_in_commit] by simp


lemma holder_moves:
  assumes h: "holds_lock (task w j) \<or> in_flight (task w j)"
  shows "\<exists>w'. step w w' \<and> task w' j \<noteq> task w j \<and> task w' j \<noteq> Dropped"
proof (cases "task w j")
  case (Holding c)
  show ?thesis
  proof (cases c)
    case Use
    with Holding step.use_none [of w j] step.use_some [of w j] show ?thesis
      by (cases "present w") (fastforce simp: at_def)+
  next
    case (Close k)
    with Holding step.swap_lost [of w j k] step.swap_won [of w j k] show ?thesis
      by (cases "flag w") (fastforce simp: at_def)+
  qed
next
  case Using
  with step.use_end [of w j] show ?thesis by (fastforce simp: at_def)
next
  case (Swapped k)
  with step.take_some [of w j k] step.take_none [of w j k] show ?thesis
    by (cases "present w") (fastforce simp: at_def)+
next
  case (InFlight k)
  show ?thesis
    by (rule exI [of _ "count_close k True (at j (Closed k True) w)"])
      (simp add: InFlight step.answer)
qed (use h in simp_all)

text \<open>
  C26. No deadlock: while any call is under way, some call can take a step of its own, with no future
  dropped.
\<close>

theorem some_call_can_step:
  assumes "reachable w" "active (task w i)"
  shows "\<exists>j w'. step w w' \<and> task w' j \<noteq> task w j \<and> task w' j \<noteq> Dropped"
proof -
  have lock: "inv_lock w" using reachable_inv [OF assms(1)] by (simp add: inv_def)
  show ?thesis
  proof (cases "holds_lock (task w i) \<or> in_flight (task w i)")
    case True
    then show ?thesis using holder_moves by blast
  next
    case False
    with assms(2) obtain c where c: "task w i = Waiting c" by (cases "task w i") auto
    show ?thesis
    proof (cases "owner w")
      case None
      then have "step w ((at i (Holding c) w)\<lparr>owner := Some i\<rparr>)" using c step.acquire by blast
      moreover have "task ((at i (Holding c) w)\<lparr>owner := Some i\<rparr>) i = Holding c" by simp
      moreover have "Holding c \<noteq> task w i" "Holding c \<noteq> Dropped" using c by simp_all
      ultimately show ?thesis by metis
    next
      case (Some j)
      then have "holds_lock (task w j)" using lock by (simp add: inv_lock_def)
      then show ?thesis using holder_moves by blast
    qed
  qed
qed

lemma some_call_can_step_witness:
  "\<exists>j w'. step in_commit w' \<and> task w' j \<noteq> task in_commit j \<and> task w' j \<noteq> Dropped"
  by (rule some_call_can_step [OF reachable_in_commit, of 0]) (simp add: in_commit_def)

end
