(* ===== verification/Pg_Tx_Linear.thy ===== *)
theory Pg_Tx_Linear
  imports Ptx_Props
begin

section \<open>Overlapping calls take effect one by one (src/pg_tx.rs)\<close>

text \<open>
  Calls of many tasks on one \<^verbatim>\<open>PgTx\<close>, interleaved at their await points, with the transaction, the
  session and the answers in the state.  The property is linearizability: the calls answer, and
  the wrapper ends, as if they had been made one after the other on the sequential wrapper of
  theory \<open>Pg_Tx\<close>, each at a moment between its start and its return.  The atomic flag is read as it
  is (theory \<open>Pg_Tx_Conc\<close> has the stale reads), and a call is dropped only while it waits for the
  lock: what the server has done for a future dropped later is unknown.
\<close>

subsection \<open>The sequential wrapper\<close>

fun call_event :: "'s pg_server \<Rightarrow> ptx_event \<Rightarrow> pg_ptx \<times> 's \<Rightarrow> kv_res kresult \<times> pg_ptx \<times> 's" where
  "call_event srv (EvOp op) c = ptx_call srv op c"
| "call_event srv EvSave (p, s) = apfst (map_ok (\<lambda>_. RUnit)) (ptx_new_save_point srv p s)"
| "call_event srv EvRelease (p, s) = apfst (map_ok (\<lambda>_. RUnit)) (ptx_release_last_save_point srv p s)"
| "call_event srv EvRollback (p, s) = apfst (map_ok (\<lambda>_. RUnit)) (ptx_rollback_to_save_point srv p s)"
| "call_event srv (EvClose k) c = apfst (map_ok (\<lambda>_. RUnit)) (run_closer srv k c)"

lemma call_event_run: "snd (call_event srv ev c) = run_event srv ev c"
  by (cases c; cases ev) simp_all

fun ev_ok :: "ptx_event \<Rightarrow> bool" where
  "ev_ok (EvOp op) = offered op"
| "ev_ok _ = True"

fun ev_close :: "ptx_event \<Rightarrow> closer option" where
  "ev_close (EvClose k) = Some k"
| "ev_close _ = None"

fun ev_write :: "ptx_event \<Rightarrow> bool" where
  "ev_write (EvOp op) = is_write op"
| "ev_write _ = False"

subsection \<open>The pieces of a call\<close>

text \<open>What a call does under the lock, on the transaction it finds there.\<close>

fun locked_call ::
  "((key \<times> val) list \<Rightarrow> (key \<times> val) list) \<Rightarrow> 's pg_server \<Rightarrow> ptx_event \<Rightarrow> pg_tx \<Rightarrow> 's \<Rightarrow>
     kv_res kresult \<times> pg_tx \<times> 's"
where
  "locked_call h srv (EvOp op) tx s = (let (r, s') = run_op h srv tx op s in (map_err to_kvs r, tx, s'))"
| "locked_call h srv EvSave tx s =
     apfst (\<lambda>r. map_ok (\<lambda>_. RUnit) (map_err to_kvs r)) (new_save_point srv tx s)"
| "locked_call h srv EvRelease tx s =
     apfst (\<lambda>r. map_ok (\<lambda>_. RUnit) (map_err to_kvs r)) (release_last_save_point srv tx s)"
| "locked_call h srv EvRollback tx s =
     apfst (\<lambda>r. map_ok (\<lambda>_. RUnit) (map_err to_kvs r)) (rollback_to_save_point srv tx s)"
| "locked_call h srv (EvClose k) tx s = (Err TransactionFinished, tx, s)"

text \<open>What a closing call does after the lock is released, with the transaction it has taken.\<close>

fun settle :: "'s pg_server \<Rightarrow> closer \<Rightarrow> pg_tx \<Rightarrow> pg_ptx \<times> 's \<Rightarrow> kv_res kresult \<times> pg_ptx \<times> 's" where
  "settle srv PCommit tx (p, s) =
     (case tx_commit srv tx s of
        (Ok _, tx', s') \<Rightarrow> (Ok RUnit, (without_inner tx' p)\<lparr>tx_committed := tx_committed p + 1\<rparr>, s')
      | (Err e, tx', s') \<Rightarrow> (Err (to_kvs e), (without_inner tx' p)\<lparr>tx_rolled_back := tx_rolled_back p + 1\<rparr>, s')
      | (Panic, tx', s') \<Rightarrow> (Panic, without_inner tx' p, s'))"
| "settle srv PCancel tx (p, s) =
     (case tx_cancel srv tx s of
        (Ok _, tx', s') \<Rightarrow> (Ok RUnit, (without_inner tx' p)\<lparr>tx_rolled_back := tx_rolled_back p + 1\<rparr>, s')
      | (Err e, tx', s') \<Rightarrow> (Err (to_kvs e), (without_inner tx' p)\<lparr>tx_rolled_back := tx_rolled_back p + 1\<rparr>, s')
      | (Panic, tx', s') \<Rightarrow> (Panic, without_inner tx' p, s'))"

lemma closer_settles:
  "\<lbrakk>\<not> fin p; inner p = Some tx\<rbrakk> \<Longrightarrow>
     call_event srv (EvClose k) (p, s) = settle srv k tx (p\<lparr>fin := True, inner := None\<rparr>, s)"
  by (cases k) (auto simp: ptx_commit_def ptx_cancel_def Let_def split: prod.split outcome.split)

lemma settle_closed:
  "\<lbrakk>settle srv k tx (p, s) = (r, p', s'); fin p\<rbrakk> \<Longrightarrow> fin p' \<and> inner p' = None"
  by (cases k) (auto simp: without_inner_def split: prod.splits outcome.splits)

lemma locked_call_sequential:
  assumes "\<not> fin p" "inner p = Some tx" "pwrite p = writeable tx" "ev_ok ev" "ev_close ev = None"
    "locked_call h srv ev tx s = (r, tx', s')"
  shows "call_event srv ev (p, s) = (r, p\<lparr>inner := Some tx'\<rparr>, s') \<and> writeable tx' = writeable tx"
proof -
  have l: "ptx_lock p = Ok tx" using assms(1,2) by (simp add: ptx_lock_def)
  have i: "p\<lparr>inner := Some tx\<rparr> = p" using assms(2) by (cases p) simp
  show ?thesis
  proof (cases ev)
    case (EvOp op)
    then show ?thesis
      using assms(4,6) run_ptx_inner [OF assms(1-3), of op srv s h] i
      by (auto simp: ptx_call_def case_prod_beta)
  qed (use assms(5,6) l savepoints_keep_sql [of srv tx s] in
      \<open>auto simp: ptx_new_save_point_def ptx_release_last_save_point_def ptx_rollback_to_save_point_def
        ptx_savepoint_def split: prod.splits\<close>)
qed

text \<open>A finished wrapper refuses every call and changes nothing.\<close>

lemma call_event_fin:
  assumes "fin p" "ev_ok ev"
  shows "call_event srv ev (p, s) = (Err TransactionFinished, p, s)"
proof -
  have p: "p\<lparr>fin := True\<rparr> = p" using assms(1) by (cases p) simp
  show ?thesis
  proof (cases ev)
    case (EvOp op)
    then show ?thesis using finished_refuses [of op srv p s] assms p by (simp add: ptx_call_def)
  qed (use assms(1) in \<open>simp_all add: ptx_new_save_point_def ptx_release_last_save_point_def
        ptx_rollback_to_save_point_def ptx_savepoint_def ptx_lock_def run_closer_fin\<close>)
qed

lemma call_event_readonly:
  assumes "\<not> fin p" "\<not> pwrite p" "ev_ok ev" "ev_write ev"
  shows "call_event srv ev (p, s) = (Err TransactionReadonly, p, s)"
proof -
  have p: "p\<lparr>fin := False, pwrite := False\<rparr> = p" using assms(1,2) by (cases p) simp
  obtain op where "ev = EvOp op" "is_write op" using assms(4) by (cases ev) auto
  then show ?thesis using readonly_refuses [of op srv p s] assms(3) p by (simp add: ptx_call_def)
qed

subsection \<open>The interleaved wrapper\<close>

text \<open>
  Where a task stands in its call: before it, awaiting the lock, holding it, running under it (the
  guard has found a transaction), having set the flag, awaiting the server with the transaction it
  has taken, returned, or dropped while it awaited the lock.
\<close>

datatype lpc =
    LIdle
  | LWaiting ptx_event
  | LHolding ptx_event
  | LRunning ptx_event
  | LSwapped closer
  | LFlying closer pg_tx
  | LDone "kv_res kresult"
  | LGone

text \<open>
  The memory of the wrapper, the session, the lock, the tasks; and the calls in the order in which
  they take effect, each with its task and its answer, which is for the proof only.
\<close>

record 's conc =
  mem :: pg_ptx
  sess :: 's
  lock :: "nat option"
  ltask :: "nat \<Rightarrow> lpc"
  history :: "(nat \<times> ptx_event \<times> kv_res kresult) list"

definition conc_init :: "pg_ptx \<Rightarrow> 's \<Rightarrow> 's conc" where
  "conc_init p s = \<lparr>mem = p, sess = s, lock = None, ltask = (\<lambda>_. LIdle), history = []\<rparr>"

definition goes :: "nat \<Rightarrow> lpc \<Rightarrow> 's conc \<Rightarrow> 's conc" where
  "goes i q c = c\<lparr>ltask := (ltask c)(i := q)\<rparr>"

definition takes_effect :: "nat \<Rightarrow> ptx_event \<Rightarrow> kv_res kresult \<Rightarrow> 's conc \<Rightarrow> 's conc" where
  "takes_effect i ev r c = c\<lparr>history := history c @ [(i, ev, r)]\<rparr>"

definition returns :: "nat \<Rightarrow> ptx_event \<Rightarrow> kv_res kresult \<Rightarrow> 's conc \<Rightarrow> 's conc" where
  "returns i ev r c = takes_effect i ev r (goes i (LDone r) c)"

inductive lstep ::
  "((key \<times> val) list \<Rightarrow> (key \<times> val) list) \<Rightarrow> 's pg_server \<Rightarrow> 's conc \<Rightarrow> 's conc \<Rightarrow> bool"
  for h srv
where
  l_finished: "\<lbrakk>ltask c i = LIdle; ev_ok ev; fin (mem c)\<rbrakk> \<Longrightarrow>
    lstep h srv c (returns i ev (Err TransactionFinished) c)"
| l_readonly: "\<lbrakk>ltask c i = LIdle; ev_ok ev; \<not> fin (mem c); ev_write ev; \<not> pwrite (mem c)\<rbrakk> \<Longrightarrow>
    lstep h srv c (returns i ev (Err TransactionReadonly) c)"
| l_wait: "\<lbrakk>ltask c i = LIdle; ev_ok ev; \<not> fin (mem c); ev_write ev \<longrightarrow> pwrite (mem c)\<rbrakk> \<Longrightarrow>
    lstep h srv c (goes i (LWaiting ev) c)"
| l_acquire: "\<lbrakk>ltask c i = LWaiting ev; lock c = None\<rbrakk> \<Longrightarrow>
    lstep h srv c (goes i (LHolding ev) c\<lparr>lock := Some i\<rparr>)"
| l_none: "\<lbrakk>ltask c i = LHolding ev; ev_close ev = None; inner (mem c) = None\<rbrakk> \<Longrightarrow>
    lstep h srv c (returns i ev (Err TransactionFinished) c\<lparr>lock := None\<rparr>)"
| l_some: "\<lbrakk>ltask c i = LHolding ev; ev_close ev = None; inner (mem c) \<noteq> None\<rbrakk> \<Longrightarrow>
    lstep h srv c (goes i (LRunning ev) c)"
| l_run: "\<lbrakk>ltask c i = LRunning ev; inner (mem c) = Some tx;
    locked_call h srv ev tx (sess c) = (r, tx', s')\<rbrakk> \<Longrightarrow>
    lstep h srv c (returns i ev r c\<lparr>mem := (mem c)\<lparr>inner := Some tx'\<rparr>, sess := s', lock := None\<rparr>)"
| l_lost: "\<lbrakk>ltask c i = LHolding (EvClose k); fin (mem c)\<rbrakk> \<Longrightarrow>
    lstep h srv c (returns i (EvClose k) (Err TransactionFinished) c\<lparr>lock := None\<rparr>)"
| l_swap: "\<lbrakk>ltask c i = LHolding (EvClose k); \<not> fin (mem c)\<rbrakk> \<Longrightarrow>
    lstep h srv c (takes_effect i (EvClose k) (fst (call_event srv (EvClose k) (mem c, sess c)))
      (goes i (LSwapped k) c\<lparr>mem := (mem c)\<lparr>fin := True\<rparr>\<rparr>))"
| l_take: "\<lbrakk>ltask c i = LSwapped k; inner (mem c) = Some tx\<rbrakk> \<Longrightarrow>
    lstep h srv c (goes i (LFlying k tx) c\<lparr>mem := (mem c)\<lparr>inner := None\<rparr>, lock := None\<rparr>)"
| l_empty: "\<lbrakk>ltask c i = LSwapped k; inner (mem c) = None\<rbrakk> \<Longrightarrow>
    lstep h srv c (goes i (LDone (Ok RUnit)) c\<lparr>lock := None\<rparr>)"
| l_answer: "\<lbrakk>ltask c i = LFlying k tx; settle srv k tx (mem c, sess c) = (r, p', s')\<rbrakk> \<Longrightarrow>
    lstep h srv c (goes i (LDone r) c\<lparr>mem := p', sess := s'\<rparr>)"
| l_drop: "ltask c i = LWaiting ev \<Longrightarrow> lstep h srv c (goes i LGone c)"

subsection \<open>The invariant\<close>

fun lholds :: "lpc \<Rightarrow> bool" where
  "lholds (LHolding ev) = True"
| "lholds (LRunning ev) = True"
| "lholds (LSwapped k) = True"
| "lholds _ = False"

fun lcalls :: "lpc \<Rightarrow> ptx_event option" where
  "lcalls (LWaiting ev) = Some ev"
| "lcalls (LHolding ev) = Some ev"
| "lcalls (LRunning ev) = Some ev"
| "lcalls _ = None"

text \<open>The tasks whose call has taken effect.\<close>

fun effective :: "lpc \<Rightarrow> bool" where
  "effective (LSwapped k) = True"
| "effective (LFlying k tx) = True"
| "effective (LDone r) = True"
| "effective _ = False"

fun lcloses :: "lpc \<Rightarrow> bool" where
  "lcloses (LSwapped k) = True"
| "lcloses (LFlying k tx) = True"
| "lcloses _ = False"

text \<open>
  What the sequential wrapper looks like at each moment: as the memory and the session while the
  transaction is open and after it is settled, and as they will be once the server has answered
  while a close is under way.
\<close>

inductive looks ::
  "'s pg_server \<Rightarrow> 's conc \<Rightarrow> pg_ptx \<Rightarrow> 's \<Rightarrow> bool"
  for srv
where
  looks_open: "\<lbrakk>\<not> fin (mem c); inner (mem c) = Some tx; pwrite (mem c) = writeable tx;
    \<forall>i. \<not> lcloses (ltask c i)\<rbrakk> \<Longrightarrow> looks srv c (mem c) (sess c)"
| looks_swapped: "\<lbrakk>fin (mem c); inner (mem c) = Some tx; ltask c i = LSwapped k;
    \<forall>j. j \<noteq> i \<longrightarrow> \<not> lcloses (ltask c j);
    settle srv k tx ((mem c)\<lparr>inner := None\<rparr>, sess c) = (r, p, s); (i, EvClose k, r) \<in> set (history c)\<rbrakk> \<Longrightarrow>
    looks srv c p s"
| looks_flying: "\<lbrakk>fin (mem c); inner (mem c) = None; ltask c i = LFlying k tx;
    \<forall>j. j \<noteq> i \<longrightarrow> \<not> lcloses (ltask c j);
    settle srv k tx (mem c, sess c) = (r, p, s); (i, EvClose k, r) \<in> set (history c)\<rbrakk> \<Longrightarrow>
    looks srv c p s"
| looks_closed: "\<lbrakk>fin (mem c); inner (mem c) = None; \<forall>i. \<not> lcloses (ltask c i)\<rbrakk> \<Longrightarrow>
    looks srv c (mem c) (sess c)"

definition history_calls :: "'s conc \<Rightarrow> ptx_event list" where
  "history_calls c = map (fst \<circ> snd) (history c)"

definition history_answers :: "'s conc \<Rightarrow> kv_res kresult list" where
  "history_answers c = map (snd \<circ> snd) (history c)"

definition linear :: "'s pg_server \<Rightarrow> pg_ptx \<Rightarrow> 's \<Rightarrow> 's conc \<Rightarrow> bool" where
  "linear srv p0 s0 c \<longleftrightarrow>
     (\<exists>p s. steps_of (call_event srv) (history_calls c) (p0, s0) = (history_answers c, p, s) \<and>
       looks srv c p s)"

definition orderly :: "'s conc \<Rightarrow> bool" where
  "orderly c \<longleftrightarrow>
     (\<forall>i. lholds (ltask c i) \<longleftrightarrow> lock c = Some i) \<and>
     (\<forall>i ev. lcalls (ltask c i) = Some ev \<longrightarrow> ev_ok ev) \<and>
     (\<forall>i ev. ltask c i = LRunning ev \<longrightarrow> ev_close ev = None) \<and>
     distinct (map fst (history c)) \<and>
     (\<forall>i. i \<in> fst ` set (history c) \<longleftrightarrow> effective (ltask c i)) \<and>
     (\<forall>i r. ltask c i = LDone r \<longrightarrow> (\<exists>ev. (i, ev, r) \<in> set (history c)))"

lemma move_simps [simp]:
  "mem (goes i q c) = mem c" "sess (goes i q c) = sess c" "lock (goes i q c) = lock c"
  "ltask (goes i q c) = (ltask c)(i := q)" "history (goes i q c) = history c"
  "mem (takes_effect i ev r c) = mem c" "sess (takes_effect i ev r c) = sess c"
  "lock (takes_effect i ev r c) = lock c" "ltask (takes_effect i ev r c) = ltask c"
  "history (takes_effect i ev r c) = history c @ [(i, ev, r)]"
  "mem (returns i ev r c) = mem c" "sess (returns i ev r c) = sess c" "lock (returns i ev r c) = lock c"
  "ltask (returns i ev r c) = (ltask c)(i := LDone r)" "history (returns i ev r c) = history c @ [(i, ev, r)]"
  by (simp_all add: goes_def takes_effect_def returns_def)

lemma looks_fin: "\<lbrakk>looks srv c p s; fin (mem c) \<or> inner (mem c) = None\<rbrakk> \<Longrightarrow> fin p"
  by (erule looks.cases) (auto dest: settle_closed)

lemma looks_unclosed:
  "\<lbrakk>looks srv c p s; \<not> fin (mem c)\<rbrakk> \<Longrightarrow> \<exists>tx. p = mem c \<and> s = sess c \<and> inner (mem c) = Some tx \<and>
     pwrite (mem c) = writeable tx \<and> (\<forall>i. \<not> lcloses (ltask c i))"
  by (erule looks.cases) auto

lemma looks_swappedD:
  assumes "looks srv c p s" "ltask c i = LSwapped k"
  shows "\<exists>tx r. fin (mem c) \<and> inner (mem c) = Some tx \<and> (\<forall>j. j \<noteq> i \<longrightarrow> \<not> lcloses (ltask c j)) \<and>
    settle srv k tx ((mem c)\<lparr>inner := None\<rparr>, sess c) = (r, p, s) \<and> (i, EvClose k, r) \<in> set (history c)"
proof -
  have cl: "lcloses (ltask c i)" using assms(2) by simp
  from assms(1) show ?thesis
  proof cases
    case (looks_swapped tx j k1 r)
    then have "i = j" using cl by blast
    then show ?thesis using looks_swapped assms(2) by simp
  next
    case (looks_flying j k1 tx r)
    then have "i = j" using cl by blast
    then show ?thesis using looks_flying(3) assms(2) by simp
  qed (use cl in blast)+
qed

lemma looks_flyingD:
  assumes "looks srv c p s" "ltask c i = LFlying k tx"
  shows "\<exists>r. fin (mem c) \<and> inner (mem c) = None \<and> (\<forall>j. j \<noteq> i \<longrightarrow> \<not> lcloses (ltask c j)) \<and>
    settle srv k tx (mem c, sess c) = (r, p, s) \<and> (i, EvClose k, r) \<in> set (history c)"
proof -
  have cl: "lcloses (ltask c i)" using assms(2) by simp
  from assms(1) show ?thesis
  proof cases
    case (looks_swapped tx j k1 r)
    then have "i = j" using cl by blast
    then show ?thesis using looks_swapped(3) assms(2) by simp
  next
    case (looks_flying j k1 tx r)
    then have "i = j" using cl by blast
    then show ?thesis using looks_flying assms(2) by simp
  qed (use cl in blast)+
qed

lemma looks_move:
  assumes "looks srv c p s" "mem c' = mem c" "sess c' = sess c" "ltask c' = (ltask c)(i := q)"
    "set (history c) \<subseteq> set (history c')" "\<not> lcloses (ltask c i)" "\<not> lcloses q"
  shows "looks srv c' p s"
  using assms(1)
proof cases
  case (looks_open tx)
  then show ?thesis using looks.looks_open [of c' tx srv] assms by auto
next
  case (looks_swapped tx j k r)
  then show ?thesis using looks.looks_swapped [of c' tx j k srv r p s] assms by (cases "j = i") auto
next
  case (looks_flying j k tx r)
  then show ?thesis using looks.looks_flying [of c' j k tx srv r p s] assms by (cases "j = i") auto
next
  case looks_closed
  then show ?thesis using looks.looks_closed [of c' srv] assms by auto
qed

lemma steps_of_snoc:
  "steps_of f xs c = (rs, c1) \<Longrightarrow> f x c1 = (r, c2) \<Longrightarrow> steps_of f (xs @ [x]) c = (rs @ [r], c2)"
  by (induction xs arbitrary: c rs) (auto split: prod.splits)

lemma linear_silent:
  assumes "linear srv p0 s0 c" "history c' = history c" "\<And>p s. looks srv c p s \<Longrightarrow> looks srv c' p s"
  shows "linear srv p0 s0 c'"
  using assms by (auto simp: linear_def history_calls_def history_answers_def)

lemma linear_effect:
  assumes "linear srv p0 s0 c" "history c' = history c @ [(i, ev, r)]"
    "\<And>p s. looks srv c p s \<Longrightarrow> \<exists>p' s'. call_event srv ev (p, s) = (r, p', s') \<and> looks srv c' p' s'"
  shows "linear srv p0 s0 c'"
proof -
  obtain p s where 1: "steps_of (call_event srv) (history_calls c) (p0, s0) = (history_answers c, p, s)"
    "looks srv c p s"
    using assms(1) by (auto simp: linear_def)
  obtain p' s' where 2: "call_event srv ev (p, s) = (r, p', s')" "looks srv c' p' s'"
    using assms(3) [OF 1(2)] by blast
  have "steps_of (call_event srv) (history_calls c') (p0, s0) = (history_answers c', p', s')"
    using steps_of_snoc [OF 1(1) 2(1)] assms(2) by (simp add: history_calls_def history_answers_def)
  with 2(2) show ?thesis by (auto simp: linear_def)
qed

text \<open>A call that finds the wrapper finished takes effect there.\<close>

lemma linear_refused:
  assumes "linear srv p0 s0 c" "ev_ok ev" "fin (mem c) \<or> inner (mem c) = None" "\<not> lcloses (ltask c i)"
    "mem c' = mem c" "sess c' = sess c" "ltask c' = (ltask c)(i := LDone (Err TransactionFinished))"
    "history c' = history c @ [(i, ev, Err TransactionFinished)]"
  shows "linear srv p0 s0 c'"
proof (rule linear_effect [OF assms(1,8)])
  fix p s
  assume x: "looks srv c p s"
  have "looks srv c' p s"
    using assms(4,8) by (intro looks_move [OF x assms(5-7)]) auto
  then show "\<exists>p' s'. call_event srv ev (p, s) = (Err TransactionFinished, p', s') \<and> looks srv c' p' s'"
    using call_event_fin [OF looks_fin [OF x assms(3)] assms(2), where srv = srv and s = s] by blast
qed

lemma orderlyD:
  "\<lbrakk>orderly c; lcalls (ltask c i) = Some ev\<rbrakk> \<Longrightarrow> ev_ok ev"
  "\<lbrakk>orderly c; ltask c i = LRunning ev\<rbrakk> \<Longrightarrow> ev_close ev = None"
  "\<lbrakk>orderly c; lholds (ltask c i)\<rbrakk> \<Longrightarrow> lock c = Some i"
  by (simp_all add: orderly_def)

text \<open>Under the lock no close is between its flag and its taking of the transaction.\<close>

lemma running_open:
  assumes "orderly c" "ltask c i = LRunning ev" "looks srv c p s" "inner (mem c) = Some tx"
  shows "p = mem c \<and> s = sess c \<and> \<not> fin (mem c) \<and> pwrite (mem c) = writeable tx \<and>
    (\<forall>i. \<not> lcloses (ltask c i))"
proof -
  have l: "lock c = Some i" using orderlyD(3) [OF assms(1), of i] assms(2) by simp
  from assms(3) show ?thesis
  proof cases
    case (looks_swapped tx j k r)
    then have "lock c = Some j" using orderlyD(3) [OF assms(1), of j] by simp
    with l looks_swapped(3) assms(2) show ?thesis by simp
  qed (use assms(4) in auto)
qed

lemma step_linear:
  assumes "lstep h srv c c'" "orderly c" "linear srv p0 s0 c"
  shows "linear srv p0 s0 c'"
  using assms(1)
proof cases
  case (l_finished i ev)
  then show ?thesis by (intro linear_refused [OF assms(3), of ev i]) simp_all
next
  case (l_readonly i ev)
  have "\<exists>p' s'. call_event srv ev (p, s) = (Err TransactionReadonly, p', s') \<and> looks srv c' p' s'"
    if x: "looks srv c p s" for p s
  proof -
    have "p = mem c" using looks_unclosed [OF x l_readonly(4)] by blast
    then show ?thesis
      using call_event_readonly [of p ev srv s] l_readonly looks_move [OF x, of c' i "LDone (Err TransactionReadonly)"]
      by (simp add: subset_insertI)
  qed
  then show ?thesis using l_readonly by (intro linear_effect [OF assms(3), of c' i ev]) simp_all
next
  case (l_wait i ev)
  then show ?thesis
    using looks_move [of srv c _ _ c' i "LWaiting ev"] by (intro linear_silent [OF assms(3)]) auto
next
  case (l_acquire i ev)
  then show ?thesis
    using looks_move [of srv c _ _ c' i "LHolding ev"] by (intro linear_silent [OF assms(3)]) auto
next
  case (l_none i ev)
  have ok: "ev_ok ev" using orderlyD(1) [OF assms(2), of i ev] l_none(2) by simp
  with l_none show ?thesis by (intro linear_refused [OF assms(3), of ev i]) simp_all
next
  case (l_some i ev)
  then show ?thesis
    using looks_move [of srv c _ _ c' i "LRunning ev"] by (intro linear_silent [OF assms(3)]) auto
next
  case (l_run i ev tx r tx' s')
  have ok: "ev_ok ev" "ev_close ev = None"
    using orderlyD(1) [OF assms(2), of i ev] orderlyD(2) [OF assms(2), of i ev] l_run(2) by simp_all
  have "\<exists>p' s'. call_event srv ev (p, s) = (r, p', s') \<and> looks srv c' p' s'" if x: "looks srv c p s" for p s
  proof -
    note o = running_open [OF assms(2) l_run(2) x l_run(3)]
    then have e: "call_event srv ev (mem c, sess c) = (r, (mem c)\<lparr>inner := Some tx'\<rparr>, s')" "writeable tx' = writeable tx"
      using locked_call_sequential [of "mem c" tx ev h srv "sess c" r tx' s'] l_run(3,4) ok by simp_all
    have "looks srv c' (mem c') (sess c')"
      using o e(2) by (intro looks_open [of c' tx']) (simp_all add: l_run(1))
    with e(1) o show ?thesis by (simp add: l_run(1))
  qed
  then show ?thesis using l_run(1) by (intro linear_effect [OF assms(3), of c' i ev]) simp_all
next
  case (l_lost i k)
  then show ?thesis by (intro linear_refused [OF assms(3), of "EvClose k" i]) simp_all
next
  case (l_swap i k)
  have "\<exists>p' s'. call_event srv (EvClose k) (p, s) = (fst (call_event srv (EvClose k) (mem c, sess c)), p', s') \<and>
      looks srv c' p' s'" if x: "looks srv c p s" for p s
  proof -
    obtain tx where o: "p = mem c" "s = sess c" "inner (mem c) = Some tx" "\<forall>i. \<not> lcloses (ltask c i)"
      using looks_unclosed [OF x l_swap(3)] by blast
    obtain r p' s' where e: "call_event srv (EvClose k) (mem c, sess c) = (r, p', s')" by (metis prod.collapse)
    then have "settle srv k tx ((mem c)\<lparr>fin := True, inner := None\<rparr>, sess c) = (r, p', s')"
      using closer_settles [OF l_swap(3) o(3), of srv k "sess c"] by simp
    then have "looks srv c' p' s'"
      using o(3,4) e by (intro looks_swapped [of c' tx i k srv r p' s']) (simp_all add: l_swap(1))
    with e o show ?thesis by simp
  qed
  then show ?thesis using l_swap(1) by (intro linear_effect [OF assms(3), of c' i "EvClose k"]) simp_all
next
  case (l_take i k tx)
  have "looks srv c' p s" if x: "looks srv c p s" for p s
  proof -
    obtain r where "fin (mem c)" "\<forall>j. j \<noteq> i \<longrightarrow> \<not> lcloses (ltask c j)"
      "settle srv k tx ((mem c)\<lparr>inner := None\<rparr>, sess c) = (r, p, s)" "(i, EvClose k, r) \<in> set (history c)"
      using looks_swappedD [OF x l_take(2)] l_take(3) by auto
    then show ?thesis by (intro looks_flying [of c' i k tx srv r p s]) (simp_all add: l_take(1))
  qed
  then show ?thesis using l_take(1) by (intro linear_silent [OF assms(3)]) simp_all
next
  case (l_empty i k)
  have "False" if "looks srv c p s" for p s
    using looks_swappedD [OF that l_empty(2)] l_empty(3) by simp
  then show ?thesis using assms(3) by (auto simp: linear_def)
next
  case (l_answer i k tx r p' s')
  have "looks srv c' p s" if x: "looks srv c p s" for p s
  proof -
    have f: "fin (mem c)" "\<forall>j. j \<noteq> i \<longrightarrow> \<not> lcloses (ltask c j)" "p = p'" "s = s'"
      using looks_flyingD [OF x l_answer(2)] l_answer(3) by auto
    have "fin p' \<and> inner p' = None" by (rule settle_closed [OF l_answer(3) f(1)])
    then have "looks srv c' (mem c') (sess c')"
      using f(2) by (intro looks_closed) (simp_all add: l_answer(1))
    then show ?thesis by (simp add: l_answer(1) f(3,4))
  qed
  then show ?thesis using l_answer(1) by (intro linear_silent [OF assms(3)]) simp_all
next
  case (l_drop i ev)
  then show ?thesis
    using looks_move [of srv c _ _ c' i LGone] by (intro linear_silent [OF assms(3)]) auto
qed

text \<open>One task moves, with or without a new entry of the history.\<close>

lemma orderly_lock:
  assumes "orderly c" "ltask c' = (ltask c)(i := q)"
    "lholds q = lholds (ltask c i) \<and> lock c' = lock c \<or> lholds q \<and> lock c = None \<and> lock c' = Some i \<or>
     lholds (ltask c i) \<and> \<not> lholds q \<and> lock c' = None"
  shows "lholds (ltask c' j) \<longleftrightarrow> lock c' = Some j"
proof -
  have j: "lholds (ltask c j) = (lock c = Some j)" and i: "lholds (ltask c i) = (lock c = Some i)"
    using assms(1) by (simp_all add: orderly_def)
  show ?thesis using assms(2,3) i j by (cases "j = i") auto
qed

lemma orderly_silent:
  assumes "orderly c" "ltask c' = (ltask c)(i := q)" "history c' = history c"
    "lholds q = lholds (ltask c i) \<and> lock c' = lock c \<or> lholds q \<and> lock c = None \<and> lock c' = Some i \<or>
     lholds (ltask c i) \<and> \<not> lholds q \<and> lock c' = None"
    "\<And>ev. lcalls q = Some ev \<Longrightarrow> ev_ok ev" "\<And>ev. q = LRunning ev \<Longrightarrow> ev_close ev = None"
    "effective q = effective (ltask c i)" "\<And>r. q = LDone r \<Longrightarrow> \<exists>ev. (i, ev, r) \<in> set (history c)"
  shows "orderly c'"
  using orderly_lock [OF assms(1,2,4)] assms(1) assms(5-8)
  unfolding orderly_def by (simp add: assms(2,3))

lemma orderly_effect:
  assumes "orderly c" "ltask c' = (ltask c)(i := q)" "history c' = history c @ [(i, ev, r)]"
    "lholds q = lholds (ltask c i) \<and> lock c' = lock c \<or> lholds q \<and> lock c = None \<and> lock c' = Some i \<or>
     lholds (ltask c i) \<and> \<not> lholds q \<and> lock c' = None"
    "lcalls q = None" "\<not> effective (ltask c i)" "effective q" "\<And>r'. q = LDone r' \<Longrightarrow> r' = r"
  shows "orderly c'"
  using orderly_lock [OF assms(1,2,4)] assms(1) assms(5-8)
  unfolding orderly_def by (auto simp add: assms(2,3))

lemma step_orderly:
  assumes "lstep h srv c c'" "orderly c" "linear srv p0 s0 c"
  shows "orderly c'"
proof -
  obtain p s where x: "looks srv c p s" using assms(3) by (auto simp: linear_def)
  note silent = orderly_silent [OF assms(2)] and effect = orderly_effect [OF assms(2)]
  note ok = orderlyD(1) [OF assms(2)]
  from assms(1) show ?thesis
  proof cases
    case (l_finished i ev)
    then show ?thesis by (intro effect [of c' i "LDone (Err TransactionFinished)" ev "Err TransactionFinished"]) simp_all
  next
    case (l_readonly i ev)
    then show ?thesis by (intro effect [of c' i "LDone (Err TransactionReadonly)" ev "Err TransactionReadonly"]) simp_all
  next
    case (l_wait i ev)
    then show ?thesis by (intro silent [of c' i "LWaiting ev"]) simp_all
  next
    case (l_acquire i ev)
    then show ?thesis using ok [of i ev] by (intro silent [of c' i "LHolding ev"]) simp_all
  next
    case (l_none i ev)
    then show ?thesis by (intro effect [of c' i "LDone (Err TransactionFinished)" ev "Err TransactionFinished"]) simp_all
  next
    case (l_some i ev)
    then show ?thesis using ok [of i ev] by (intro silent [of c' i "LRunning ev"]) auto
  next
    case (l_run i ev tx r tx' s')
    then show ?thesis by (intro effect [of c' i "LDone r" ev r]) simp_all
  next
    case (l_lost i k)
    then show ?thesis by (intro effect [of c' i "LDone (Err TransactionFinished)" "EvClose k" "Err TransactionFinished"]) simp_all
  next
    case (l_swap i k)
    then show ?thesis
      by (intro effect [of c' i "LSwapped k" "EvClose k" "fst (call_event srv (EvClose k) (mem c, sess c))"]) simp_all
  next
    case (l_take i k tx)
    then show ?thesis by (intro silent [of c' i "LFlying k tx"]) simp_all
  next
    case (l_empty i k)
    then show ?thesis using looks_swappedD [OF x l_empty(2)] by simp
  next
    case (l_answer i k tx r p' s')
    have "(i, EvClose k, r) \<in> set (history c)" using looks_flyingD [OF x l_answer(2)] l_answer(3) by auto
    with l_answer show ?thesis by (intro silent [of c' i "LDone r"]) auto
  next
    case (l_drop i ev)
    then show ?thesis by (intro silent [of c' i "LGone"]) simp_all
  qed
qed

lemma step_history: "lstep h srv c c' \<Longrightarrow> \<exists>l. history c' = history c @ l"
  by (erule lstep.cases) simp_all

lemma steps_history: "(lstep h srv)\<^sup>*\<^sup>* c c' \<Longrightarrow> \<exists>l. history c' = history c @ l"
proof (induction rule: rtranclp_induct)
  case (step c1 c2)
  then show ?case using step_history [OF step.hyps(2)] by auto
qed simp

lemma steps_linear:
  assumes "(lstep h srv)\<^sup>*\<^sup>* (conc_init p0 s0) c" "\<not> fin p0" "inner p0 = Some tx" "pwrite p0 = writeable tx"
  shows "orderly c \<and> linear srv p0 s0 c"
  using assms(1)
proof (induction rule: rtranclp_induct)
  case base
  have "looks srv (conc_init p0 s0) p0 s0"
    using looks_open [of "conc_init p0 s0" tx srv] assms(2-4) by (simp add: conc_init_def)
  then show ?case
    by (simp add: orderly_def linear_def conc_init_def history_calls_def history_answers_def)
next
  case (step c1 c2)
  then show ?case
    using step_orderly [OF step.hyps(2), of p0 s0] step_linear [OF step.hyps(2)] by blast
qed

lemma looks_quiet: "\<lbrakk>looks srv c p s; \<forall>i. \<not> lcloses (ltask c i)\<rbrakk> \<Longrightarrow> p = mem c \<and> s = sess c"
  by (erule looks.cases) (metis lcloses.simps)+

subsection \<open>Calls take effect one by one\<close>

text \<open>
  C6. However calls on one wrapper overlap, there is one order of them, kept in the history, such that
  running them one after the other on the sequential wrapper gives every call that has returned its
  answer, and leaves, once no close is under way, the very memory and session the overlapping
  calls have left.  A call takes effect once, not before it starts, and the order never changes
  afterwards, so a call that has returned comes before every call that starts later.
\<close>

theorem calls_take_effect_one_by_one:
  assumes "(lstep h srv)\<^sup>*\<^sup>* (conc_init p0 s0) c" "\<not> fin p0" "inner p0 = Some tx" "pwrite p0 = writeable tx"
  shows "\<exists>p s. steps_of (call_event srv) (history_calls c) (p0, s0) = (history_answers c, p, s) \<and>
    ((\<forall>i. \<not> lcloses (ltask c i)) \<longrightarrow> p = mem c \<and> s = sess c) \<and>
    distinct (map fst (history c)) \<and>
    (\<forall>i r. ltask c i = LDone r \<longrightarrow> (\<exists>ev. (i, ev, r) \<in> set (history c))) \<and>
    (\<forall>i. ltask c i = LIdle \<longrightarrow> i \<notin> fst ` set (history c)) \<and>
    (\<forall>c'. (lstep h srv)\<^sup>*\<^sup>* c c' \<longrightarrow> (\<exists>l. history c' = history c @ l))"
proof -
  have o: "orderly c" and "linear srv p0 s0 c" using steps_linear [OF assms] by blast+
  then obtain p s where 1: "steps_of (call_event srv) (history_calls c) (p0, s0) = (history_answers c, p, s)"
    "looks srv c p s"
    by (auto simp: linear_def)
  with o steps_history looks_quiet [OF 1(2)] show ?thesis by (auto simp: orderly_def)
qed

text \<open>
  For the witness: a read and a commit that overlap, and a read that starts after the commit has set
  the flag and before the server has answered it.
\<close>

lemma overlap_answers:
  "fst (locked_call rev (ref_server ''kv'') (EvOp (KGet [1])) (tx0 True) (ref_begin True [])) = Ok (RVal None)"
  "fst (snd (locked_call rev (ref_server ''kv'') (EvOp (KGet [1])) (tx0 True) (ref_begin True []))) = tx0 True"
  "snd (snd (locked_call rev (ref_server ''kv'') (EvOp (KGet [1])) (tx0 True) (ref_begin True []))) = ref_begin True []"
  "fst (call_event (ref_server ''kv'') (EvClose PCommit) (ptx0 True, ref_begin True [])) = Ok RUnit"
  by code_simp+

lemma calls_take_effect_one_by_one_witness:
  "fst (steps_of (call_event (ref_server ''kv'')) [EvOp (KGet [1]), EvClose PCommit, EvOp (KGet [1])]
      (ptx0 True, ref_begin True [])) = [Ok (RVal None), Ok RUnit, Err TransactionFinished]"
proof -
  let ?srv = "ref_server ''kv''" and ?g = "EvOp (KGet [1])" and ?k = "EvClose PCommit"
  define c0 where "c0 = conc_init (ptx0 True) (ref_begin True [])"
  define c1 where "c1 = goes 0 (LWaiting ?g) c0"
  define c2 where "c2 = goes 1 (LWaiting ?k) c1"
  define c3 where "c3 = goes 0 (LHolding ?g) c2\<lparr>lock := Some 0\<rparr>"
  define c4 where "c4 = goes 0 (LRunning ?g) c3"
  define c5 where "c5 = returns 0 ?g (Ok (RVal None)) c4\<lparr>mem := (mem c4)\<lparr>inner := Some (tx0 True)\<rparr>,
      sess := ref_begin True [], lock := None\<rparr>"
  define c6 where "c6 = goes 1 (LHolding ?k) c5\<lparr>lock := Some 1\<rparr>"
  define c7 where "c7 = takes_effect 1 ?k (fst (call_event ?srv ?k (mem c6, sess c6)))
      (goes 1 (LSwapped PCommit) c6\<lparr>mem := (mem c6)\<lparr>fin := True\<rparr>\<rparr>)"
  define c8 where "c8 = returns 2 ?g (Err TransactionFinished) c7"
  note defs = c1_def c2_def c3_def c4_def c5_def c6_def c7_def c8_def
  have 0: "mem c0 = ptx0 True" "sess c0 = ref_begin True []" "lock c0 = None" "ltask c0 i = LIdle" "history c0 = []" for i
    by (simp_all add: c0_def conc_init_def)
  have m: "(ptx0 True)\<lparr>inner := Some (tx0 True)\<rparr> = ptx0 True" by (simp add: ptx0_def ptx_new_def)
  have run: "locked_call rev ?srv ?g (tx0 True) (ref_begin True []) = (Ok (RVal None), tx0 True, ref_begin True [])"
    using overlap_answers(1-3) by (metis prod.collapse)
  have "lstep rev ?srv c0 c1" unfolding c1_def by (rule l_wait) (simp_all add: 0)
  moreover have "lstep rev ?srv c1 c2" unfolding c2_def by (rule l_wait) (simp_all add: 0 c1_def)
  moreover have "lstep rev ?srv c2 c3" unfolding c3_def by (rule l_acquire) (simp_all add: 0 c1_def c2_def)
  moreover have "lstep rev ?srv c3 c4"
    unfolding c4_def by (rule l_some) (simp_all add: 0 c1_def c2_def c3_def)
  moreover have "lstep rev ?srv c4 c5"
    unfolding c5_def by (rule l_run [where tx = "tx0 True"]) (simp_all add: 0 c1_def c2_def c3_def c4_def run del: locked_call.simps)
  moreover have "lstep rev ?srv c5 c6"
    unfolding c6_def by (rule l_acquire) (simp_all add: 0 c1_def c2_def c3_def c4_def c5_def)
  moreover have "lstep rev ?srv c6 c7"
    unfolding c7_def by (rule l_swap) (simp_all add: 0 c1_def c2_def c3_def c4_def c5_def c6_def)
  moreover have "lstep rev ?srv c7 c8"
    unfolding c8_def by (rule l_finished) (simp_all add: 0 c1_def c2_def c3_def c4_def c5_def c6_def c7_def)
  ultimately have r: "(lstep rev ?srv)\<^sup>*\<^sup>* c0 c8" by (meson r_into_rtranclp rtranclp.rtrancl_into_rtrancl)
  have "mem c6 = ptx0 True" "sess c6 = ref_begin True []"
    by (simp_all add: 0 c1_def c2_def c3_def c4_def c5_def c6_def m)
  then have h: "history_calls c8 = [?g, ?k, ?g]"
    "history_answers c8 = [Ok (RVal None), Ok RUnit, Err TransactionFinished]"
    using overlap_answers(4)
    by (simp_all add: history_calls_def history_answers_def defs 0 m del: call_event.simps)
  show ?thesis
    using calls_take_effect_one_by_one [OF r [unfolded c0_def], of "tx0 True"] h by auto
qed

end
