(* ===== verification/Pg_Tune.thy ===== *)
theory Pg_Tune
  imports Pg_Config
begin

section \<open>Tuning (src/tune.rs)\<close>

text \<open>
  \<^verbatim>\<open>PgTuneConfig\<close>: the environment helpers, \<^verbatim>\<open>from_env\<close> with its range checks, and the SQL it
  generates.  A failed \<^verbatim>\<open>assert!\<close> or \<^verbatim>\<open>expect\<close> is \<open>Panic\<close>.  An \<^verbatim>\<open>f64\<close> is its 64 bits, so the
  comparisons and \<^verbatim>\<open>is_finite\<close> are those of IEEE 754; reading and printing a decimal, which the
  crate leaves to the standard library's conversion, are the parameters of \<open>f64_io\<close>.
\<close>

subsection \<open>Floating point\<close>

type_synonym f64 = "64 word"

record f64_io =
  parse_f64 :: "string \<Rightarrow> f64 option"
  show_f64 :: "f64 \<Rightarrow> string"

definition f64_mag :: "f64 \<Rightarrow> nat" where
  "f64_mag x = unat x mod 2 ^ 63"

definition f64_is_nan :: "f64 \<Rightarrow> bool" where
  "f64_is_nan x \<longleftrightarrow> 0x7ff0000000000000 < f64_mag x"

definition f64_is_finite :: "f64 \<Rightarrow> bool" where
  "f64_is_finite x \<longleftrightarrow> f64_mag x < 0x7ff0000000000000"

text \<open>The sign and the magnitude bits in one integer, whose order is the order of the numbers.\<close>

definition f64_key :: "f64 \<Rightarrow> int" where
  "f64_key x = (if 2 ^ 63 \<le> unat x then - int (f64_mag x) else int (f64_mag x))"

definition f64_le :: "f64 \<Rightarrow> f64 \<Rightarrow> bool" where
  "f64_le x y \<longleftrightarrow> \<not> f64_is_nan x \<and> \<not> f64_is_nan y \<and> f64_key x \<le> f64_key y"

definition f64_lt :: "f64 \<Rightarrow> f64 \<Rightarrow> bool" where
  "f64_lt x y \<longleftrightarrow> \<not> f64_is_nan x \<and> \<not> f64_is_nan y \<and> f64_key x < f64_key y"

definition f64_0 :: f64 where "f64_0 = 0"
definition f64_1 :: f64 where "f64_1 = 0x3ff0000000000000"
definition f64_005 :: f64 where "f64_005 = 0x3fa999999999999a"
definition f64_002 :: f64 where "f64_002 = 0x3f947ae147ae147b"
definition f64_11 :: f64 where "f64_11 = 0x3ff199999999999a"
definition f64_09 :: f64 where "f64_09 = 0x3feccccccccccccd"

lemmas f64_lits = f64_0_def f64_1_def f64_005_def f64_002_def f64_11_def f64_09_def
lemmas f64_defs = f64_lits f64_mag_def f64_is_nan_def f64_is_finite_def f64_key_def f64_le_def f64_lt_def

definition unit_interval :: "f64 \<Rightarrow> bool" where
  "unit_interval x \<longleftrightarrow> f64_le f64_0 x \<and> f64_le x f64_1"

definition f64_clamp01 :: "f64 \<Rightarrow> f64" where
  "f64_clamp01 x = (if f64_lt x f64_0 then f64_0 else if f64_lt f64_1 x then f64_1 else x)"

subsection \<open>The record\<close>

record tune =
  pool_max :: nat
  pool_min :: nat
  pool_acquire_timeout :: duration
  pool_idle_timeout :: duration
  pool_max_lifetime :: duration
  keepalive_idle :: duration
  keepalive_interval :: duration
  keepalive_count :: nat
  fillfactor :: int
  toast_storage :: string
  toast_threshold :: int
  use_unlogged :: bool
  partitions :: nat
  autovac_vacuum_scale :: f64
  autovac_vacuum_threshold :: int
  autovac_analyze_scale :: f64
  autovac_vacuum_cost_limit :: int
  autovac_vacuum_cost_delay :: int
  statement_timeout :: duration
  idle_txn_timeout :: duration
  lock_timeout :: duration
  stats_target :: int
  server_shared_buffers :: string
  server_work_mem :: string
  server_maintenance_work_mem :: string
  server_wal_buffers :: string
  server_max_connections :: int
  server_effective_cache_size :: string
  server_random_page_cost :: f64
  server_checkpoint_target :: f64

definition default_tune :: tune where
  "default_tune =
     \<lparr>pool_max = 20, pool_min = 5, pool_acquire_timeout = from_secs 10,
      pool_idle_timeout = from_secs 600, pool_max_lifetime = from_secs 1800,
      keepalive_idle = from_secs 60, keepalive_interval = from_secs 10, keepalive_count = 5,
      fillfactor = 90, toast_storage = ''external'', toast_threshold = 2032, use_unlogged = False,
      partitions = 1, autovac_vacuum_scale = f64_005, autovac_vacuum_threshold = 50,
      autovac_analyze_scale = f64_002, autovac_vacuum_cost_limit = 2000,
      autovac_vacuum_cost_delay = 1, statement_timeout = from_secs 30,
      idle_txn_timeout = from_secs 60, lock_timeout = from_secs 10, stats_target = 500,
      server_shared_buffers = ''256MB'', server_work_mem = ''64MB'',
      server_maintenance_work_mem = ''256MB'', server_wal_buffers = ''16MB'',
      server_max_connections = 100, server_effective_cache_size = ''1GB'',
      server_random_page_cost = f64_11, server_checkpoint_target = f64_09\<rparr>"

subsection \<open>Environment helpers\<close>

definition env_u32 :: "environment \<Rightarrow> string \<Rightarrow> nat \<Rightarrow> nat" where
  "env_u32 env key d =
     (case env key of
        Some raw \<Rightarrow> (case parse_u32 (trim raw) of Some v \<Rightarrow> v | None \<Rightarrow> d)
      | None \<Rightarrow> d)"

definition env_i32 :: "environment \<Rightarrow> string \<Rightarrow> int \<Rightarrow> int" where
  "env_i32 env key d =
     (case env key of
        Some raw \<Rightarrow> (case parse_i32 (trim raw) of Some v \<Rightarrow> v | None \<Rightarrow> d)
      | None \<Rightarrow> d)"

definition env_f64 :: "f64_io \<Rightarrow> environment \<Rightarrow> string \<Rightarrow> f64 \<Rightarrow> f64" where
  "env_f64 io env key d =
     (case env key of
        Some raw \<Rightarrow> (case parse_f64 io (trim raw) of Some v \<Rightarrow> v | None \<Rightarrow> d)
      | None \<Rightarrow> d)"

definition env_str_validated :: "environment \<Rightarrow> string \<Rightarrow> string \<Rightarrow> (string \<Rightarrow> bool) \<Rightarrow> string" where
  "env_str_validated env key d validate =
     (case env key of
        Some raw \<Rightarrow> (let v = trim raw in if validate v then v else d)
      | None \<Rightarrow> d)"

definition memory_suffix :: "string \<Rightarrow> string \<Rightarrow> bool option" where
  "memory_suffix v suffix =
     map_option (\<lambda>p. p \<noteq> [] \<and> list_all is_ascii_digit p) (strip_suffix suffix v)"

fun first_some :: "('a \<Rightarrow> 'b option) \<Rightarrow> 'a list \<Rightarrow> 'b option" where
  "first_some f [] = None"
| "first_some f (x # xs) = (case f x of Some y \<Rightarrow> Some y | None \<Rightarrow> first_some f xs)"

definition validate_pg_memory_size :: "string \<Rightarrow> bool" where
  "validate_pg_memory_size raw =
     (let v = trim raw in
      if v = [] then False
      else if list_all is_ascii_digit v then True
      else (case first_some (memory_suffix v) [''TB'', ''GB'', ''MB'', ''kB''] of
              Some b \<Rightarrow> b
            | None \<Rightarrow> False))"

definition validate_toast_storage :: "string \<Rightarrow> bool" where
  "validate_toast_storage v \<longleftrightarrow> v \<in> {''external'', ''extended'', ''main'', ''plain''}"

definition env_bool :: "environment \<Rightarrow> string \<Rightarrow> bool \<Rightarrow> bool" where
  "env_bool env key d =
     (case env key of
        Some raw \<Rightarrow>
          (let lower = to_ascii_lowercase (trim raw) in
           if lower \<in> {''true'', ''1'', ''yes'', ''on''} then True
           else if lower \<in> {''false'', ''0'', ''no'', ''off''} then False
           else d)
      | None \<Rightarrow> d)"

definition parse_duration :: "string \<Rightarrow> duration option" where
  "parse_duration raw =
     (let v = trim raw in
      case strip_suffix ''ms'' v of
        Some n \<Rightarrow> map_option from_millis (parse_u64 n)
      | None \<Rightarrow>
         (case strip_suffix ''s'' v of
            Some n \<Rightarrow> map_option from_secs (parse_u64 n)
          | None \<Rightarrow>
             (case strip_suffix ''m'' v of
                Some n \<Rightarrow> map_option from_secs (Option.bind (parse_u64 n) (\<lambda>n. checked_mul64 n 60))
              | None \<Rightarrow>
                 (case strip_suffix ''h'' v of
                    Some n \<Rightarrow> map_option from_secs (Option.bind (parse_u64 n) (\<lambda>n. checked_mul64 n 3600))
                  | None \<Rightarrow> map_option from_secs (parse_u64 v)))))"

definition env_duration_nonzero :: "environment \<Rightarrow> string \<Rightarrow> nat \<Rightarrow> duration" where
  "env_duration_nonzero env key d =
     (case env key of
        Some v \<Rightarrow>
          (case parse_duration v of
             Some p \<Rightarrow> if p = 0 then from_secs d else p
           | None \<Rightarrow> from_secs d)
      | None \<Rightarrow> from_secs d)"

subsection \<open>from_env\<close>

definition env_pool_max :: "environment \<Rightarrow> nat" where
  "env_pool_max env = (let v = env_u32 env ''PG_TUNED_POOL_MAX_CONNECTIONS'' 20 in if v = 0 then 20 else v)"

definition env_pool_min :: "environment \<Rightarrow> nat" where
  "env_pool_min env =
     (let v = env_u32 env ''PG_TUNED_POOL_MIN_CONNECTIONS'' 5 in
      if env_pool_max env < v then env_pool_max env else v)"

definition env_fillfactor :: "environment \<Rightarrow> int" where
  "env_fillfactor env =
     (let v = env_i32 env ''PG_TUNED_TABLE_FILLFACTOR'' 90 in if \<not> (1 \<le> v \<and> v \<le> 100) then 90 else v)"

definition env_keepalive_count :: "environment \<Rightarrow> nat" where
  "env_keepalive_count env =
     (let v = env_u32 env ''PG_TUNED_KEEPALIVE_COUNT'' 5 in
      if v = 0 then 5 else if 100 < v then 5 else v)"

definition env_toast_threshold :: "environment \<Rightarrow> int" where
  "env_toast_threshold env =
     (let v = env_i32 env ''PG_TUNED_TABLE_TOAST_THRESHOLD'' 2032 in
      if v < 128 then 2032 else if 8160 < v then 2032 else v)"

definition env_partitions :: "environment \<Rightarrow> nat" where
  "env_partitions env =
     (let v = env_u32 env ''PG_TUNED_TABLE_HASH_PARTITIONS'' 1 in
      if v = 0 then 1 else if 1024 < v then 1 else v)"

text \<open>The two scale factors and the three non-negative autovacuum settings share their checks.\<close>

definition env_scale :: "f64_io \<Rightarrow> environment \<Rightarrow> string \<Rightarrow> f64 \<Rightarrow> f64" where
  "env_scale io env key d =
     (let v = env_f64 io env key d in
      if \<not> f64_is_finite v then d else if \<not> unit_interval v then d else v)"

definition env_nonneg :: "environment \<Rightarrow> string \<Rightarrow> int \<Rightarrow> int" where
  "env_nonneg env key d = (let v = env_i32 env key d in if v < 0 then d else v)"

definition env_stats_target :: "environment \<Rightarrow> int" where
  "env_stats_target env =
     (let v = env_i32 env ''PG_TUNED_QUERY_STATS_TARGET'' 500 in
      if \<not> (- 1 \<le> v \<and> v \<le> 10000) then 500 else v)"

definition env_max_connections :: "environment \<Rightarrow> int" where
  "env_max_connections env =
     (let v = env_i32 env ''PG_TUNED_SERVER_MAX_CONNECTIONS'' 100 in
      if v \<le> 0 then 100 else if 10000 < v then 100 else v)"

definition env_random_page_cost :: "f64_io \<Rightarrow> environment \<Rightarrow> f64" where
  "env_random_page_cost io env =
     (let v = env_f64 io env ''PG_TUNED_SERVER_RANDOM_PAGE_COST'' f64_11 in
      if \<not> f64_is_finite v then f64_11 else if f64_le v f64_0 then f64_11 else v)"

definition env_checkpoint_target :: "f64_io \<Rightarrow> environment \<Rightarrow> f64" where
  "env_checkpoint_target io env =
     f64_clamp01 (env_f64 io env ''PG_TUNED_SERVER_CHECKPOINT_TARGET'' f64_09)"

definition tune_from_env :: "f64_io \<Rightarrow> environment \<Rightarrow> tune" where
  "tune_from_env io env =
     \<lparr>pool_max = env_pool_max env,
      pool_min = env_pool_min env,
      pool_acquire_timeout = env_duration_nonzero env ''PG_TUNED_POOL_ACQUIRE_TIMEOUT'' 10,
      pool_idle_timeout = env_duration_nonzero env ''PG_TUNED_POOL_IDLE_TIMEOUT'' 600,
      pool_max_lifetime = env_duration_nonzero env ''PG_TUNED_POOL_MAX_LIFETIME'' 1800,
      keepalive_idle = env_duration_nonzero env ''PG_TUNED_KEEPALIVE_IDLE'' 60,
      keepalive_interval = env_duration_nonzero env ''PG_TUNED_KEEPALIVE_INTERVAL'' 10,
      keepalive_count = env_keepalive_count env,
      fillfactor = env_fillfactor env,
      toast_storage = env_str_validated env ''PG_TUNED_TABLE_TOAST_STORAGE'' ''external'' validate_toast_storage,
      toast_threshold = env_toast_threshold env,
      use_unlogged = env_bool env ''PG_TUNED_TABLE_UNLOGGED'' False,
      partitions = env_partitions env,
      autovac_vacuum_scale = env_scale io env ''PG_TUNED_AUTOVAC_VACUUM_SCALE'' f64_005,
      autovac_vacuum_threshold = env_nonneg env ''PG_TUNED_AUTOVAC_VACUUM_THRESHOLD'' 50,
      autovac_analyze_scale = env_scale io env ''PG_TUNED_AUTOVAC_ANALYZE_SCALE'' f64_002,
      autovac_vacuum_cost_limit = env_nonneg env ''PG_TUNED_AUTOVAC_VACUUM_COST_LIMIT'' 2000,
      autovac_vacuum_cost_delay = env_nonneg env ''PG_TUNED_AUTOVAC_VACUUM_COST_DELAY'' 1,
      statement_timeout = env_duration_nonzero env ''PG_TUNED_QUERY_STATEMENT_TIMEOUT'' 30,
      idle_txn_timeout = env_duration_nonzero env ''PG_TUNED_QUERY_IDLE_TXN_TIMEOUT'' 60,
      lock_timeout = env_duration_nonzero env ''PG_TUNED_QUERY_LOCK_TIMEOUT'' 10,
      stats_target = env_stats_target env,
      server_shared_buffers = env_str_validated env ''PG_TUNED_SERVER_SHARED_BUFFERS'' ''256MB'' validate_pg_memory_size,
      server_work_mem = env_str_validated env ''PG_TUNED_SERVER_WORK_MEM'' ''64MB'' validate_pg_memory_size,
      server_maintenance_work_mem =
        env_str_validated env ''PG_TUNED_SERVER_MAINTENANCE_WORK_MEM'' ''256MB'' validate_pg_memory_size,
      server_wal_buffers = env_str_validated env ''PG_TUNED_SERVER_WAL_BUFFERS'' ''16MB'' validate_pg_memory_size,
      server_max_connections = env_max_connections env,
      server_effective_cache_size =
        env_str_validated env ''PG_TUNED_SERVER_EFFECTIVE_CACHE_SIZE'' ''1GB'' validate_pg_memory_size,
      server_random_page_cost = env_random_page_cost io env,
      server_checkpoint_target = env_checkpoint_target io env\<rparr>"

subsection \<open>Generated SQL\<close>

definition nl :: string where "nl = [CHR 0x0A]"
definition quoted :: "string \<Rightarrow> string" where "quoted s = CHR 0x27 # s @ [CHR 0x27]"

definition fmt_int :: "int \<Rightarrow> string" where
  "fmt_int i = (if i < 0 then CHR ''-'' # fmt_nat (nat (- i)) else fmt_nat (nat i))"

text \<open>A sequence of assertions, then a value.\<close>

definition asserting :: "bool list \<Rightarrow> 'a \<Rightarrow> (string, 'a) outcome" where
  "asserting bs v = (if list_all (\<lambda>b. b) bs then Ok v else Panic)"

definition part_name :: "string \<Rightarrow> nat \<Rightarrow> string" where
  "part_name tbl i = tbl @ ''_p'' @ fmt_nat i"

definition partition_names_fit :: "tune \<Rightarrow> string \<Rightarrow> bool" where
  "partition_names_fit tn tbl \<longleftrightarrow>
     partitions tn \<le> 1 \<or> length tbl + (2 + length (fmt_nat (partitions tn - 1))) \<le> 63"

definition valid_ident :: "string \<Rightarrow> bool" where
  "valid_ident tbl \<longleftrightarrow> (case validate_identifier tbl of Ok _ \<Rightarrow> True | _ \<Rightarrow> False)"

definition create_table_sql :: "tune \<Rightarrow> string \<Rightarrow> (string, string) outcome" where
  "create_table_sql tn tbl =
     asserting [valid_ident tbl, partition_names_fit tn tbl]
       (let kw = (if use_unlogged tn then ''UNLOGGED '' else []) in
        if partitions tn \<le> 1 then
          ''CREATE '' @ kw @ ''TABLE IF NOT EXISTS '' @ tbl
            @ '' (key BYTEA PRIMARY KEY, val BYTEA NOT NULL);''
        else
          ''CREATE '' @ kw @ ''TABLE IF NOT EXISTS '' @ tbl
            @ '' (key BYTEA PRIMARY KEY, val BYTEA NOT NULL) PARTITION BY HASH (key);'' @ nl
            @ concat (map (\<lambda>i. ''CREATE TABLE IF NOT EXISTS '' @ part_name tbl i
                @ '' PARTITION OF '' @ tbl @ '' FOR VALUES WITH (MODULUS '' @ fmt_nat (partitions tn)
                @ '', REMAINDER '' @ fmt_nat i @ '');'' @ nl) [0..<partitions tn]))"

definition partition_count_sql :: "string \<Rightarrow> (string, string) outcome" where
  "partition_count_sql tbl =
     asserting [valid_ident tbl]
       (''SELECT count(*) AS part_cnt FROM pg_partitioned_table pt ''
        @ ''JOIN pg_class c ON c.oid = pt.partrelid ''
        @ ''JOIN pg_inherits i ON i.inhparent = c.oid ''
        @ ''WHERE c.relname = $1'')"

definition set_storage_sql :: "tune \<Rightarrow> string \<Rightarrow> string" where
  "set_storage_sql tn tbl =
     ''ALTER TABLE '' @ tbl @ '' ALTER COLUMN val SET STORAGE '' @ toast_storage tn @ '';''"

definition storage_sql :: "string \<Rightarrow> tune \<Rightarrow> string \<Rightarrow> string" where
  "storage_sql comment tn tbl =
     nl @ comment @ nl @ ''ALTER TABLE '' @ tbl @ '' SET ('' @ nl
     @ ''    fillfactor = '' @ fmt_int (fillfactor tn) @ '','' @ nl
     @ ''    toast_tuple_target = '' @ fmt_int (toast_threshold tn) @ nl
     @ '');'' @ nl @ set_storage_sql tn tbl"

definition autovac_sql :: "f64_io \<Rightarrow> string \<Rightarrow> tune \<Rightarrow> string \<Rightarrow> string" where
  "autovac_sql io comment tn tbl =
     nl @ comment @ nl @ ''ALTER TABLE '' @ tbl @ '' SET ('' @ nl
     @ ''    autovacuum_vacuum_scale_factor = '' @ show_f64 io (autovac_vacuum_scale tn) @ '','' @ nl
     @ ''    autovacuum_vacuum_threshold = '' @ fmt_int (autovac_vacuum_threshold tn) @ '','' @ nl
     @ ''    autovacuum_analyze_scale_factor = '' @ show_f64 io (autovac_analyze_scale tn) @ '','' @ nl
     @ ''    autovacuum_vacuum_cost_limit = '' @ fmt_int (autovac_vacuum_cost_limit tn) @ '','' @ nl
     @ ''    autovacuum_vacuum_cost_delay = '' @ fmt_int (autovac_vacuum_cost_delay tn) @ nl
     @ '');''"

definition parent_sql :: "tune \<Rightarrow> string \<Rightarrow> string" where
  "parent_sql tn tbl =
     nl @ ''-- Parent table: SET STORAGE only (all SET (...) storage parameters are'' @ nl
     @ ''-- illegal on partitioned tables in PG 13; child partitions get the full'' @ nl
     @ ''-- storage + autovacuum tuning below).'' @ nl
     @ set_storage_sql tn tbl"

definition tune_asserts :: "tune \<Rightarrow> bool list" where
  "tune_asserts tn =
     [validate_toast_storage (toast_storage tn),
      1 \<le> fillfactor tn \<and> fillfactor tn \<le> 100,
      f64_is_finite (autovac_vacuum_scale tn),
      unit_interval (autovac_vacuum_scale tn),
      f64_is_finite (autovac_analyze_scale tn),
      unit_interval (autovac_analyze_scale tn),
      0 \<le> autovac_vacuum_cost_limit tn,
      0 \<le> autovac_vacuum_cost_delay tn,
      0 \<le> autovac_vacuum_threshold tn,
      128 \<le> toast_threshold tn \<and> toast_threshold tn \<le> 8160]"

definition tune_table_sql :: "f64_io \<Rightarrow> tune \<Rightarrow> string \<Rightarrow> (string, string) outcome" where
  "tune_table_sql io tn tbl =
     asserting ([valid_ident tbl, partition_names_fit tn tbl] @ tune_asserts tn)
       (if partitions tn \<le> 1 then
          storage_sql ''-- Table storage tuning'' tn tbl @ autovac_sql io ''-- Autovacuum tuning'' tn tbl
        else
          parent_sql tn tbl
          @ concat (map (\<lambda>i. let part = part_name tbl i in
              storage_sql (''-- Partition '' @ part @ '' storage tuning'') tn part
              @ autovac_sql io (''-- Partition '' @ part @ '' autovacuum tuning'') tn part)
              [0..<partitions tn]))"

definition fmt_dur :: "duration \<Rightarrow> string" where
  "fmt_dur d =
     (if subsec_millis d = 0 then fmt_nat (as_secs d) @ ''s'' else fmt_nat (as_millis d) @ ''ms'')"

definition session_asserts :: "tune \<Rightarrow> bool list" where
  "session_asserts tn =
     [validate_pg_memory_size (server_work_mem tn),
      validate_pg_memory_size (server_maintenance_work_mem tn),
      validate_pg_memory_size (server_effective_cache_size tn),
      f64_is_finite (server_random_page_cost tn),
      f64_lt f64_0 (server_random_page_cost tn),
      - 1 \<le> stats_target tn \<and> stats_target tn \<le> 10000]"

definition session_sql :: "f64_io \<Rightarrow> tune \<Rightarrow> (string, string) outcome" where
  "session_sql io tn =
     asserting (session_asserts tn)
       (''SET statement_timeout = '' @ quoted (fmt_dur (statement_timeout tn)) @ '';'' @ nl
        @ ''SET idle_in_transaction_session_timeout = '' @ quoted (fmt_dur (idle_txn_timeout tn)) @ '';'' @ nl
        @ ''SET lock_timeout = '' @ quoted (fmt_dur (lock_timeout tn)) @ '';'' @ nl
        @ ''SET default_statistics_target = '' @ fmt_int (stats_target tn) @ '';'' @ nl
        @ ''SET work_mem = '' @ quoted (server_work_mem tn) @ '';'' @ nl
        @ ''SET maintenance_work_mem = '' @ quoted (server_maintenance_work_mem tn) @ '';'' @ nl
        @ ''SET random_page_cost = '' @ show_f64 io (server_random_page_cost tn) @ '';'' @ nl
        @ ''SET effective_cache_size = '' @ quoted (server_effective_cache_size tn) @ '';'')"

subsection \<open>What from_env guarantees\<close>

text \<open>Every range the SQL generators and the store rely on.\<close>

definition tune_ok :: "tune \<Rightarrow> bool" where
  "tune_ok tn \<longleftrightarrow> list_all (\<lambda>b. b) (tune_asserts tn) \<and> list_all (\<lambda>b. b) (session_asserts tn) \<and>
     0 < pool_max tn \<and> pool_min tn \<le> pool_max tn \<and> 0 < keepalive_count tn \<and>
     1 \<le> partitions tn \<and> partitions tn \<le> 1024 \<and>
     0 < pool_acquire_timeout tn \<and> 0 < pool_idle_timeout tn \<and> 0 < pool_max_lifetime tn \<and>
     0 < keepalive_idle tn \<and> 0 < keepalive_interval tn \<and> 0 < statement_timeout tn \<and>
     0 < idle_txn_timeout tn \<and> 0 < lock_timeout tn"

lemma env_duration_pos: "0 < d \<Longrightarrow> 0 < env_duration_nonzero env key d"
  by (auto simp: env_duration_nonzero_def from_secs_def split: option.splits)

lemma env_str_ok: "P d \<Longrightarrow> P (env_str_validated env key d P)"
  by (auto simp: env_str_validated_def Let_def split: option.splits)

lemma env_scale_ok:
  "f64_is_finite d \<Longrightarrow> unit_interval d \<Longrightarrow>
     f64_is_finite (env_scale io env key d) \<and> unit_interval (env_scale io env key d)"
  by (simp add: env_scale_def Let_def)

lemma env_nonneg_ok: "0 \<le> d \<Longrightarrow> 0 \<le> env_nonneg env key d"
  by (simp add: env_nonneg_def Let_def)

lemma f64_consts:
  "f64_is_finite f64_005" "unit_interval f64_005" "f64_is_finite f64_002" "unit_interval f64_002"
  "f64_is_finite f64_11" "f64_lt f64_0 f64_11"
  by (simp_all add: unit_interval_def f64_defs)

lemma finite_not_nan: "f64_is_finite x \<Longrightarrow> \<not> f64_is_nan x"
  by (simp add: f64_is_finite_def f64_is_nan_def)

lemma zero_not_nan: "\<not> f64_is_nan f64_0"
  by (simp add: f64_defs)

lemma page_cost_ok:
  "f64_is_finite (env_random_page_cost io env) \<and> f64_lt f64_0 (env_random_page_cost io env)"
proof -
  let ?v = "env_f64 io env ''PG_TUNED_SERVER_RANDOM_PAGE_COST'' f64_11"
  have "f64_lt f64_0 ?v" if "f64_is_finite ?v" "\<not> f64_le ?v f64_0"
    using that finite_not_nan [OF that(1)] zero_not_nan by (auto simp: f64_lt_def f64_le_def)
  then show ?thesis using f64_consts by (auto simp: env_random_page_cost_def Let_def)
qed

lemma memory_defaults:
  "validate_pg_memory_size ''256MB''" "validate_pg_memory_size ''64MB''"
  "validate_pg_memory_size ''16MB''" "validate_pg_memory_size ''1GB''"
  by code_simp+

lemma toast_default: "validate_toast_storage ''external''"
  by (simp add: validate_toast_storage_def)


lemma tune_asserts_from_env: "list_all (\<lambda>b. b) (tune_asserts (tune_from_env io env))"
proof -
  have "validate_toast_storage (env_str_validated env ''PG_TUNED_TABLE_TOAST_STORAGE'' ''external'' validate_toast_storage)"
    by (rule env_str_ok [where P = validate_toast_storage]) (rule toast_default)
  moreover have "1 \<le> env_fillfactor env \<and> env_fillfactor env \<le> 100"
    by (simp add: env_fillfactor_def Let_def)
  moreover have "128 \<le> env_toast_threshold env \<and> env_toast_threshold env \<le> 8160"
    by (simp add: env_toast_threshold_def Let_def)
  ultimately show ?thesis
    by (simp add: tune_asserts_def tune_from_env_def env_scale_ok f64_consts env_nonneg_ok)
qed

lemma session_asserts_from_env: "list_all (\<lambda>b. b) (session_asserts (tune_from_env io env))"
proof -
  have "- 1 \<le> env_stats_target env \<and> env_stats_target env \<le> 10000"
    by (simp add: env_stats_target_def Let_def)
  then show ?thesis
    by (simp add: session_asserts_def tune_from_env_def env_str_ok memory_defaults page_cost_ok)
qed

lemma pool_from_env:
  "0 < env_pool_max env" "env_pool_min env \<le> env_pool_max env" "0 < env_keepalive_count env"
  "1 \<le> env_partitions env \<and> env_partitions env \<le> 1024"
  by (auto simp: env_pool_max_def env_pool_min_def env_keepalive_count_def env_partitions_def Let_def)

lemma tune_ok_from_env: "tune_ok (tune_from_env io env)"
  using tune_asserts_from_env [of io env] session_asserts_from_env [of io env] pool_from_env [of env]
  by (simp add: tune_ok_def) (simp add: tune_from_env_def env_duration_pos)

end
