(* ===== verification/Url_Params.thy ===== *)
theory Url_Params
  imports Pg_Config
begin

section \<open>Connection URLs (src/store.rs, src/composer.rs)\<close>

text \<open>
  The text operations on the connection URL: \<^verbatim>\<open>strip_custom_params\<close>, which takes the crate's own
  parameters out before the driver parses the URL, \<^verbatim>\<open>redact_url\<close>, which hides the credentials
  in log lines, and \<^verbatim>\<open>PostgresComposer::is_pg_path\<close>, the routing test.
\<close>

subsection \<open>Stripping the custom parameters\<close>

definition CUSTOM_PARAMS :: "string list" where
  "CUSTOM_PARAMS = [''max_connections'', ''min_connections'', ''max_lifetime'',
     ''auto_create_table'', ''table_name'', ''isolation_level'', ''persistent_statements'',
     ''connect_timeout'', ''idle_timeout'', ''slow_acquire_threshold_secs'',
     ''slow_statements_threshold_secs'', ''pooler'', ''hash_partitions'']"

definition pair_key :: "string \<Rightarrow> string" where
  "pair_key pair = (case split_once (CHR ''='') pair of Some (k, _) \<Rightarrow> k | None \<Rightarrow> pair)"

fun strip_loop :: "string list \<Rightarrow> string \<Rightarrow> bool \<Rightarrow> string" where
  "strip_loop [] filtered fst_pair = filtered"
| "strip_loop (pair # pairs) filtered fst_pair =
     (if pair_key pair \<in> set CUSTOM_PARAMS then strip_loop pairs filtered fst_pair
      else strip_loop pairs ((if fst_pair then filtered else filtered @ ''&'') @ pair) False)"

definition strip_custom_params :: "string \<Rightarrow> string" where
  "strip_custom_params url =
     (case find_char (CHR ''?'') url of
        None \<Rightarrow> url
      | Some qmark \<Rightarrow>
          let base = take qmark url;
              query = drop (qmark + 1) url;
              (query_part, fragment) =
                (case find_char (CHR ''#'') query of
                   Some i \<Rightarrow> (take i query, drop i query)
                 | None \<Rightarrow> (query, ''''));
              filtered = strip_loop (split_on (CHR ''&'') query_part) '''' True
          in if filtered = '''' then base @ fragment
             else base @ ''?'' @ filtered @ fragment)"

subsection \<open>Redaction and routing\<close>

definition authority_end :: "string \<Rightarrow> nat" where
  "authority_end after_scheme =
     (case find_char (CHR ''/'') after_scheme of
        Some i \<Rightarrow> i
      | None \<Rightarrow>
          (case find_char (CHR ''?'') after_scheme of
             Some i \<Rightarrow> i
           | None \<Rightarrow>
               (case find_char (CHR ''#'') after_scheme of
                  Some i \<Rightarrow> i
                | None \<Rightarrow> length after_scheme)))"

definition redact_url :: "string \<Rightarrow> string" where
  "redact_url url =
     (case find_str ''://'' url of
        None \<Rightarrow> url
      | Some scheme_end \<Rightarrow>
          let after_scheme = drop (scheme_end + 3) url;
              e = authority_end after_scheme;
              authority = take e after_scheme;
              rest = drop e after_scheme
          in (case rfind_char (CHR ''@'') authority of
                Some at_pos \<Rightarrow>
                  take (scheme_end + 3) url @ ''***:***@'' @ drop (at_pos + 1) authority @ rest
              | None \<Rightarrow> url))"

definition is_pg_path :: "string \<Rightarrow> bool" where
  "is_pg_path path \<longleftrightarrow> starts_with ''postgres:'' path \<or> starts_with ''postgresql:'' path"

subsection \<open>The stripping loop is a filter\<close>

abbreviation "is_custom pair \<equiv> pair_key pair \<in> set CUSTOM_PARAMS"

lemma strip_loop_started:
  "strip_loop ps f False = f @ concat (map (\<lambda>p. CHR ''&'' # p) (filter (\<lambda>p. \<not> is_custom p) ps))"
  by (induction ps arbitrary: f) auto

lemma join_Cons: "join_with c (p # ps) = p @ concat (map ((#) c) ps)"
  by (induction ps arbitrary: p) auto

lemma strip_loop_join:
  "strip_loop ps [] True = join_with (CHR ''&'') (filter (\<lambda>p. \<not> is_custom p) ps)"
  by (induction ps) (simp_all add: strip_loop_started join_Cons)

text \<open>
  A URL in its three parts: no question mark before the query, no hash sign in the query.
\<close>

definition mk_url :: "string \<Rightarrow> string list \<Rightarrow> string \<Rightarrow> string" where
  "mk_url base pairs fragment = base @ ''?'' @ join_with (CHR ''&'') pairs @ fragment"

definition url_parts :: "string \<Rightarrow> string list \<Rightarrow> string \<Rightarrow> bool" where
  "url_parts base pairs fragment \<longleftrightarrow>
     CHR ''?'' \<notin> set base \<and> pairs \<noteq> [] \<and>
     (\<forall>p \<in> set pairs. CHR ''&'' \<notin> set p \<and> CHR ''#'' \<notin> set p) \<and>
     (fragment = [] \<or> hd fragment = CHR ''#'')"

definition without_query :: "string list \<Rightarrow> string" where
  "without_query pairs =
     (if join_with (CHR ''&'') pairs = [] then [] else ''?'' @ join_with (CHR ''&'') pairs)"

text \<open>
  Stripping keeps the base, the fragment and every parameter that is not the crate's own, in
  their order and byte for byte, removes every parameter that is, and leaves no bare question
  mark behind.
\<close>

lemma strip_parts:
  assumes "url_parts base pairs fragment"
  shows "strip_custom_params (mk_url base pairs fragment) =
    base @ without_query (filter (\<lambda>p. \<not> is_custom p) pairs) @ fragment"
proof -
  let ?q = "join_with (CHR ''&'') pairs"
  have q: "CHR ''#'' \<notin> set ?q"
    using assms set_join [of "CHR ''&''" pairs] by (auto simp: url_parts_def)
  have s: "split_on (CHR ''&'') ?q = pairs"
    using assms by (intro split_join) (auto simp: url_parts_def)
  have u: "find_char (CHR ''?'') (mk_url base pairs fragment) = Some (length base)"
    using assms by (simp add: url_parts_def mk_url_def find_char_append)
  show ?thesis
  proof (cases fragment)
    case Nil
    with q s u show ?thesis
      by (simp add: strip_custom_params_def mk_url_def strip_loop_join without_query_def)
  next
    case (Cons a f)
    with assms have "fragment = CHR ''#'' # f" by (simp add: url_parts_def)
    with q s u show ?thesis
      by (simp add: strip_custom_params_def mk_url_def strip_loop_join without_query_def
          find_char_append)
  qed
qed

subsection \<open>What the configuration sees of a stripped URL\<close>

lemma hd_split_on: "hd (split_on c s) = takeWhile (\<lambda>x. x \<noteq> c) s"
  by (induction s) (auto split: list.splits)

lemma hd_split_append: "\<exists>t. hd (split_on c (a @ b)) = hd (split_on c a) @ t"
  unfolding hd_split_on by (induction a) auto

lemma tl_split_append:
  "p \<in> set (tl (split_on c a)) \<Longrightarrow> \<exists>t. p @ t \<in> set (tl (split_on c (a @ b)))"
proof (induction a)
  case (Cons x a)
  obtain q qs where q: "split_on c a = q # qs" by (cases "split_on c a") auto
  obtain r rs where r: "split_on c (a @ b) = r # rs" by (cases "split_on c (a @ b)") auto
  show ?case
  proof (cases "x = c \<and> p = q")
    case True
    with hd_split_append [of c a b] q r show ?thesis by auto
  next
    case False
    with Cons q r show ?thesis by (auto split: if_splits)
  qed
qed simp

lemma split_append:
  assumes "p \<in> set (split_on c a)"
  shows "\<exists>t. p @ t \<in> set (split_on c (a @ b))"
proof -
  obtain q qs where q: "split_on c a = q # qs" by (cases "split_on c a") auto
  obtain r rs where r: "split_on c (a @ b) = r # rs" by (cases "split_on c (a @ b)") auto
  show ?thesis
    using hd_split_append [of c a b] tl_split_append [of p c a b] assms q r by auto
qed

lemma split_once_append:
  "split_once c p = Some (k, v) \<Longrightarrow> split_once c (p @ t) = Some (k, v @ t)"
  by (induction p arbitrary: k v) (auto simp: split_once_def split: if_splits)

lemma CUSTOM_eq_KNOWN: "CUSTOM_PARAMS = KNOWN_PARAMS"
  by (simp add: CUSTOM_PARAMS_def KNOWN_PARAMS_def)

lemma merge_pairs_unknown:
  "\<forall>p \<in> set ps. \<exists>t. \<not> is_custom (p @ t) \<Longrightarrow> merge_pairs ps cfg = (Ok (), cfg)"
proof (induction ps)
  case (Cons p ps)
  then obtain t where t: "\<not> is_custom (p @ t)" by auto
  have "merge_param k v' cfg = (Ok (), cfg)" if "split_once (CHR ''='') p = Some (k, v)" for k v v'
    using split_once_append [OF that, of t] t
    by (auto simp: pair_key_def CUSTOM_eq_KNOWN intro: merge_param_unknown)
  with Cons show ?case by (auto split: option.splits)
qed simp

lemma url_query_mk:
  assumes "CHR ''?'' \<notin> set base" "CHR ''#'' \<notin> set q" "CHR ''?'' \<notin> set f"
    "f = [] \<or> hd f = CHR ''#''"
  shows "url_query (base @ CHR ''?'' # q @ f) = Some (takeWhile (\<lambda>x. x \<noteq> CHR ''?'') q)"
proof -
  have "url_query (base @ CHR ''?'' # q @ f) =
      Some (takeWhile (\<lambda>x. x \<noteq> CHR ''#'') (takeWhile (\<lambda>x. x \<noteq> CHR ''?'') (q @ f)))"
    using assms(1) by (cases "split_on (CHR ''?'') (q @ f)")
      (auto simp: url_query_def split_on_append hd_split_on [symmetric])
  moreover have "takeWhile (\<lambda>x. x \<noteq> CHR ''#'') (takeWhile (\<lambda>x. x \<noteq> CHR ''?'') (q @ f)) =
      takeWhile (\<lambda>x. x \<noteq> CHR ''?'') q"
    using assms(2-4)
  proof (induction q)
    case Nil
    then show ?case by (cases f) auto
  qed auto
  ultimately show ?thesis by simp
qed

text \<open>
  After the crate's parameters are stripped, the query merge finds none of them: merging the
  stripped URL changes nothing.  So the two tables (\<^verbatim>\<open>CUSTOM_PARAMS\<close> of the store and
  \<^verbatim>\<open>KNOWN_PARAMS\<close> of the configuration) and the two parsers of the query agree, whatever the
  other parameters are, even with further question marks in the query.
\<close>

lemma merge_stripped:
  assumes "url_parts base pairs fragment" and "CHR ''?'' \<notin> set fragment"
  shows "merge_url_params (strip_custom_params (mk_url base pairs fragment)) cfg = (Ok (), cfg)"
proof -
  define kept where "kept = filter (\<lambda>p. \<not> is_custom p) pairs"
  define q where "q = join_with (CHR ''&'') kept"
  have eq: "strip_custom_params (mk_url base pairs fragment) = base @ without_query kept @ fragment"
    using strip_parts [OF assms(1)] by (simp add: kept_def)
  show ?thesis
  proof (cases "q = []")
    case True
    then have "CHR ''?'' \<notin> set (base @ without_query kept @ fragment)"
      using assms by (simp add: without_query_def q_def url_parts_def)
    then show ?thesis by (simp add: eq merge_url_params_def url_query_def del: set_append)
  next
    case False
    then have ne: "kept \<noteq> []" by (auto simp: q_def)
    have ok: "\<forall>p \<in> set kept. CHR ''&'' \<notin> set p \<and> CHR ''#'' \<notin> set p \<and> \<not> is_custom p"
      using assms(1) by (auto simp: kept_def url_parts_def)
    have h: "CHR ''#'' \<notin> set q"
      using ok set_join [of "CHR ''&''" kept] by (auto simp: q_def)
    have s: "split_on (CHR ''&'') q = kept"
      using ok ne by (auto simp: q_def intro: split_join)
    let ?w = "takeWhile (\<lambda>x. x \<noteq> CHR ''?'') q"
    have "\<forall>p \<in> set (split_on (CHR ''&'') ?w). \<exists>t. \<not> is_custom (p @ t)"
    proof
      fix p
      assume "p \<in> set (split_on (CHR ''&'') ?w)"
      from split_append [OF this, of "dropWhile (\<lambda>x. x \<noteq> CHR ''?'') q"] s
      obtain t where "p @ t \<in> set kept" by auto
      with ok show "\<exists>t. \<not> is_custom (p @ t)" by blast
    qed
    then have "merge_pairs (split_on (CHR ''&'') ?w) cfg = (Ok (), cfg)"
      by (rule merge_pairs_unknown)
    moreover have "url_query (base @ without_query kept @ fragment) = Some ?w"
      using False assms h url_query_mk [of base q fragment]
      by (simp add: without_query_def q_def url_parts_def)
    ultimately show ?thesis by (simp add: eq merge_url_params_def)
  qed
qed

subsection \<open>Redaction\<close>

definition after_last :: "char \<Rightarrow> string \<Rightarrow> string" where
  "after_last c s = rev (takeWhile (\<lambda>x. x \<noteq> c) (rev s))"

lemma takeWhile_find: "find_char c s = Some k \<Longrightarrow> takeWhile (\<lambda>x. x \<noteq> c) s = take k s"
  by (induction s arbitrary: k) (auto split: if_splits)

lemma after_last_rfind:
  assumes "rfind_char c s = Some i"
  shows "drop (i + 1) s = after_last c s"
proof -
  from assms obtain k where k: "find_char c (rev s) = Some k" "i = length s - 1 - k"
    by (auto simp: rfind_char_def)
  then have "k < length s" using find_char_Some by fastforce
  with k have "drop (i + 1) s = rev (take k (rev s))"
    by (simp add: take_rev Suc_diff_Suc)
  with takeWhile_find [OF k(1)] show ?thesis by (simp add: after_last_def)
qed

lemma after_last_append: "after_last c (p @ c # s) = after_last c s"
proof -
  have [simp]: "takeWhile (\<lambda>x. x \<noteq> c) xs = xs" if "c \<notin> set xs" for xs
    using that by (induction xs) auto
  show ?thesis by (cases "c \<in> set s") (auto simp: after_last_def takeWhile_append)
qed

lemma rfind_char_hit: "\<exists>i. rfind_char c (p @ c # s) = Some i"
  by (cases "find_char c (rev (p @ c # s))") (auto simp: rfind_char_def)

lemma find_str_scheme:
  "CHR '':'' \<notin> set scheme \<Longrightarrow> find_str ''://'' (scheme @ ''://'' @ r) = Some (length scheme)"
  by (induction scheme) (auto simp: find_str.simps)

lemma authority_end_append:
  assumes "\<forall>c \<in> set u. c \<noteq> CHR ''/'' \<and> c \<noteq> CHR ''?'' \<and> c \<noteq> CHR ''#''"
  shows "authority_end (u @ t) = length u + authority_end t"
proof -
  have "CHR ''/'' \<notin> set u" "CHR ''?'' \<notin> set u" "CHR ''#'' \<notin> set u"
    using assms by blast+
  then show ?thesis
    by (cases "find_char (CHR ''/'') t"; cases "find_char (CHR ''?'') t";
        cases "find_char (CHR ''#'') t") (simp_all add: authority_end_def find_char_append)
qed

text \<open>
  A URL with credentials is logged without them: everything between the scheme and the last at
  sign of the authority is replaced, whatever it is (a password may contain at signs and
  colons), and the host, the path and the query stay.  The result does not mention the
  credentials at all, so two URLs that differ only in them are logged alike.
\<close>

lemma redact_userinfo:
  assumes "CHR '':'' \<notin> set scheme"
    and "\<forall>c \<in> set userinfo. c \<noteq> CHR ''/'' \<and> c \<noteq> CHR ''?'' \<and> c \<noteq> CHR ''#''"
  shows "redact_url (scheme @ ''://'' @ userinfo @ ''@'' @ tail) =
    scheme @ ''://***:***@'' @ after_last (CHR ''@'') (take (authority_end tail) tail)
      @ drop (authority_end tail) tail"
proof -
  let ?u = "userinfo @ ''@''"
  have e: "authority_end (?u @ tail) = length ?u + authority_end tail"
    using assms(2) by (intro authority_end_append) auto
  obtain i where i: "rfind_char (CHR ''@'') (userinfo @ CHR ''@'' # take (authority_end tail) tail) = Some i"
    using rfind_char_hit by blast
  then have "drop (i + 1) (userinfo @ CHR ''@'' # take (authority_end tail) tail) =
      after_last (CHR ''@'') (take (authority_end tail) tail)"
    using after_last_rfind [OF i] by (simp only: after_last_append)
  with e i find_str_scheme [OF assms(1), of "?u @ tail"] show ?thesis
    by (simp add: redact_url_def Let_def)
qed

end
