(* ===== verification/Store_Settings.thy ===== *)
theory Store_Settings
  imports Pg_Tune Url_Params Sql_Text
begin

section \<open>What PgStore::new computes before it connects (src/store.rs)\<close>

text \<open>
  The first half of \<^verbatim>\<open>PgStore::new\<close> is a function of the URL and the environment: the merged
  configuration, the tuning with the partition count of the URL, the pool sizes and timeouts, and
  the SQL texts of a session.  The parser of \<^verbatim>\<open>PgConnectOptions\<close> belongs to the driver; the
  parameter \<open>url_error\<close> gives the text of its error, if it has one.  The second half, which talks
  to the server, is in theory \<open>Pg_Store\<close>.
\<close>

subsection \<open>Texts\<close>

text \<open>The em dash of the messages, U+2014 in UTF-8.\<close>

definition em_dash :: string where
  "em_dash = map char_of [226, 128, 148 :: nat]"

definition SHUTTING_DOWN_MSG :: string where
  "SHUTTING_DOWN_MSG = ''PgStore is shutting down '' @ em_dash @ '' new transactions are refused''"

definition CONNECT_ZERO_MSG :: string where
  "CONNECT_ZERO_MSG = ''connect_direct: connect_timeout must be > 0 (pool mode sets it to ZERO ''
     @ em_dash @ '' caller bug)''"

definition DEFAULT_CONNECT_TIMEOUT :: duration where "DEFAULT_CONNECT_TIMEOUT = from_secs 30"
definition HEARTBEAT_SHUTDOWN_TIMEOUT :: duration where "HEARTBEAT_SHUTDOWN_TIMEOUT = from_secs 15"
definition POOL_CLOSE_TIMEOUT :: duration where "POOL_CLOSE_TIMEOUT = from_secs 30"
definition DIRECT_SHUTDOWN_GRACE :: duration where "DIRECT_SHUTDOWN_GRACE = from_secs 3"
definition DIRECT_SHUTDOWN_POLL :: duration where "DIRECT_SHUTDOWN_POLL = from_millis 100"

subsection \<open>The partition count of an existing table\<close>

definition verify_partition_count :: "string \<Rightarrow> nat \<Rightarrow> int \<Rightarrow> (pg_store_error, unit) outcome" where
  "verify_partition_count tbl expected actual =
     (let has = ''hash_partitions mismatch: table '' @ quoted tbl @ '' has '' @ fmt_int actual
            @ '' existing hash partitions but configuration expects '';
          fix = ''Hash partition count is immutable '' @ em_dash @ '' to change it, drop and recreate ''
            @ ''the table, or update hash_partitions to '' @ fmt_int actual
            @ '' to match the existing table.'' in
      if expected \<le> 1 then
        if 0 < actual then Err (Other (has @ ''no partitioning (hash_partitions=1). '' @ fix))
        else Ok ()
      else if actual \<noteq> int expected then
        if actual = 0 then
          Err (Other (''hash_partitions mismatch: table '' @ quoted tbl @ '' is not partitioned ''
            @ ''but configuration expects hash_partitions='' @ fmt_nat expected @ ''. ''
            @ ''Hash partition count is immutable '' @ em_dash @ '' to use partitioning, drop ''
            @ ''and recreate the table.''))
        else Err (Other (has @ ''hash_partitions='' @ fmt_nat expected @ ''. '' @ fix))
      else Ok ())"

subsection \<open>Configuration and tuning\<close>

definition cap_min :: "pg_config \<Rightarrow> pg_config" where
  "cap_min cfg =
     (case (min_connections cfg, max_connections cfg) of
        (Some mn, Some mx) \<Rightarrow> if mx < mn then cfg\<lparr>min_connections := Some mx\<rparr> else cfg
      | _ \<Rightarrow> cfg)"

definition load_config :: "environment \<Rightarrow> string \<Rightarrow> (pg_store_error, pg_config) outcome" where
  "load_config env url =
     (case merge_url_params url default_config of
        (Err m, _) \<Rightarrow> Err (Other m)
      | (Panic, _) \<Rightarrow> Panic
      | (Ok _, cfg) \<Rightarrow>
          (let cfg = merge_env env cfg in
           case validate_identifier (table_name cfg) of
             Err e \<Rightarrow> Err (Other (''table_name '' @ quoted (table_name cfg)
                        @ '' is invalid after config merge: '' @ e))
           | Panic \<Rightarrow> Panic
           | Ok _ \<Rightarrow> Ok (cap_min cfg)))"

definition override_partitions :: "pg_config \<Rightarrow> tune \<Rightarrow> tune" where
  "override_partitions cfg tn =
     (case hash_partitions cfg of
        Some hp \<Rightarrow> if hp = 0 then tn else if 1024 < hp then tn else tn\<lparr>partitions := hp\<rparr>
      | None \<Rightarrow> tn)"

definition unwrap_or :: "'a option \<Rightarrow> 'a \<Rightarrow> 'a" where
  "unwrap_or v d = (case v of Some x \<Rightarrow> x | None \<Rightarrow> d)"

definition fmt_keepalive_secs :: "duration \<Rightarrow> string" where
  "fmt_keepalive_secs d =
     (let secs = as_secs d in if secs = 0 \<and> d \<noteq> 0 then ''1'' else fmt_nat secs)"

definition keepalive_text :: "tune \<Rightarrow> string" where
  "keepalive_text tn =
     ''SET tcp_keepalives_idle = '' @ fmt_keepalive_secs (keepalive_idle tn)
     @ ''; SET tcp_keepalives_interval = '' @ fmt_keepalive_secs (keepalive_interval tn)
     @ ''; SET tcp_keepalives_count = '' @ fmt_nat (keepalive_count tn)"

definition resolve_persistent :: "pg_config \<Rightarrow> bool" where
  "resolve_persistent cfg =
     (if pooler cfg then False
      else case persistent_statements cfg of Auto \<Rightarrow> True | p \<Rightarrow> resolve p True)"

subsection \<open>The store\<close>

datatype conn_mode = PooledMode | DirectMode

record pg_store =
  st_mode :: conn_mode
  st_config :: pg_config
  st_tune :: tune
  st_persistent :: bool
  st_pool_max :: nat
  st_begin_sql :: string
  st_vacuum_sql :: string
  st_sql :: sql_texts
  st_session_sql :: string
  st_keepalive_sql :: string
  st_connect_timeout :: duration
  st_heartbeat_interval :: duration

text \<open>The settings of the pool, which the store itself does not keep.\<close>

record pool_settings =
  ps_max :: nat
  ps_min :: nat
  ps_acquire :: duration
  ps_idle :: "duration option"
  ps_lifetime :: "duration option"
  ps_slow :: "duration option"

definition pool_settings_of :: "pg_config \<Rightarrow> tune \<Rightarrow> pool_settings" where
  "pool_settings_of cfg tn =
     (let mx = unwrap_or (max_connections cfg) (pool_max tn) in
      \<lparr>ps_max = mx,
       ps_min = min (unwrap_or (min_connections cfg) (pool_min tn)) mx,
       ps_acquire = unwrap_or (connect_timeout cfg) (pool_acquire_timeout tn),
       ps_idle = or_keep (idle_timeout cfg) (Some (pool_idle_timeout tn)),
       ps_lifetime = or_keep (max_lifetime cfg) (Some (pool_max_lifetime tn)),
       ps_slow = slow_acquire_threshold_secs cfg\<rparr>)"

definition resolve_connect_timeout :: "pg_config \<Rightarrow> tune \<Rightarrow> duration" where
  "resolve_connect_timeout cfg tn =
     (if pooler cfg then
        unwrap_or (connect_timeout cfg) (max (pool_acquire_timeout tn) DEFAULT_CONNECT_TIMEOUT)
      else 0)"

definition prepare ::
  "f64_io \<Rightarrow> environment \<Rightarrow> (string \<Rightarrow> string option) \<Rightarrow> string \<Rightarrow>
     (pg_store_error, pg_store \<times> pool_settings) outcome" where
  "prepare io env url_error url =
     and_then (load_config env url) (\<lambda>cfg.
       let tn = override_partitions cfg (tune_from_env io env);
           ps = pool_settings_of cfg tn in
       if ps_max ps = 0 \<and> \<not> pooler cfg then
         Err (Other ''max_connections must be > 0 in pool mode'')
       else case url_error (strip_custom_params url) of
         Some e \<Rightarrow> Err (Postgres (''invalid URL '' @ redact_url url @ '': '' @ e))
       | None \<Rightarrow>
          (case session_sql io tn of
             Ok ss \<Rightarrow>
               Ok (\<lparr>st_mode = (if pooler cfg then DirectMode else PooledMode),
                   st_config = cfg, st_tune = tn,
                   st_persistent = resolve_persistent cfg,
                   st_pool_max = ps_max ps,
                   st_begin_sql = ''BEGIN ISOLATION LEVEL '' @ as_sql (isolation_level cfg),
                   st_vacuum_sql = ''VACUUM ANALYZE '' @ table_name cfg,
                   st_sql = sql_new (table_name cfg),
                   st_session_sql = ss,
                   st_keepalive_sql = keepalive_text tn,
                   st_connect_timeout = resolve_connect_timeout cfg tn,
                   st_heartbeat_interval = keepalive_idle tn\<rparr>, ps)
           | Err e \<Rightarrow> Err (Other e)
           | Panic \<Rightarrow> Panic))"

subsection \<open>What it guarantees\<close>

text \<open>What the rest of the store relies on.\<close>

definition store_ok :: "pg_store \<Rightarrow> bool" where
  "store_ok st \<longleftrightarrow> config_ok (st_config st) \<and> tune_ok (st_tune st) \<and>
     (st_mode st = DirectMode \<longleftrightarrow> pooler (st_config st)) \<and>
     (st_mode st = DirectMode \<longleftrightarrow> 0 < st_connect_timeout st) \<and>
     0 < st_pool_max st \<and> 0 < st_heartbeat_interval st \<and>
     (st_mode st = DirectMode \<longrightarrow> \<not> st_persistent st) \<and>
     st_sql st = sql_new (table_name (st_config st))"

definition pool_ok :: "pool_settings \<Rightarrow> bool" where
  "pool_ok ps \<longleftrightarrow> 0 < ps_max ps \<and> ps_min ps \<le> ps_max ps \<and> 0 < ps_acquire ps \<and>
     pred_option (\<lambda>d. 0 < d) (ps_idle ps) \<and> pred_option (\<lambda>d. 0 < d) (ps_lifetime ps) \<and>
     pred_option (\<lambda>d. 0 < d) (ps_slow ps)"


lemma merge_url_params_no_panic: "fst (merge_url_params url cfg) \<noteq> Panic"
proof -
  have param: "fst (merge_param k v c) \<noteq> Panic" for k v c
    by (simp add: merge_param_def split: option.splits outcome.splits)
  have "fst (merge_pairs ps c) \<noteq> Panic" for ps c
  proof (induction ps arbitrary: c)
    case (Cons p ps)
    show ?case
      using Cons.IH param
      by (auto split: option.splits prod.splits outcome.splits) (metis fst_conv)+
  qed simp
  then show ?thesis by (simp add: merge_url_params_def split: option.splits)
qed

lemma merged_config_ok: "merge_url_params url default_config = (r, cfg) \<Longrightarrow> config_ok cfg"
  using config_ok_merge [OF default_config_ok, of url] by simp

lemma cap_min_ok: "config_ok cfg \<Longrightarrow> config_ok (cap_min cfg)"
  by (auto simp: cap_min_def config_ok_def split: option.splits)

lemma load_config_ok: "load_config env url = Ok cfg \<Longrightarrow> config_ok cfg"
  by (auto simp: load_config_def Let_def merge_env_ok cap_min_ok merged_config_ok
      split: prod.splits outcome.splits)

lemma load_config_no_panic: "load_config env url \<noteq> Panic"
  using merge_url_params_no_panic [of url default_config]
  by (auto simp: load_config_def Let_def split: prod.splits outcome.splits)

lemma override_ok:
  assumes "tune_ok tn"
  shows "tune_ok (override_partitions cfg tn)"
  using assms
  by (auto simp: override_partitions_def tune_ok_def tune_asserts_def session_asserts_def
      split: option.splits)

lemma tune_session_ok: "tune_ok tn \<Longrightarrow> \<exists>ss. session_sql io tn = Ok ss"
  by (simp add: session_sql_def asserting_def tune_ok_def)

lemma unwrap_or_pos: "pred_option (\<lambda>d. 0 < d) v \<Longrightarrow> 0 < d \<Longrightarrow> 0 < (unwrap_or v d :: nat)"
  by (cases v) (simp_all add: unwrap_or_def)

lemma pool_settings_ok: "config_ok cfg \<Longrightarrow> tune_ok tn \<Longrightarrow> pool_ok (pool_settings_of cfg tn)"
proof -
  assume c: "config_ok cfg" and t: "tune_ok tn"
  from c have "pred_option (\<lambda>d. 0 < d) (max_connections cfg)"
    by (cases "max_connections cfg") (simp_all add: config_ok_def)
  moreover from c have "pred_option (\<lambda>d. 0 < d) (connect_timeout cfg)"
    "pred_option (\<lambda>d. 0 < d) (idle_timeout cfg)" "pred_option (\<lambda>d. 0 < d) (max_lifetime cfg)"
    "pred_option (\<lambda>d. 0 < d) (slow_acquire_threshold_secs cfg)"
    by (simp_all add: config_ok_def)
  moreover from t have "0 < pool_max tn" "0 < pool_acquire_timeout tn" "0 < pool_idle_timeout tn"
    "0 < pool_max_lifetime tn" by (simp_all add: tune_ok_def)
  ultimately show ?thesis
    by (simp add: pool_ok_def pool_settings_of_def Let_def unwrap_or_pos or_keep_pred)
qed

lemma connect_timeout_pos:
  "config_ok cfg \<Longrightarrow> 0 < resolve_connect_timeout cfg tn \<longleftrightarrow> pooler cfg"
  by (auto simp: resolve_connect_timeout_def config_ok_def DEFAULT_CONNECT_TIMEOUT_def
      from_secs_def max_def intro!: unwrap_or_pos)

lemma prepare_ok:
  assumes "prepare io env url_error url = Ok (st, ps)"
  shows "store_ok st \<and> pool_ok ps"
proof -
  from assms obtain cfg where cfg: "load_config env url = Ok cfg"
    by (auto simp: prepare_def)
  define tn where "tn = override_partitions cfg (tune_from_env io env)"
  have c: "config_ok cfg" using cfg by (rule load_config_ok)
  have t: "tune_ok tn" unfolding tn_def by (rule override_ok [OF tune_ok_from_env])
  have p: "pool_ok (pool_settings_of cfg tn)" using c t by (rule pool_settings_ok)
  from assms cfg obtain ss where st: "ps = pool_settings_of cfg tn"
    "st = \<lparr>st_mode = (if pooler cfg then DirectMode else PooledMode),
           st_config = cfg, st_tune = tn, st_persistent = resolve_persistent cfg,
           st_pool_max = ps_max ps, st_begin_sql = ''BEGIN ISOLATION LEVEL '' @ as_sql (isolation_level cfg),
           st_vacuum_sql = ''VACUUM ANALYZE '' @ table_name cfg, st_sql = sql_new (table_name cfg),
           st_session_sql = ss, st_keepalive_sql = keepalive_text tn,
           st_connect_timeout = resolve_connect_timeout cfg tn,
           st_heartbeat_interval = keepalive_idle tn\<rparr>"
    by (auto simp: prepare_def Let_def tn_def split: if_splits option.splits outcome.splits)
  have "0 < keepalive_idle tn" using t by (simp add: tune_ok_def)
  then show ?thesis
    using st c t p connect_timeout_pos [OF c, of tn]
    by (simp add: store_ok_def resolve_persistent_def) (simp add: pool_ok_def)
qed

lemma prepare_no_panic: "prepare io env url_error url \<noteq> Panic"
proof -
  have no: "session_sql io (override_partitions cfg (tune_from_env io env)) \<noteq> Panic" for cfg
    using tune_session_ok [OF override_ok [OF tune_ok_from_env], of io cfg io env] by auto
  show ?thesis
    using load_config_no_panic [of env url] no
    by (cases "load_config env url")
       (auto simp: prepare_def Let_def split: option.splits outcome.splits)
qed

end
