(* ===== verification/Pg_Store.thy ===== *)
theory Pg_Store
  imports Store_Settings Pg_Transaction
begin

section \<open>The store (src/store.rs)\<close>

text \<open>
  \<^verbatim>\<open>PgStore\<close> against its driver: start-up, \<^verbatim>\<open>begin\<close> with its retries in both modes, health check,
  vacuum, shutdown and the metrics.  The driver (sqlx, tokio and the clock) is a parameter, a
  \<open>pg_driver\<close> whose calls act on the whole state, so that other tasks may run, and change the
  shared counters, while a call or a sleep is awaited.  A call with a timeout returns \<open>None\<close> when
  the time is up.  Log lines are not modelled; a \<^verbatim>\<open>debug_assert!\<close> is absent from a release build.
\<close>

subsection \<open>Shared state and driver\<close>

text \<open>The atomics and the heartbeat handles, which the clones of a store share.\<close>

record shared =
  sh_shutdown :: bool
  sh_started :: u64
  sh_committed :: u64
  sh_rolled_back :: u64
  sh_active :: u64
  sh_warned :: bool
  sh_hb_cancelled :: bool
  sh_hb_handle :: bool

record ('c, 's) pool_options =
  po_settings :: pool_settings
  po_after_connect :: "'c \<Rightarrow> 's \<Rightarrow> (sqlx_error + unit) \<times> 's"
  po_before_acquire :: "duration \<Rightarrow> 'c \<Rightarrow> 's \<Rightarrow> (sqlx_error + bool) \<times> 's"

record ('c, 's) pg_driver =
  drv_pool_connect :: "('c, 's) pool_options \<Rightarrow> 's \<Rightarrow> (sqlx_error + unit) \<times> 's"
  drv_pool_exec :: "string \<Rightarrow> 's \<Rightarrow> (sqlx_error + unit) \<times> 's"
  drv_pool_count :: "string \<Rightarrow> string \<Rightarrow> 's \<Rightarrow> (sqlx_error + int) \<times> 's"
  drv_pool_begin :: "string \<Rightarrow> 's \<Rightarrow> (sqlx_error + unit) \<times> 's"
  drv_pool_size :: "'s \<Rightarrow> nat"
  drv_pool_idle :: "'s \<Rightarrow> nat"
  drv_pool_close :: "duration \<Rightarrow> 's \<Rightarrow> 's"
  drv_connect :: "duration \<Rightarrow> 's \<Rightarrow> (sqlx_error + 'c) option \<times> 's"
  drv_exec :: "'c \<Rightarrow> string \<Rightarrow> 's \<Rightarrow> (sqlx_error + unit) \<times> 's"
  drv_exec_timeout :: "duration \<Rightarrow> 'c \<Rightarrow> string \<Rightarrow> 's \<Rightarrow> (sqlx_error + unit) option \<times> 's"
  drv_count :: "'c \<Rightarrow> string \<Rightarrow> string \<Rightarrow> 's \<Rightarrow> (sqlx_error + int) \<times> 's"
  drv_ping :: "'c \<Rightarrow> 's \<Rightarrow> (sqlx_error + unit) \<times> 's"
  drv_sleep :: "duration \<Rightarrow> 's \<Rightarrow> 's"
  drv_now :: "'s \<Rightarrow> duration"
  drv_join :: "duration \<Rightarrow> 's \<Rightarrow> 's"

text \<open>\<^verbatim>\<open>map_err(|e| from_sqlx(None, &e))\<close> on the result of a driver call.\<close>

definition sqlx_result :: "(sqlx_error + 'a) \<times> 's \<Rightarrow> 'a result \<times> 's" where
  "sqlx_result p = (case p of (Inl e, s) \<Rightarrow> (Err (from_sqlx None e), s) | (Inr a, s) \<Rightarrow> (Ok a, s))"

text \<open>\<^verbatim>\<open>?\<close> in a function that awaits.\<close>

definition then_run :: "'a result \<times> 's \<Rightarrow> ('a \<Rightarrow> 's \<Rightarrow> 'b result \<times> 's) \<Rightarrow> 'b result \<times> 's" where
  "then_run p f = (case p of (Ok a, s) \<Rightarrow> f a s | (Err e, s) \<Rightarrow> (Err e, s) | (Panic, s) \<Rightarrow> (Panic, s))"

subsection \<open>Direct connections\<close>

definition connect_direct :: "('c, 's) pg_driver \<Rightarrow> duration \<Rightarrow> 's \<Rightarrow> 'c result \<times> 's" where
  "connect_direct drv timeout s =
     (if timeout = 0 then (Err (Other CONNECT_ZERO_MSG), s)
      else case drv_connect drv timeout s of
        (Some (Inr c), s') \<Rightarrow> (Ok c, s')
      | (Some (Inl e), s') \<Rightarrow> (Err (from_sqlx None e), s')
      | (None, s') \<Rightarrow> (Err (ConnectTimeout timeout), s'))"

definition connect_direct_with_session ::
  "('c, 's) pg_driver \<Rightarrow> duration \<Rightarrow> string \<Rightarrow> string \<Rightarrow> 's \<Rightarrow> 'c result \<times> 's" where
  "connect_direct_with_session drv timeout keepalive session s =
     then_run (connect_direct drv timeout s) (\<lambda>c s1.
       let s2 = snd (drv_exec_timeout drv timeout c keepalive s1);
           s3 = snd (drv_exec_timeout drv timeout c session s2)
       in (Ok c, s3))"

subsection \<open>Pool callbacks\<close>

definition after_connect ::
  "('c, 's) pg_driver \<Rightarrow> duration \<Rightarrow> string \<Rightarrow> string \<Rightarrow> 'c \<Rightarrow> 's \<Rightarrow> (sqlx_error + unit) \<times> 's" where
  "after_connect drv timeout keepalive session c s =
     (let s1 = snd (drv_exec_timeout drv timeout c keepalive s) in
      case drv_exec_timeout drv timeout c session s1 of
        (Some (Inr u), s2) \<Rightarrow> (Inr (), s2)
      | (Some (Inl e), s2) \<Rightarrow> (Inl e, s2)
      | (None, s2) \<Rightarrow> (Inl (Protocol ''session SQL timed out in after_connect''), s2))"

definition before_acquire ::
  "('c, 's) pg_driver \<Rightarrow> duration \<Rightarrow> duration \<Rightarrow> 'c \<Rightarrow> 's \<Rightarrow> (sqlx_error + bool) \<times> 's" where
  "before_acquire drv ping_threshold idle_for c s =
     (if ping_threshold < idle_for then
        (case drv_ping drv c s of (Inl e, s') \<Rightarrow> (Inl e, s') | (Inr u, s') \<Rightarrow> (Inr True, s'))
      else (Inr True, s))"

subsection \<open>Start-up\<close>

definition connect_mode ::
  "('c, 's) pg_driver \<Rightarrow> pg_store \<Rightarrow> pool_settings \<Rightarrow> 's \<Rightarrow> unit result \<times> 's" where
  "connect_mode drv st ps s =
     (case st_mode st of
        DirectMode \<Rightarrow> (Ok (), s)
      | PooledMode \<Rightarrow>
          sqlx_result (drv_pool_connect drv
            \<lparr>po_settings = ps,
             po_after_connect =
               after_connect drv (ps_acquire ps) (st_keepalive_sql st) (st_session_sql st),
             po_before_acquire = before_acquire drv (keepalive_idle (st_tune st))\<rparr> s))"

text \<open>The table is created, then tuned; a failure of the tuning is only logged.\<close>

definition create_table :: "('c, 's) pg_driver \<Rightarrow> f64_io \<Rightarrow> pg_store \<Rightarrow> 's \<Rightarrow> unit result \<times> 's" where
  "create_table drv io st s =
     (let tbl = table_name (st_config st) in
      case (create_table_sql (st_tune st) tbl, tune_table_sql io (st_tune st) tbl) of
        (Ok create_sql, Ok tune_sql) \<Rightarrow>
          (case st_mode st of
             PooledMode \<Rightarrow>
               then_run (sqlx_result (drv_pool_exec drv create_sql s)) (\<lambda>_ s1.
                 (Ok (), snd (drv_pool_exec drv tune_sql s1)))
           | DirectMode \<Rightarrow>
               then_run (connect_direct_with_session drv (st_connect_timeout st)
                   (st_keepalive_sql st) (st_session_sql st) s) (\<lambda>c s1.
                 then_run (sqlx_result (drv_exec drv c create_sql s1)) (\<lambda>_ s2.
                   (Ok (), snd (drv_exec drv c tune_sql s2)))))
      | _ \<Rightarrow> (Panic, s))"

definition verify_table :: "('c, 's) pg_driver \<Rightarrow> pg_store \<Rightarrow> 's \<Rightarrow> unit result \<times> 's" where
  "verify_table drv st s =
     (let tbl = table_name (st_config st);
          verify = (\<lambda>actual s'. (verify_partition_count tbl (partitions (st_tune st)) actual, s')) in
      case partition_count_sql tbl of
        Ok check_sql \<Rightarrow>
          (case st_mode st of
             PooledMode \<Rightarrow> then_run (sqlx_result (drv_pool_count drv check_sql tbl s)) verify
           | DirectMode \<Rightarrow>
               then_run (connect_direct drv (st_connect_timeout st) s) (\<lambda>c s1.
                 then_run (sqlx_result (drv_count drv c check_sql tbl s1)) verify))
      | _ \<Rightarrow> (Panic, s))"

definition start_up ::
  "('c, 's) pg_driver \<Rightarrow> f64_io \<Rightarrow> pg_store \<Rightarrow> pool_settings \<Rightarrow> 's \<Rightarrow> unit result \<times> 's" where
  "start_up drv io st ps s =
     then_run (connect_mode drv st ps s) (\<lambda>_ s1.
       if auto_create_table (st_config st) then
         then_run (create_table drv io st s1) (\<lambda>_ s2. verify_table drv st s2)
       else (Ok (), s1))"

text \<open>
  In direct mode the heartbeat task is spawned before the first fallible step that follows; its
  guard cancels the task on every way out but the last.
\<close>

definition spawn_heartbeat :: "pg_store \<Rightarrow> 'w shared_scheme \<Rightarrow> 'w shared_scheme" where
  "spawn_heartbeat st s =
     (if pooler (st_config st) then s\<lparr>sh_hb_cancelled := False, sh_hb_handle := True\<rparr>
      else s\<lparr>sh_hb_handle := False\<rparr>)"

definition cancel_heartbeat :: "pg_store \<Rightarrow> 'w shared_scheme \<Rightarrow> 'w shared_scheme" where
  "cancel_heartbeat st s = (if pooler (st_config st) then s\<lparr>sh_hb_cancelled := True\<rparr> else s)"

definition init_shared :: "'w shared_scheme \<Rightarrow> 'w shared_scheme" where
  "init_shared s =
     s\<lparr>sh_shutdown := False, sh_started := 0, sh_committed := 0, sh_rolled_back := 0, sh_active := 0,
       sh_warned := False\<rparr>"

definition store_new ::
  "('c, 'w shared_scheme) pg_driver \<Rightarrow> f64_io \<Rightarrow> environment \<Rightarrow> (string \<Rightarrow> string option) \<Rightarrow> string \<Rightarrow>
     'w shared_scheme \<Rightarrow> pg_store result \<times> 'w shared_scheme" where
  "store_new drv io env url_error url s =
     (case prepare io env url_error url of
        Err e \<Rightarrow> (Err e, s)
      | Panic \<Rightarrow> (Panic, s)
      | Ok (st, ps) \<Rightarrow>
          (case start_up drv io st ps (spawn_heartbeat st s) of
             (Ok u, s') \<Rightarrow> (Ok st, init_shared s')
           | (Err e, s') \<Rightarrow> (Err e, cancel_heartbeat st s')
           | (Panic, s') \<Rightarrow> (Panic, cancel_heartbeat st s')))"

text \<open>\<^verbatim>\<open>Drop for PgStore\<close>.\<close>

definition store_drop :: "pg_store \<Rightarrow> 'w shared_scheme \<Rightarrow> 'w shared_scheme" where
  "store_drop = cancel_heartbeat"

end
