(* ===== verification/Store_Ops.thy ===== *)
theory Store_Ops
  imports Pg_Store
begin

section \<open>Operations of the store (src/store.rs)\<close>

text \<open>
  \<^verbatim>\<open>begin\<close> with its retry loops in both modes, the health check, vacuum, shutdown and the metric
  accessors.  A retry loop is split into one attempt, which returns its result or asks for another
  one (the \<^verbatim>\<open>continue\<close> of the source), and the loop itself, which stops because an attempt
  asks for another only below its bound.  The laws of such a loop are the locale \<open>retry_loop\<close>.
\<close>

subsection \<open>Retry loops\<close>

datatype 'r attempt = Done 'r | Again

text \<open>The attempts that ask for another: \<open>retries att n x m y\<close> is a run of them.\<close>

inductive retries :: "(nat \<Rightarrow> 'x \<Rightarrow> 'r attempt \<times> 'x) \<Rightarrow> nat \<Rightarrow> 'x \<Rightarrow> nat \<Rightarrow> 'x \<Rightarrow> bool"
  for att :: "nat \<Rightarrow> 'x \<Rightarrow> 'r attempt \<times> 'x" where
  no_retry: "retries att n x n x"
| one_more: "\<lbrakk>att n x = (Again, y); retries att (Suc n) y m z\<rbrakk> \<Longrightarrow> retries att n x m z"

locale retry_loop =
  fixes att :: "nat \<Rightarrow> 'x \<Rightarrow> 'r attempt \<times> 'x" and loop :: "nat \<Rightarrow> 'x \<Rightarrow> 'r \<times> 'x" and bound :: nat
  assumes unroll: "loop n x = (case att n x of (Done r, y) \<Rightarrow> (r, y) | (Again, y) \<Rightarrow> loop (Suc n) y)"
    and bounded: "att n x = (Again, y) \<Longrightarrow> n \<le> bound"
begin

lemma retries_bound: "retries att n x m y \<Longrightarrow> n \<le> Suc bound \<Longrightarrow> n \<le> m \<and> m \<le> Suc bound"
proof (induction rule: retries.induct)
  case (one_more n x y m z)
  then show ?case using bounded [OF one_more(1)] by simp
qed simp

text \<open>The loop returns the result of one attempt, the last, and that is one of the first few.\<close>

lemma loop_result:
  assumes "n \<le> Suc bound"
  obtains m y r z where "retries att n x m y" "att m y = (Done r, z)" "loop n x = (r, z)"
    "n \<le> m" "m \<le> Suc bound"
proof -
  have "\<exists>m y r z. retries att n x m y \<and> att m y = (Done r, z) \<and> loop n x = (r, z)"
    using assms
  proof (induction "Suc bound - n" arbitrary: n x rule: less_induct)
    case less
    obtain a y where a: "att n x = (a, y)" by (cases "att n x")
    show ?case
    proof (cases a)
      case (Done r)
      then show ?thesis using a unroll [of n x] no_retry by fastforce
    next
      case Again
      then have "n \<le> bound" using a bounded by blast
      then obtain m y' r z where "retries att (Suc n) y m y'" "att m y' = (Done r, z)" "loop (Suc n) y = (r, z)"
        using less.hyps [of "Suc n" y] by (auto simp: Suc_diff_le)
      then show ?thesis using a Again unroll [of n x] one_more by fastforce
    qed
  qed
  then show thesis using that retries_bound assms by metis
qed

text \<open>What every attempt keeps, the loop keeps; what the last attempt establishes, the loop does.\<close>

lemma loop_invariant:
  assumes "n \<le> Suc bound" "P x" "\<And>n x y. P x \<Longrightarrow> att n x = (Again, y) \<Longrightarrow> P y"
    "\<And>m x r y. n \<le> m \<Longrightarrow> P x \<Longrightarrow> att m x = (Done r, y) \<Longrightarrow> Q m r y"
  shows "\<exists>m \<le> Suc bound. n \<le> m \<and> Q m (fst (loop n x)) (snd (loop n x))"
proof -
  obtain m y r z where 1: "retries att n x m y" "att m y = (Done r, z)" "loop n x = (r, z)"
    "n \<le> m" "m \<le> Suc bound" by (rule loop_result [OF assms(1)])
  from 1(1) assms(2) have "P y" by (induction rule: retries.induct) (blast intro: assms(3))+
  with 1 assms(4) show ?thesis by auto
qed

end

subsection \<open>begin, pooled\<close>

definition BEGIN_MAX_RETRIES :: nat where "BEGIN_MAX_RETRIES = 2"

definition begin_delay :: "bool \<Rightarrow> nat \<Rightarrow> nat" where
  "begin_delay zombie n =
     (if zombie then min (5000 * 2 ^ (n - 1)) 15000 else min (200 * 2 ^ (n - 1)) 2000)"

text \<open>The wrapping of the last error once there has been more than one attempt.\<close>

definition give_up :: "string \<Rightarrow> nat \<Rightarrow> pg_store_error \<Rightarrow> pg_store_error" where
  "give_up what n e =
     (if 1 < n then Other (what @ '' failed after '' @ fmt_nat n @ '' attempts (last: '' @ display_error e @ '')'')
      else e)"

definition pool_size :: "('c, 's) pg_driver \<Rightarrow> pg_store \<Rightarrow> 's \<Rightarrow> nat \<times> nat" where
  "pool_size drv st s =
     (case st_mode st of PooledMode \<Rightarrow> (drv_pool_size drv s, drv_pool_idle drv s) | DirectMode \<Rightarrow> (0, 0))"

text \<open>\<^verbatim>\<open>tx_started\<close> and \<^verbatim>\<open>tx_active\<close> of a transaction that has begun.\<close>

definition count_begin :: "'w shared_scheme \<Rightarrow> 'w shared_scheme" where
  "count_begin s = s\<lparr>sh_started := sh_started s + 1, sh_active := sh_active s + 1\<rparr>"

text \<open>What follows the check of the barrier in one pass of the loop.\<close>

definition begin_pooled_try ::
  "('c, 'w shared_scheme) pg_driver \<Rightarrow> pg_store \<Rightarrow> bool \<Rightarrow> nat \<Rightarrow> bool \<times> 'w shared_scheme \<Rightarrow>
     pg_tx result attempt \<times> bool \<times> 'w shared_scheme" where
  "begin_pooled_try drv st w n = (\<lambda>(zombie, s).
     case drv_pool_begin drv (st_begin_sql st) s of
       (Inr _, s1) \<Rightarrow>
         (let s2 = count_begin s1 in
          (Done (Ok (new_pooled w (isolation_level (st_config st)) (st_persistent st) (st_sql st)
             (sh_active s2))), zombie, s2))
     | (Inl e, s1) \<Rightarrow>
         (let err = from_sqlx None e;
              (size, idle) = pool_size drv st s1;
              zombie = (zombie \<or> idle = 0 \<and> sh_active s1 = 0 \<and> 0 < size);
              delay = begin_delay zombie n
          in if \<not> is_transient err \<or> BEGIN_MAX_RETRIES < n then
               (Done (Err (give_up ''begin_pooled'' n err)), zombie, s1)
             else (Again, zombie, drv_sleep drv (from_millis delay) s1)))"

definition begin_pooled_attempt ::
  "('c, 'w shared_scheme) pg_driver \<Rightarrow> pg_store \<Rightarrow> bool \<Rightarrow> nat \<Rightarrow> bool \<times> 'w shared_scheme \<Rightarrow>
     pg_tx result attempt \<times> bool \<times> 'w shared_scheme" where
  "begin_pooled_attempt drv st w n = (\<lambda>(zombie, s).
     if sh_shutdown s then (Done (Err (Other SHUTTING_DOWN_MSG)), zombie, s)
     else begin_pooled_try drv st w n (zombie, s))"

lemma begin_pooled_bounded:
  "begin_pooled_attempt drv st w n x = (Again, y) \<Longrightarrow> n \<le> BEGIN_MAX_RETRIES"
  by (auto simp: begin_pooled_attempt_def begin_pooled_try_def Let_def split: prod.splits sum.splits if_splits)

function begin_pooled_loop ::
  "('c, 'w shared_scheme) pg_driver \<Rightarrow> pg_store \<Rightarrow> bool \<Rightarrow> nat \<Rightarrow> bool \<times> 'w shared_scheme \<Rightarrow>
     pg_tx result \<times> bool \<times> 'w shared_scheme" where
  "begin_pooled_loop drv st w n x =
     (case begin_pooled_attempt drv st w n x of
        (Done r, y) \<Rightarrow> (r, y)
      | (Again, y) \<Rightarrow> begin_pooled_loop drv st w (Suc n) y)"
  by pat_completeness auto
termination
proof (relation "measure (\<lambda>(drv, st, w, n, x). Suc BEGIN_MAX_RETRIES - n)", goal_cases)
  case (2 drv st w n x a y)
  then have "n \<le> BEGIN_MAX_RETRIES" using begin_pooled_bounded by metis
  then show ?case by simp
qed simp

declare begin_pooled_loop.simps [simp del]

definition begin_pooled ::
  "('c, 'w shared_scheme) pg_driver \<Rightarrow> pg_store \<Rightarrow> bool \<Rightarrow> 'w shared_scheme \<Rightarrow>
     pg_tx result \<times> 'w shared_scheme" where
  "begin_pooled drv st w s =
     (case begin_pooled_loop drv st w 1 (False, s) of (r, _, s') \<Rightarrow> (r, s'))"

interpretation pooled: retry_loop "begin_pooled_attempt drv st w" "begin_pooled_loop drv st w" BEGIN_MAX_RETRIES
  by unfold_locales (rule begin_pooled_loop.simps, rule begin_pooled_bounded)


subsection \<open>begin, direct\<close>

definition DIRECT_MAX_RETRIES :: nat where "DIRECT_MAX_RETRIES = 2"

definition direct_delay :: "nat \<Rightarrow> nat" where
  "direct_delay n = min (500 * 2 ^ (n - 1)) 5000"

text \<open>One failed step of an attempt: retry it after a delay, or give up.\<close>

definition retry_or_give_up ::
  "('c, 's) pg_driver \<Rightarrow> string \<Rightarrow> nat \<Rightarrow> pg_store_error \<Rightarrow> 's \<Rightarrow> 'a result attempt \<times> 's" where
  "retry_or_give_up drv what n err s =
     (if is_transient err \<and> n \<le> DIRECT_MAX_RETRIES then
        (Again, drv_sleep drv (from_millis (direct_delay n)) s)
      else (Done (Err (give_up what n err)), s))"

definition begin_direct_try ::
  "('c, 'w shared_scheme) pg_driver \<Rightarrow> pg_store \<Rightarrow> bool \<Rightarrow> nat \<Rightarrow> 'w shared_scheme \<Rightarrow>
     pg_tx result attempt \<times> 'w shared_scheme" where
  "begin_direct_try drv st w n s =
     (case connect_direct drv (st_connect_timeout st) s of
        (Panic, s1) \<Rightarrow> (Done Panic, s1)
      | (Err e, s1) \<Rightarrow> retry_or_give_up drv ''begin_direct: TCP connect'' n e s1
      | (Ok c, s1) \<Rightarrow>
          (let s2 = snd (drv_exec_timeout drv (st_connect_timeout st) c (st_keepalive_sql st) s1) in
           case drv_exec_timeout drv (st_connect_timeout st) c (st_session_sql st) s2 of
             (None, s3) \<Rightarrow>
               (if n \<le> DIRECT_MAX_RETRIES then
                  (Again, drv_sleep drv (from_millis (direct_delay n)) s3)
                else (Done (Err (ConnectTimeout (st_connect_timeout st))), s3))
           | (Some (Inl e), s3) \<Rightarrow>
               retry_or_give_up drv ''begin_direct: session SQL'' n (from_sqlx None e) s3
           | (Some (Inr _), s3) \<Rightarrow>
               (case drv_exec drv c (st_begin_sql st) s3 of
                  (Inl e, s4) \<Rightarrow>
                    (let s5 = snd (drv_exec drv c ''ROLLBACK'' s4) in
                     retry_or_give_up drv ''begin_direct: BEGIN'' n (from_sqlx None e) s5)
                | (Inr _, s4) \<Rightarrow>
                    (let s5 = count_begin s4 in
                     (Done (Ok (new_direct w (isolation_level (st_config st)) (st_persistent st)
                        (st_sql st) (sh_active s5))), s5)))))"

definition begin_direct_attempt ::
  "('c, 'w shared_scheme) pg_driver \<Rightarrow> pg_store \<Rightarrow> bool \<Rightarrow> nat \<Rightarrow> 'w shared_scheme \<Rightarrow>
     pg_tx result attempt \<times> 'w shared_scheme" where
  "begin_direct_attempt drv st w n s =
     (if sh_shutdown s then (Done (Err (Other SHUTTING_DOWN_MSG)), s)
      else begin_direct_try drv st w n s)"

lemma retry_bounded: "retry_or_give_up drv what n err s = (Again, y) \<Longrightarrow> n \<le> DIRECT_MAX_RETRIES"
  by (simp add: retry_or_give_up_def split: if_splits)

lemma begin_direct_bounded:
  "begin_direct_attempt drv st w n x = (Again, y) \<Longrightarrow> n \<le> DIRECT_MAX_RETRIES"
  by (auto simp: begin_direct_attempt_def begin_direct_try_def Let_def dest: retry_bounded
      split: prod.splits sum.splits option.splits outcome.splits if_splits)

function begin_direct_loop ::
  "('c, 'w shared_scheme) pg_driver \<Rightarrow> pg_store \<Rightarrow> bool \<Rightarrow> nat \<Rightarrow> 'w shared_scheme \<Rightarrow>
     pg_tx result \<times> 'w shared_scheme" where
  "begin_direct_loop drv st w n x =
     (case begin_direct_attempt drv st w n x of
        (Done r, y) \<Rightarrow> (r, y)
      | (Again, y) \<Rightarrow> begin_direct_loop drv st w (Suc n) y)"
  by pat_completeness auto
termination
proof (relation "measure (\<lambda>(drv, st, w, n, x). Suc DIRECT_MAX_RETRIES - n)", goal_cases)
  case (2 drv st w n x a y)
  then have "n \<le> DIRECT_MAX_RETRIES" using begin_direct_bounded by metis
  then show ?case by simp
qed simp

declare begin_direct_loop.simps [simp del]

definition begin_direct ::
  "('c, 'w shared_scheme) pg_driver \<Rightarrow> pg_store \<Rightarrow> bool \<Rightarrow> 'w shared_scheme \<Rightarrow>
     pg_tx result \<times> 'w shared_scheme" where
  "begin_direct drv st w s = begin_direct_loop drv st w 1 s"

interpretation direct: retry_loop "begin_direct_attempt drv st w" "begin_direct_loop drv st w" DIRECT_MAX_RETRIES
  by unfold_locales (rule begin_direct_loop.simps, rule begin_direct_bounded)

definition store_begin ::
  "('c, 'w shared_scheme) pg_driver \<Rightarrow> pg_store \<Rightarrow> bool \<Rightarrow> 'w shared_scheme \<Rightarrow>
     pg_tx result \<times> 'w shared_scheme" where
  "store_begin drv st w s =
     (if sh_shutdown s then (Err (Other SHUTTING_DOWN_MSG), s)
      else case st_mode st of
        PooledMode \<Rightarrow> begin_pooled drv st w s
      | DirectMode \<Rightarrow> begin_direct drv st w s)"

subsection \<open>Health check and vacuum\<close>

definition HEALTH_MAX_ATTEMPTS :: nat where "HEALTH_MAX_ATTEMPTS = 2"

definition health_attempt ::
  "('c, 's) pg_driver \<Rightarrow> pg_store \<Rightarrow> nat \<Rightarrow> 's \<Rightarrow> unit result attempt \<times> 's" where
  "health_attempt drv st n s =
     (case connect_direct drv (st_connect_timeout st) s of
        (Panic, s1) \<Rightarrow> (Done Panic, s1)
      | (Err e, s1) \<Rightarrow>
          if is_transient e \<and> n < HEALTH_MAX_ATTEMPTS then
            (Again, drv_sleep drv (from_millis 500) s1)
          else (Done (Err (give_up ''health_check: connect'' n e)), s1)
      | (Ok c, s1) \<Rightarrow>
          (case drv_exec drv c ''SELECT 1'' s1 of
             (Inr _, s2) \<Rightarrow> (Done (Ok ()), s2)
           | (Inl e, s2) \<Rightarrow>
               (let err = from_sqlx None e in
                if is_transient err \<and> n < HEALTH_MAX_ATTEMPTS then
                  (Again, drv_sleep drv (from_millis 500) s2)
                else (Done (Err (Other (''health_check: SELECT 1 failed after '' @ fmt_nat n
                       @ '' attempts (last: '' @ display_error err @ '')''))), s2))))"

lemma health_bounded: "health_attempt drv st n x = (Again, y) \<Longrightarrow> n \<le> 1"
  by (auto simp: health_attempt_def HEALTH_MAX_ATTEMPTS_def Let_def
      split: prod.splits sum.splits outcome.splits if_splits)

function health_loop :: "('c, 's) pg_driver \<Rightarrow> pg_store \<Rightarrow> nat \<Rightarrow> 's \<Rightarrow> unit result \<times> 's" where
  "health_loop drv st n x =
     (case health_attempt drv st n x of
        (Done r, y) \<Rightarrow> (r, y)
      | (Again, y) \<Rightarrow> health_loop drv st (Suc n) y)"
  by pat_completeness auto
termination
proof (relation "measure (\<lambda>(drv, st, n, x). 2 - n)", goal_cases)
  case (2 drv st n x a y)
  then have "n \<le> 1" using health_bounded by metis
  then show ?case by simp
qed simp

declare health_loop.simps [simp del]

interpretation health: retry_loop "health_attempt drv st" "health_loop drv st" 1
  by unfold_locales (rule health_loop.simps, rule health_bounded)

definition health_check :: "('c, 's) pg_driver \<Rightarrow> pg_store \<Rightarrow> 's \<Rightarrow> unit result \<times> 's" where
  "health_check drv st s =
     (case st_mode st of
        PooledMode \<Rightarrow> sqlx_result (drv_pool_exec drv ''SELECT 1'' s)
      | DirectMode \<Rightarrow> health_loop drv st 1 s)"

definition vacuum :: "('c, 's) pg_driver \<Rightarrow> pg_store \<Rightarrow> 's \<Rightarrow> unit result \<times> 's" where
  "vacuum drv st s =
     (case st_mode st of
        PooledMode \<Rightarrow> sqlx_result (drv_pool_exec drv (st_vacuum_sql st) s)
      | DirectMode \<Rightarrow>
          then_run (connect_direct drv (st_connect_timeout st) s) (\<lambda>c s1.
            sqlx_result (drv_exec drv c (st_vacuum_sql st) s1)))"

end
