(* ===== verification/Store_Life.thy ===== *)
theory Store_Life
  imports Store_Ops Pg_Tx
begin

section \<open>Shutdown, metrics and the builder (src/store.rs, src/pg_builder.rs)\<close>

text \<open>
  The end of a store, its metric accessors, and the \<^verbatim>\<open>TransactionBuilder\<close> SurrealDB calls.
  The grace loop of the shutdown polls a
  counter that other tasks change, against a clock: it need not end unless the clock moves, so it
  returns an option.
\<close>

subsection \<open>Shutdown\<close>

partial_function (option) grace_loop ::
  "('c, 'w shared_scheme) pg_driver \<Rightarrow> duration \<Rightarrow> 'w shared_scheme \<Rightarrow> 'w shared_scheme option" where
  "grace_loop drv deadline s =
     (if sh_active s = 0 then Some s
      else if deadline \<le> drv_now drv s then Some s
      else grace_loop drv deadline (drv_sleep drv DIRECT_SHUTDOWN_POLL s))"

definition await_heartbeat ::
  "('c, 'w shared_scheme) pg_driver \<Rightarrow> 'w shared_scheme \<Rightarrow> 'w shared_scheme" where
  "await_heartbeat drv s =
     (if sh_hb_handle s then drv_join drv HEARTBEAT_SHUTDOWN_TIMEOUT (s\<lparr>sh_hb_handle := False\<rparr>)
      else s)"

definition store_shutdown ::
  "('c, 'w shared_scheme) pg_driver \<Rightarrow> pg_store \<Rightarrow> 'w shared_scheme \<Rightarrow> 'w shared_scheme option" where
  "store_shutdown drv st s =
     (let s1 = await_heartbeat drv (cancel_heartbeat st (s\<lparr>sh_shutdown := True\<rparr>)) in
      case st_mode st of
        PooledMode \<Rightarrow> Some (drv_pool_close drv POOL_CLOSE_TIMEOUT s1)
      | DirectMode \<Rightarrow>
          if 0 < sh_active s1 then grace_loop drv (drv_now drv s1 + DIRECT_SHUTDOWN_GRACE) s1
          else Some s1)"

subsection \<open>Metrics\<close>

text \<open>The warning is logged when the flag was not yet set; the result says whether it was logged.\<close>

definition check_pool_utilization ::
  "('c, 'w shared_scheme) pg_driver \<Rightarrow> pg_store \<Rightarrow> 'w shared_scheme \<Rightarrow> bool \<times> 'w shared_scheme" where
  "check_pool_utilization drv st s =
     (let size = fst (pool_size drv st s) in
      if size = 0 then (False, s)
      else if st_pool_max st * 4 < size * 5 then (\<not> sh_warned s, s\<lparr>sh_warned := True\<rparr>)
      else (False, s))"

definition tx_metrics :: "'w shared_scheme \<Rightarrow> u64 \<times> u64 \<times> u64 \<times> u64" where
  "tx_metrics s = (sh_started s, sh_committed s, sh_rolled_back s, sh_active s)"

definition is_direct_mode :: "pg_store \<Rightarrow> bool" where
  "is_direct_mode st \<longleftrightarrow> st_mode st = DirectMode"

definition try_resize_pool :: "pg_store \<Rightarrow> nat \<Rightarrow> nat \<Rightarrow> unit result" where
  "try_resize_pool st mx mn =
     (if mx < mn then
        Err (Other (''max_connections ('' @ fmt_nat mx @ '') must be >= min_connections ('' @ fmt_nat mn @ '')''))
      else Ok ())"

text \<open>The metrics with their descriptions, and the group under which they are registered.\<close>

definition u64_metrics :: "(string \<times> string) list" where
  "u64_metrics =
    [(''pg_pool_size'',
      ''Current number of connections in the pool (0 in direct mode)''),
     (''pg_pool_idle'',
      ''Number of idle connections in the pool (0 in direct mode)''),
     (''pg_pool_max'',
      ''Maximum number of connections allowed in the pool (0 in direct mode)''),
     (''pg_tx_started'',
      ''Total number of transactions started''),
     (''pg_tx_committed'',
      ''Total number of transactions committed successfully''),
     (''pg_tx_rolled_back'',
      ''Total number of transactions rolled back or cancelled''),
     (''pg_tx_active'',
      ''Number of currently active transactions''),
     (''pg_direct_mode'',
      ''1 if using direct connection mode (pooler), 0 if pooled'')]"

definition register_metrics :: "(string \<times> (string \<times> string) list) option" where
  "register_metrics = Some (''surrealdb.postgresql'', u64_metrics)"

definition METRICS :: "string list" where
  "METRICS = map fst u64_metrics"

definition collect_u64_metric ::
  "('c, 'w shared_scheme) pg_driver \<Rightarrow> pg_store \<Rightarrow> string \<Rightarrow> 'w shared_scheme \<Rightarrow>
     nat option \<times> 'w shared_scheme" where
  "collect_u64_metric drv st metric s =
     (if metric = ''pg_pool_size'' \<or> metric = ''pg_pool_idle'' then
        (let (size, idle) = pool_size drv st s;
             s1 = snd (check_pool_utilization drv st s) in
         (Some (if metric = ''pg_pool_size'' then size else idle), s1))
      else if metric = ''pg_pool_max'' then (Some (if is_direct_mode st then 0 else st_pool_max st), s)
      else if metric \<in> {''pg_tx_started'', ''pg_tx_committed'', ''pg_tx_rolled_back'', ''pg_tx_active''} then
        (let (started, committed, rolled_back, active) = tx_metrics s in
         (Some (unat (if metric = ''pg_tx_started'' then started
                else if metric = ''pg_tx_committed'' then committed
                else if metric = ''pg_tx_rolled_back'' then rolled_back
                else active)), s))
      else if metric = ''pg_direct_mode'' then (Some (if is_direct_mode st then 1 else 0), s)
      else (None, s))"

subsection \<open>The builder\<close>

definition display_store :: "pg_store \<Rightarrow> string" where
  "display_store st = ''PostgreSQL store (table: '' @ table_name (st_config st) @ '')''"

text \<open>The shutdown SurrealDB calls, which cannot fail.\<close>

definition builder_shutdown ::
  "('c, 'w shared_scheme) pg_driver \<Rightarrow> pg_store \<Rightarrow> 'w shared_scheme \<Rightarrow> (unit kresult \<times> 'w shared_scheme) option"
where
  "builder_shutdown drv st s = map_option (Pair (Ok ())) (store_shutdown drv st s)"

text \<open>\<^verbatim>\<open>new_transaction\<close>: the wrapper and the flag for a local transaction.\<close>

definition new_transaction ::
  "('c, 'w shared_scheme) pg_driver \<Rightarrow> pg_store \<Rightarrow> bool \<Rightarrow> bool \<Rightarrow> 'w shared_scheme \<Rightarrow>
     (pg_ptx \<times> bool) kresult \<times> 'w shared_scheme" where
  "new_transaction drv st w lock s =
     (case store_begin drv st w s of
        (Ok tx, s') \<Rightarrow> (Ok (ptx_new tx (sh_committed s') (sh_rolled_back s'), True), s')
      | (Err e, s') \<Rightarrow> (Err (to_kvs e), s')
      | (Panic, s') \<Rightarrow> (Panic, s'))"

end
