(* ===== verification/Tune_Props.thy ===== *)
theory Tune_Props
  imports Pg_Tune Config_Props
begin

section \<open>Properties of the tuning\<close>

text \<open>
  The ranges \<^verbatim>\<open>from_env\<close> establishes, when the SQL generators panic, the names of the partition
  tables, and the durations written into \<^verbatim>\<open>SET\<close> statements.
\<close>

subsection \<open>Text settings\<close>

abbreviation alnum :: "string \<Rightarrow> bool" where
  "alnum \<equiv> list_all is_ascii_alphanumeric"

lemma ws_code_ascii: "13 < a \<Longrightarrow> a \<noteq> 32 \<Longrightarrow> a < 194 \<Longrightarrow> ws_code (a # r) = 0"
  by (cases r; cases "tl r") (simp_all add: ws_code_def)

lemma alnum_code: "is_ascii_alphanumeric c \<Longrightarrow> 47 < (of_char c :: nat) \<and> (of_char c :: nat) < 123"
  by (auto simp: char_class_defs char_le_of_char)

lemma alnum_ws_len: "alnum s \<Longrightarrow> ws_len s = 0"
proof (cases s)
  case (Cons c r)
  moreover assume "alnum s"
  ultimately have "47 < (of_char c :: nat) \<and> (of_char c :: nat) < 123"
    using alnum_code by simp
  with Cons show ?thesis by (simp add: ws_len_def ws_code_ascii)
qed (simp add: ws_len_def ws_code_def)

lemma alnum_drop: "alnum s \<Longrightarrow> alnum (drop n s)"
  by (auto simp: list_all_iff dest: in_set_dropD)

lemma alnum_trim: "alnum s \<Longrightarrow> trim s = s"
proof -
  assume s: "alnum s"
  have "ws_len_end s = 0"
    using alnum_ws_len [OF alnum_drop [OF s]] by (simp add: ws_len_end_def Let_def)
  with alnum_ws_len [OF s] show ?thesis
    by (simp add: trim_def trim_start.simps [of s] trim_end.simps [of s])
qed

lemma digits_alnum: "list_all is_ascii_digit s \<Longrightarrow> alnum s"
  by (auto simp: list_all_iff is_ascii_alphanumeric_def)

lemma strip_suffix_Some: "strip_suffix suf s = Some p \<longleftrightarrow> s = p @ suf"
  by (auto simp: strip_suffix_def) (metis append_take_drop_id)

lemma strip_suffix_append [simp]: "strip_suffix suf (p @ suf) = Some p"
  by (simp add: strip_suffix_Some)

lemma first_some_Some: "first_some f xs = Some y \<Longrightarrow> \<exists>x \<in> set xs. f x = Some y"
  by (induction xs) (auto split: option.splits)

lemma memory_size_alnum: "validate_pg_memory_size v \<Longrightarrow> alnum (trim v)"
  by (auto simp: validate_pg_memory_size_def Let_def memory_suffix_def digits_alnum
      strip_suffix_Some char_class_defs char_le_of_char split: if_splits option.splits
      dest!: first_some_Some)

lemma toast_alnum: "validate_toast_storage v \<Longrightarrow> alnum v"
  by (auto simp: validate_toast_storage_def char_class_defs char_le_of_char)


lemma trim_idem_memory: "validate_pg_memory_size v \<Longrightarrow> validate_pg_memory_size (trim v)"
  using alnum_trim [OF memory_size_alnum] by (simp add: validate_pg_memory_size_def)

text \<open>What a \<^verbatim>\<open>SET\<close> or \<^verbatim>\<open>ALTER TABLE\<close> statement takes as text from the environment.\<close>

definition text_settings :: "tune \<Rightarrow> string list" where
  "text_settings tn = [toast_storage tn, server_shared_buffers tn, server_work_mem tn,
     server_maintenance_work_mem tn, server_wal_buffers tn, server_effective_cache_size tn]"

lemma trim_start_fix: "ws_len (trim_start s) = 0"
  by (induction s rule: trim_start.induct) (metis trim_start.simps)

lemma trim_end_fix: "ws_len_end (trim_end s) = 0"
  by (induction s rule: trim_end.induct) (metis trim_end.simps)

subsection \<open>Durations\<close>

lemma alnum_fmt_nat: "alnum (fmt_nat n)"
  by (rule digits_alnum) simp

lemma parse_u64_fmt: "n \<le> u64_max \<Longrightarrow> parse_u64 (fmt_nat n) = Some n"
  by (simp add: parse_u64_def parse_unsigned_fmt)

lemma not_ms: "list_all is_ascii_digit p \<Longrightarrow> strip_suffix ''ms'' (p @ ''s'') = None"
proof (rule ccontr)
  assume p: "list_all is_ascii_digit p" and "strip_suffix ''ms'' (p @ ''s'') \<noteq> None"
  then obtain q where "p @ ''s'' = (q @ ''m'') @ ''s''"
    by (auto simp: strip_suffix_Some)
  then have "p = q @ ''m''" by simp
  with p show False by (simp add: char_class_defs char_le_of_char)
qed

lemma parse_secs_text: "n \<le> u64_max \<Longrightarrow> parse_duration (fmt_nat n @ ''s'') = Some (from_secs n)"
proof -
  assume n: "n \<le> u64_max"
  have "alnum (fmt_nat n @ ''s'')"
    by (simp add: alnum_fmt_nat char_class_defs char_le_of_char)
  then show ?thesis
    using n not_ms [OF fmt_nat_digits]
    by (simp add: parse_duration_def alnum_trim parse_u64_fmt)
qed

lemma parse_millis_text: "n \<le> u64_max \<Longrightarrow> parse_duration (fmt_nat n @ ''ms'') = Some (from_millis n)"
proof -
  assume n: "n \<le> u64_max"
  have "alnum (fmt_nat n @ ''ms'')"
    by (simp add: alnum_fmt_nat char_class_defs char_le_of_char)
  then show ?thesis using n by (simp add: parse_duration_def alnum_trim parse_u64_fmt)
qed

lemma parse_duration_forms:
  assumes "parse_duration s = Some d"
  shows "\<exists>n \<le> u64_max. d = from_secs n \<or> d = from_millis n"
proof -
  have le: "n \<le> u64_max" if "parse_u64 v = Some n" for v n
    using that by (simp add: parse_u64_def parse_unsigned_le)
  have mul: "m \<le> u64_max" if "checked_mul64 n k = Some m" for n k m
    using that by (simp add: checked_mul64_def split: if_splits)
  show ?thesis
    using assms le mul
    by (auto simp: parse_duration_def Let_def bind_eq_Some_conv split: option.splits) blast+
qed


lemma from_millis_whole: "n mod 1000 = 0 \<Longrightarrow> from_millis n = from_secs (n div 1000)"
  by (auto simp: from_millis_def from_secs_def)

lemma subsec_from_millis: "subsec_millis (from_millis n) = n mod 1000"
proof -
  have "n * 1000000 mod 1000000000 = (n mod 1000) * 1000000"
    using mod_mult_mult2 [of n 1000000 1000] by simp
  then show ?thesis by (simp add: subsec_millis_def from_millis_def)
qed

lemma parse_fmt_secs: "n \<le> u64_max \<Longrightarrow> parse_duration (fmt_dur (from_secs n)) = Some (from_secs n)"
  by (simp add: fmt_dur_def parse_secs_text)

lemma parse_fmt_millis:
  assumes "n \<le> u64_max"
  shows "parse_duration (fmt_dur (from_millis n)) = Some (from_millis n)"
proof (cases "n mod 1000 = 0")
  case True
  with assms show ?thesis by (simp add: from_millis_whole parse_fmt_secs div_le_dividend order_trans)
next
  case False
  with assms show ?thesis by (simp add: fmt_dur_def subsec_from_millis parse_millis_text)
qed



subsection \<open>The ranges from_env establishes\<close>

lemma ws_code_take: "ws_code ns = 0 \<Longrightarrow> ws_code (take k ns) = 0"
  by (cases ns; cases "tl ns"; cases "tl (tl ns)"; cases k; cases "k - 1"; cases "k - 2")
    (auto simp: ws_code_def split: if_splits)

lemma ws_len_take: "ws_len s = 0 \<Longrightarrow> ws_len (take k s) = 0"
  using ws_code_take [of "map of_char (take 3 s)" k]
  by (simp add: ws_len_def take_map min.commute)

lemma trim_end_take: "\<exists>n. trim_end s = take n s"
proof (induction s rule: trim_end.induct)
  case (1 s)
  then show ?case
    by (cases "ws_len_end s = 0") (metis trim_end.simps take_all order_refl, metis trim_end.simps take_take)
qed

lemma trim_idem: "trim (trim s) = trim s"
proof -
  have "ws_len (trim s) = 0"
    using trim_end_take [of "trim_start s"] ws_len_take [OF trim_start_fix] by (metis trim_def)
  then show ?thesis
    using trim_end_fix [of "trim_start s"]
    by (simp add: trim_def trim_start.simps [of "trim_end (trim_start s)"]
        trim_end.simps [of "trim_end (trim_start s)"])
qed

lemma memory_setting_alnum:
  assumes "validate_pg_memory_size d" "alnum d"
  shows "alnum (env_str_validated env key d validate_pg_memory_size)"
  using assms memory_size_alnum [of "trim raw" for raw]
  by (auto simp: env_str_validated_def Let_def trim_idem split: option.splits)

lemma text_settings_alnum: "list_all alnum (text_settings (tune_from_env io env))"
proof -
  have "alnum ''256MB''" "alnum ''64MB''" "alnum ''16MB''" "alnum ''1GB''"
    by (simp_all add: char_class_defs char_le_of_char)
  then show ?thesis
    using toast_alnum [OF env_str_ok [where P = validate_toast_storage, OF toast_default]]
    by (simp add: text_settings_def tune_from_env_def memory_setting_alnum memory_defaults)
qed



subsection \<open>Partition tables\<close>

lemma valid_ident_iff: "valid_ident tbl \<longleftrightarrow> validate_identifier tbl = Ok ()"
  by (auto simp: valid_ident_def split: outcome.splits)

lemma asserting_Panic [simp]: "asserting bs v = Panic \<longleftrightarrow> \<not> list_all (\<lambda>b. b) bs"
  by (simp add: asserting_def)

text \<open>The tuning with its partition count replaced, as the URL parameter does.\<close>

abbreviation with_partitions :: "tune \<Rightarrow> nat \<Rightarrow> tune" where
  "with_partitions tn n \<equiv> tn\<lparr>partitions := n\<rparr>"

lemma tune_asserts_partitions [simp]: "tune_asserts (with_partitions tn n) = tune_asserts tn"
  by (simp add: tune_asserts_def)

lemma partition_names_fit_with:
  "partition_names_fit (with_partitions tn n) tbl \<longleftrightarrow>
     n \<le> 1 \<or> length tbl + (2 + length (fmt_nat (n - 1))) \<le> 63"
  by (simp add: partition_names_fit_def)

text \<open>
  For a configuration read from the environment, with any partition count put into it, the
  DDL generators fail an assertion exactly when the table name is not a valid identifier or the
  name of the last partition would be longer than the 63 bytes PostgreSQL keeps; a valid name of
  61 bytes or more with two partitions is such a case.
\<close>

lemma ddl_panics_iff:
  "(create_table_sql (with_partitions (tune_from_env io env) n) tbl = Panic \<longleftrightarrow>
      \<not> (validate_identifier tbl = Ok () \<and>
         (n \<le> 1 \<or> length tbl + length (fmt_nat (n - 1)) \<le> 61))) \<and>
   (tune_table_sql io (with_partitions (tune_from_env io env) n) tbl = Panic \<longleftrightarrow>
      create_table_sql (with_partitions (tune_from_env io env) n) tbl = Panic) \<and>
   (61 \<le> length tbl \<and> 2 \<le> n \<longrightarrow>
      create_table_sql (with_partitions (tune_from_env io env) n) tbl = Panic)"
proof -
  have pos: "0 < length (fmt_nat (n - 1))" by simp
  have "list_all (\<lambda>b. b) (tune_asserts (tune_from_env io env))"
    using tune_ok_from_env by (simp add: tune_ok_def)
  then show ?thesis
    using pos by (auto simp: create_table_sql_def tune_table_sql_def valid_ident_iff
        partition_names_fit_with simp del: fmt_nat_nonempty length_greater_0_conv)
qed

text \<open>A partition name cannot be a reserved word: it ends in a digit.\<close>

lemma reserved_upper: "w \<in> set RESERVED \<Longrightarrow> list_all (\<lambda>c. \<not> is_ascii_digit c) w"
proof -
  have "list_all (list_all (\<lambda>c. \<not> is_ascii_digit c)) RESERVED"
    by (simp add: RESERVED_def char_class_defs char_le_of_char)
  then show "w \<in> set RESERVED \<Longrightarrow> list_all (\<lambda>c. \<not> is_ascii_digit c) w"
    by (simp add: list_all_iff)
qed

lemma digit_upper: "is_ascii_digit c \<Longrightarrow> ascii_upper c = c"
  by (simp add: ascii_upper_def char_class_defs char_le_of_char)

lemma digits_not_reserved:
  assumes "c \<in> set s" "is_ascii_digit c"
  shows "to_ascii_uppercase s \<notin> set RESERVED"
proof
  assume "to_ascii_uppercase s \<in> set RESERVED"
  from reserved_upper [OF this] assms(1) have "\<not> is_ascii_digit (ascii_upper c)"
    by (simp add: to_ascii_uppercase_def list_all_iff)
  with assms(2) show False by (simp add: digit_upper)
qed

lemma part_name_inj [simp]: "part_name tbl i = part_name tbl j \<longleftrightarrow> i = j"
  by (simp add: part_name_def)

lemma part_name_valid:
  assumes "validate_identifier tbl = Ok ()" "length (part_name tbl i) \<le> 63"
  shows "validate_identifier (part_name tbl i) = Ok ()"
proof -
  have digit: "hd (fmt_nat i) \<in> set (part_name tbl i)" "is_ascii_digit (hd (fmt_nat i))"
    using fmt_nat_chars [of "hd (fmt_nat i)" i] by (simp_all add: part_name_def)
  have digits: "list_all ident_char (fmt_nat i)"
    using fmt_nat_chars by (auto simp: list_all_iff ident_char_def is_ascii_alphanumeric_def)
  have "list_all ident_char (part_name tbl i)"
    using assms(1) digits
    by (simp add: part_name_def validate_identifier_ok)
       (simp add: ident_char_def char_class_defs char_le_of_char)
  moreover have "hd (part_name tbl i) = hd tbl" "part_name tbl i \<noteq> []"
    using assms(1) by (auto simp: part_name_def validate_identifier_ok)
  ultimately show ?thesis
    using assms digits_not_reserved [OF digit] by (simp add: validate_identifier_ok)
qed

lemma part_name_length:
  "i < n \<Longrightarrow> length (part_name tbl i) \<le> length tbl + (2 + length (fmt_nat (n - 1)))"
  using fmt_nat_length_mono [of i "n - 1"] by (simp add: part_name_def)

text \<open>
  When \<^verbatim>\<open>create_table_sql\<close> does not panic on a table with several partitions, the names of the
  partition tables are all valid identifiers of at most 63 bytes, pairwise distinct and distinct
  from the name of the table, so that no two of them are truncated to one.
\<close>

theorem partition_names_ok:
  assumes "create_table_sql tn tbl \<noteq> Panic" "1 < partitions tn"
  shows "list_all (\<lambda>i. validate_identifier (part_name tbl i) = Ok () \<and> length (part_name tbl i) \<le> 63)
      [0..<partitions tn] \<and>
    distinct (tbl # map (part_name tbl) [0..<partitions tn])"
proof -
  from assms have ok: "validate_identifier tbl = Ok ()"
    "length tbl + (2 + length (fmt_nat (partitions tn - 1))) \<le> 63"
    by (auto simp: create_table_sql_def valid_ident_iff partition_names_fit_def)
  have len: "length (part_name tbl i) \<le> 63" if "i < partitions tn" for i
    using part_name_length [OF that, of tbl] ok(2) by simp
  have "tbl \<noteq> part_name tbl i" for i by (simp add: part_name_def)
  then show ?thesis
    using len part_name_valid [OF ok(1)] by (auto simp: list_all_iff distinct_map inj_on_def)
qed


lemma fmt_1: "fmt_nat 1 = ''1''" "fmt_nat (Suc 0) = ''1''"
  by (simp_all add: fmt_nat.simps)

theorem partition_names_ok_witness:
  "distinct (''kv'' # map (part_name ''kv'') [0..<2]) \<and> part_name ''kv'' 1 = ''kv_p1''"
proof
  have "create_table_sql (with_partitions default_tune 2) ''kv'' \<noteq> Panic"
    by (simp add: create_table_sql_def valid_ident_iff kv_valid partition_names_fit_with fmt_1)
  moreover have "1 < partitions (with_partitions default_tune 2)" by simp
  ultimately have "distinct (''kv'' # map (part_name ''kv'') [0..<partitions (with_partitions default_tune 2)])"
    using partition_names_ok [of "with_partitions default_tune 2" "''kv''"] by blast
  then show "distinct (''kv'' # map (part_name ''kv'') [0..<2])" by simp
  show "part_name ''kv'' 1 = ''kv_p1''" by (simp add: part_name_def fmt_1)
qed

lemma ddl_panics_iff_witness:
  "create_table_sql (with_partitions (tune_from_env \<lparr>parse_f64 = \<lambda>_. None, show_f64 = \<lambda>_. []\<rparr> (\<lambda>_. None)) 2)
     (replicate 61 (CHR ''a'')) = Panic"
proof -
  let ?io = "\<lparr>parse_f64 = \<lambda>_. None, show_f64 = \<lambda>_. []\<rparr>"
  have "61 \<le> length (replicate 61 (CHR ''a'')) \<and> (2::nat) \<le> 2" by simp
  then show ?thesis
    using ddl_panics_iff [where io = ?io and env = "\<lambda>_. None" and n = 2 and tbl = "replicate 61 (CHR ''a'')"] by blast
qed

end
