(* ===== verification/Store_Props.thy ===== *)
theory Store_Props
  imports Store_Life Config_Props Tune_Props
begin

section \<open>Properties of the store\<close>

text \<open>
  What \<^verbatim>\<open>PgStore::new\<close> guarantees and when it fails, the retries and the counting of \<^verbatim>\<open>begin\<close>, the
  barrier of \<^verbatim>\<open>shutdown\<close>, and the metrics.
\<close>

subsection \<open>A driver for the witnesses\<close>

text \<open>
  A driver whose calls all succeed, except that the pool refuses the first transactions: the state
  is the number of refusals left, the clock and the partition count it reports.
\<close>

record sim = shared +
  sim_refusals :: nat
  sim_error :: sqlx_error
  sim_clock :: nat
  sim_parts :: int

definition sim_ok :: "'s \<Rightarrow> (sqlx_error + unit) \<times> 's" where "sim_ok s = (Inr (), s)"

definition sim_begin :: "sim \<Rightarrow> (sqlx_error + unit) \<times> sim" where
  "sim_begin s = (case sim_refusals s of
      0 \<Rightarrow> (Inr (), s)
    | Suc n \<Rightarrow> (Inl (sim_error s), s\<lparr>sim_refusals := n\<rparr>))"

definition sim_driver :: "(unit, sim) pg_driver" where
  "sim_driver =
     \<lparr>drv_pool_connect = (\<lambda>opts. sim_ok), drv_pool_exec = (\<lambda>q. sim_ok),
      drv_pool_count = (\<lambda>q t s. (Inr (sim_parts s), s)), drv_pool_begin = (\<lambda>q. sim_begin),
      drv_pool_size = (\<lambda>s. 1), drv_pool_idle = (\<lambda>s. 0), drv_pool_close = (\<lambda>d s. s),
      drv_connect = (\<lambda>d s. (Some (Inr ()), s)), drv_exec = (\<lambda>c q. sim_ok),
      drv_exec_timeout = (\<lambda>d c q s. (Some (Inr ()), s)),
      drv_count = (\<lambda>c q t s. (Inr (sim_parts s), s)), drv_ping = (\<lambda>c. sim_ok),
      drv_sleep = (\<lambda>d s. s\<lparr>sim_clock := sim_clock s + d\<rparr>), drv_now = sim_clock,
      drv_join = (\<lambda>d s. s)\<rparr>"


subsection \<open>What a driver leaves alone\<close>

text \<open>No call of the driver, nor what other tasks do meanwhile, makes a property of the state false.\<close>

definition stays :: "('s \<Rightarrow> bool) \<Rightarrow> ('c, 's) pg_driver \<Rightarrow> bool" where
  "stays P drv \<longleftrightarrow> (\<forall>s. P s \<longrightarrow>
     (\<forall>opts. P (snd (drv_pool_connect drv opts s))) \<and> (\<forall>q. P (snd (drv_pool_exec drv q s))) \<and>
     (\<forall>q t. P (snd (drv_pool_count drv q t s))) \<and> (\<forall>q. P (snd (drv_pool_begin drv q s))) \<and>
     (\<forall>d. P (drv_pool_close drv d s)) \<and> (\<forall>d. P (snd (drv_connect drv d s))) \<and>
     (\<forall>c q. P (snd (drv_exec drv c q s))) \<and> (\<forall>d c q. P (snd (drv_exec_timeout drv d c q s))) \<and>
     (\<forall>c q t. P (snd (drv_count drv c q t s))) \<and> (\<forall>c. P (snd (drv_ping drv c s))) \<and>
     (\<forall>d. P (drv_sleep drv d s)) \<and> (\<forall>d. P (drv_join drv d s)))"

lemma staysD:
  assumes "stays P drv" "P s"
  shows "P (snd (drv_pool_begin drv q s))" "P (drv_sleep drv d s)" "P (snd (drv_connect drv d s))"
    "P (snd (drv_exec drv c q s))" "P (snd (drv_exec_timeout drv d c q s))"
    "P (drv_pool_close drv d s)" "P (drv_join drv d s)"
  using assms by (simp_all add: stays_def)

lemma connect_direct_stays: "stays P drv \<Longrightarrow> P s \<Longrightarrow> P (snd (connect_direct drv d s))"
  using staysD(3) [of P drv s d]
  by (auto simp: connect_direct_def split: prod.splits option.splits sum.splits)

lemma connect_direct_no_panic: "fst (connect_direct drv d s) \<noteq> Panic"
  by (auto simp: connect_direct_def split: prod.splits option.splits sum.splits)

text \<open>What a call of \<^verbatim>\<open>begin\<close> has done: counted itself and opened a fresh transaction, or neither.\<close>

definition same_counts :: "'w shared_scheme \<Rightarrow> 'w shared_scheme \<Rightarrow> bool" where
  "same_counts s s' \<longleftrightarrow> sh_started s' = sh_started s \<and> sh_active s' = sh_active s"

definition fresh_tx :: "pg_store \<Rightarrow> bool \<Rightarrow> pg_tx \<Rightarrow> bool" where
  "fresh_tx st w tx \<longleftrightarrow> conn tx = Some (case st_mode st of PooledMode \<Rightarrow> Pooled | DirectMode \<Rightarrow> Direct) \<and>
     writeable tx = w \<and> savepoints tx = [] \<and> savepoint_counter tx = 0 \<and> sql tx = st_sql st \<and>
     persistent tx = st_persistent st \<and> isolation tx = isolation_level (st_config st)"

definition began :: "pg_store \<Rightarrow> bool \<Rightarrow> 'w shared_scheme \<Rightarrow> pg_tx result \<Rightarrow> 'w shared_scheme \<Rightarrow> bool" where
  "began st w s r s' \<longleftrightarrow> (case r of
      Ok tx \<Rightarrow> fresh_tx st w tx \<and> sh_started s' = sh_started s + 1 \<and> sh_active s' = sh_active s + 1 \<and>
        tx_active tx = sh_active s'
    | Err e \<Rightarrow> same_counts s s'
    | Panic \<Rightarrow> False)"

lemma same_counts_begin:
  "same_counts s s1 \<Longrightarrow> sh_started (count_begin s1) = sh_started s + 1 \<and>
     sh_active (count_begin s1) = sh_active s + 1"
  by (simp add: same_counts_def count_begin_def)

text \<open>
  One attempt: while it asks for another, or fails, what the driver leaves alone stays true; a success
  is counted at its very end.
\<close>

definition tried :: "('w shared_scheme \<Rightarrow> bool) \<Rightarrow> pg_store \<Rightarrow> bool \<Rightarrow> pg_tx result attempt \<Rightarrow> 'w shared_scheme \<Rightarrow> bool" where
  "tried P st w a s' \<longleftrightarrow> (case a of
      Done (Ok tx) \<Rightarrow> fresh_tx st w tx \<and> (\<exists>s1. P s1 \<and> s' = count_begin s1) \<and> tx_active tx = sh_active s'
    | Done Panic \<Rightarrow> False
    | _ \<Rightarrow> P s')"

lemma retry_or_give_up_stays:
  assumes "stays P drv" "P s1" "retry_or_give_up drv what n e s1 = (a, s2)"
  shows "tried P st w a s2"
  using assms(3) staysD(2) [OF assms(1,2)] assms(2)
  by (auto simp: retry_or_give_up_def tried_def split: if_splits)

lemma pooled_try_stays:
  assumes "stays P drv" "st_mode st = PooledMode" "P s" "begin_pooled_try drv st w n (z, s) = (a, z', s')"
  shows "tried P st w a s'"
proof (cases "drv_pool_begin drv (st_begin_sql st) s")
  case (Pair r s1)
  then have s1: "P s1" using staysD(1) [OF assms(1,3), of "st_begin_sql st"] by simp
  show ?thesis
    using assms(2,4) Pair s1 staysD(2) [OF assms(1) s1]
    by (auto simp: begin_pooled_try_def Let_def fresh_tx_def new_pooled_def tried_def
        split: sum.splits prod.splits if_splits)
qed

lemma direct_try_stays:
  assumes "stays P drv" "st_mode st = DirectMode" "P s" "begin_direct_try drv st w n s = (a, s')"
  shows "tried P st w a s'"
proof -
  note st = staysD [OF assms(1)] and give = retry_or_give_up_stays [OF assms(1), where st = st and w = w]
  obtain r s1 where c: "connect_direct drv (st_connect_timeout st) s = (r, s1)"
    by (cases "connect_direct drv (st_connect_timeout st) s")
  have s1: "P s1" "r \<noteq> Panic"
    using connect_direct_stays [OF assms(1,3), of "st_connect_timeout st"]
      connect_direct_no_panic [of drv "st_connect_timeout st" s] c by simp_all
  show ?thesis
  proof (cases r)
    case (Ok k)
    define s2 where "s2 = snd (drv_exec_timeout drv (st_connect_timeout st) k (st_keepalive_sql st) s1)"
    have s2: "P s2" unfolding s2_def by (rule st(5) [OF s1(1)])
    obtain q s3 where q: "drv_exec_timeout drv (st_connect_timeout st) k (st_session_sql st) s2 = (q, s3)"
      by (cases "drv_exec_timeout drv (st_connect_timeout st) k (st_session_sql st) s2")
    have s3: "P s3" using st(5) [OF s2, of "st_connect_timeout st" k "st_session_sql st"] q by simp
    obtain b s4 where b: "drv_exec drv k (st_begin_sql st) s3 = (b, s4)"
      by (cases "drv_exec drv k (st_begin_sql st) s3")
    have s4: "P s4" using st(4) [OF s3, of k "st_begin_sql st"] b by simp
    show ?thesis
      using assms(2,4) c Ok q b s3 s4 st(2) [OF s3] give [OF s3] give [OF st(4) [OF s4]]
      by (auto simp: begin_direct_try_def s2_def [symmetric] Let_def fresh_tx_def new_direct_def
          tried_def [of P st w "Done (Ok a)" for a] tried_def [of P st w Again] tried_def [of P st w "Done (Err e)" for e]
          split: sum.splits option.splits if_splits)
  qed (use assms(4) c s1 give [OF s1(1)] in \<open>auto simp: begin_direct_try_def\<close>)
qed

lemma tried_began:
  "tried (same_counts s) st w a s' \<Longrightarrow> (case a of Again \<Rightarrow> same_counts s s' | Done r \<Rightarrow> began st w s r s')"
  by (auto simp: tried_def began_def dest: same_counts_begin split: attempt.splits outcome.splits)

lemma pooled_attempt_began:
  assumes "stays (same_counts s) drv" "st_mode st = PooledMode" "same_counts s s1"
    "begin_pooled_attempt drv st w n (z, s1) = (a, z', s2)"
  shows "case a of Again \<Rightarrow> same_counts s s2 | Done r \<Rightarrow> began st w s r s2"
proof (cases "sh_shutdown s1")
  case False
  then show ?thesis
    using pooled_try_stays [OF assms(1-3)] assms(4) by (intro tried_began) (simp add: begin_pooled_attempt_def)
qed (use assms(3,4) in \<open>auto simp: begin_pooled_attempt_def began_def\<close>)

lemma direct_attempt_began:
  assumes "stays (same_counts s) drv" "st_mode st = DirectMode" "same_counts s s1"
    "begin_direct_attempt drv st w n s1 = (a, s2)"
  shows "case a of Again \<Rightarrow> same_counts s s2 | Done r \<Rightarrow> began st w s r s2"
proof (cases "sh_shutdown s1")
  case False
  then show ?thesis
    using direct_try_stays [OF assms(1-3)] assms(4) by (intro tried_began) (simp add: begin_direct_attempt_def)
qed (use assms(3,4) in \<open>auto simp: begin_direct_attempt_def began_def\<close>)

lemma same_counts_refl [simp]: "same_counts s s"
  by (simp add: same_counts_def)

lemma store_begin_began:
  assumes "stays (same_counts s) drv"
  shows "began st w s (fst (store_begin drv st w s)) (snd (store_begin drv st w s))"
proof (cases "st_mode st")
  case PooledMode
  have "\<exists>m \<le> Suc BEGIN_MAX_RETRIES. 1 \<le> m \<and>
      began st w s (fst (begin_pooled_loop drv st w 1 (False, s))) (snd (snd (begin_pooled_loop drv st w 1 (False, s))))"
    by (rule pooled.loop_invariant [where P = "\<lambda>x. same_counts s (snd x)" and Q = "\<lambda>m r x. began st w s r (snd x)"])
      (use pooled_attempt_began [OF assms PooledMode] in force)+
  then have "began st w s (fst (begin_pooled drv st w s)) (snd (begin_pooled drv st w s))"
    by (auto simp: begin_pooled_def case_prod_beta)
  then show ?thesis
    using PooledMode by (cases "sh_shutdown s") (simp_all add: store_begin_def, simp add: began_def)
next
  case DirectMode
  have "\<exists>m \<le> Suc DIRECT_MAX_RETRIES. 1 \<le> m \<and>
      began st w s (fst (begin_direct_loop drv st w 1 s)) (snd (begin_direct_loop drv st w 1 s))"
    by (rule direct.loop_invariant [where P = "same_counts s" and Q = "\<lambda>m. began st w s"])
      (use direct_attempt_began [OF assms DirectMode] in force)+
  then have "began st w s (fst (begin_direct drv st w s)) (snd (begin_direct drv st w s))"
    by (auto simp: begin_direct_def)
  then show ?thesis
    using DirectMode by (cases "sh_shutdown s") (simp_all add: store_begin_def, simp add: began_def)
qed


text \<open>Every transaction \<^verbatim>\<open>begin\<close> returns is fresh, whatever the driver does.\<close>

lemma begin_fresh:
  assumes "fst (store_begin drv st w s) = Ok tx"
  shows "fresh_tx st w tx"
proof (cases "st_mode st")
  case PooledMode
  have "\<exists>m \<le> Suc BEGIN_MAX_RETRIES. 1 \<le> m \<and>
      (\<forall>tx. fst (begin_pooled_loop drv st w 1 (False, s)) = Ok tx \<longrightarrow> fresh_tx st w tx)"
    by (rule pooled.loop_invariant [where P = "\<lambda>x. True" and Q = "\<lambda>m r x. \<forall>tx. r = Ok tx \<longrightarrow> fresh_tx st w tx"])
      (auto simp: begin_pooled_attempt_def begin_pooled_try_def fresh_tx_def new_pooled_def PooledMode Let_def
        split: sum.splits prod.splits if_splits)
  then show ?thesis
    using assms PooledMode by (auto simp: store_begin_def begin_pooled_def case_prod_beta split: if_splits)
next
  case DirectMode
  have no: "retry_or_give_up drv what n e x \<noteq> (Done (Ok tx), y)" for what n e x y and tx :: pg_tx
    by (auto simp: retry_or_give_up_def)
  have "\<exists>m \<le> Suc DIRECT_MAX_RETRIES. 1 \<le> m \<and>
      (\<forall>tx. fst (begin_direct_loop drv st w 1 s) = Ok tx \<longrightarrow> fresh_tx st w tx)"
    by (rule direct.loop_invariant [where P = "\<lambda>x. True" and Q = "\<lambda>m r x. \<forall>tx. r = Ok tx \<longrightarrow> fresh_tx st w tx"])
      (auto simp: begin_direct_attempt_def begin_direct_try_def fresh_tx_def new_direct_def DirectMode Let_def no
        split: sum.splits prod.splits if_splits option.splits outcome.splits)
  then show ?thesis
    using assms DirectMode by (auto simp: store_begin_def begin_direct_def split: if_splits)
qed

subsection \<open>begin\<close>

text \<open>
  C8. \<^verbatim>\<open>begin\<close>, in either mode and through all its retries: a success is counted once as started and
  as active and returns a fresh open transaction of the requested kind on the store's table; a
  failure is not counted; it never panics.  (Other tasks are taken not to begin or end a
  transaction meanwhile, so that the counts are this call's.)
\<close>

theorem begin_counts_itself:
  assumes "stays (same_counts s) drv"
  shows "began st w s (fst (store_begin drv st w s)) (snd (store_begin drv st w s))"
  by (rule store_begin_began [OF assms])

definition sim0 :: sim where
  "sim0 = \<lparr>sh_shutdown = False, sh_started = 4, sh_committed = 0, sh_rolled_back = 0, sh_active = 1,
     sh_warned = False, sh_hb_cancelled = False, sh_hb_handle = False,
     sim_refusals = 2, sim_error = PoolTimedOut, sim_clock = 0, sim_parts = 0\<rparr>"

definition pooled_store :: pg_store where
  "pooled_store = \<lparr>st_mode = PooledMode, st_config = default_config, st_tune = default_tune,
     st_persistent = True, st_pool_max = 20, st_begin_sql = ''BEGIN ISOLATION LEVEL READ COMMITTED'',
     st_vacuum_sql = ''VACUUM ANALYZE kv'', st_sql = sql_new ''kv'', st_session_sql = [],
     st_keepalive_sql = [], st_connect_timeout = 0, st_heartbeat_interval = from_secs 60\<rparr>"

lemma sim_stays:
  "(\<And>x n. P (x\<lparr>sim_refusals := n\<rparr>) = P x) \<Longrightarrow> (\<And>x n. P (x\<lparr>sim_clock := n\<rparr>) = P x) \<Longrightarrow> stays P sim_driver"
  by (simp add: stays_def sim_driver_def sim_ok_def sim_begin_def split: nat.splits)

lemma sim_begins:
  "store_begin sim_driver pooled_store True sim0 =
     (Ok (new_pooled True ReadCommitted True (sql_new ''kv'') 2),
      sim0\<lparr>sim_refusals := 0, sim_clock := 600000000, sh_started := 5, sh_active := 2\<rparr>)"
  by (simp add: store_begin_def begin_pooled_def begin_pooled_loop.simps begin_pooled_attempt_def begin_pooled_try_def
      sim_driver_def sim_begin_def sim0_def pooled_store_def pool_size_def begin_delay_def
      BEGIN_MAX_RETRIES_def from_millis_def count_begin_def default_config_def numeral_2_eq_2)

theorem begin_counts_itself_witness:
  "began pooled_store True sim0 (Ok (new_pooled True ReadCommitted True (sql_new ''kv'') 2))
     (sim0\<lparr>sim_refusals := 0, sim_clock := 600000000, sh_started := 5, sh_active := 2\<rparr>)"
proof -
  have "stays (same_counts sim0) sim_driver" by (rule sim_stays) (simp_all add: same_counts_def)
  from begin_counts_itself [OF this, of pooled_store True] show ?thesis by (simp add: sim_begins)
qed

text \<open>Where an error of \<^verbatim>\<open>begin\<close> comes from, at the last of at most three attempts.\<close>

definition begin_error_ok :: "pg_store \<Rightarrow> nat \<Rightarrow> pg_store_error \<Rightarrow> bool" where
  "begin_error_ok st m e \<longleftrightarrow> e = Other SHUTTING_DOWN_MSG \<or>
     st_mode st = DirectMode \<and> m = 3 \<and> e = ConnectTimeout (st_connect_timeout st) \<or>
     (\<exists>what err. e = give_up what m err \<and> (is_transient err \<longrightarrow> m = 3))"

lemma give_up_transient: "is_transient (give_up what n e) \<Longrightarrow> n \<le> 1 \<and> is_transient e"
  by (auto simp: give_up_def split: if_splits)

lemma gave_up: "(is_transient err \<Longrightarrow> m = 3) \<Longrightarrow> begin_error_ok st m (give_up what m err)"
  unfolding begin_error_ok_def by blast

lemma refused: "begin_error_ok st m (Other SHUTTING_DOWN_MSG)"
  by (simp add: begin_error_ok_def)

lemma pooled_error:
  "\<lbrakk>begin_pooled_attempt drv st w m x = (Done (Err e), y); m \<le> 3\<rbrakk> \<Longrightarrow> begin_error_ok st m e"
  by (cases x) (auto simp: begin_pooled_attempt_def begin_pooled_try_def Let_def BEGIN_MAX_RETRIES_def
      intro: refused intro!: gave_up split: if_splits prod.splits sum.splits)

lemma retry_error:
  "\<lbrakk>retry_or_give_up drv what m err s = (Done (Err e), y); m \<le> 3\<rbrakk> \<Longrightarrow> begin_error_ok st m e"
  by (auto simp: retry_or_give_up_def DIRECT_MAX_RETRIES_def intro!: gave_up split: if_splits)

lemma direct_error:
  "\<lbrakk>begin_direct_attempt drv st w m x = (Done (Err e), y); m \<le> 3; st_mode st = DirectMode\<rbrakk> \<Longrightarrow>
     begin_error_ok st m e"
  by (auto simp: begin_direct_attempt_def begin_direct_try_def Let_def DIRECT_MAX_RETRIES_def dest: retry_error
      intro: refused split: if_splits prod.splits sum.splits option.splits outcome.splits)
    (simp_all add: begin_error_ok_def)

lemma store_begin_error:
  assumes "fst (store_begin drv st w s) = Err e"
  shows "\<exists>m. 1 \<le> m \<and> m \<le> 3 \<and> begin_error_ok st m e"
proof (cases "st_mode st")
  case PooledMode
  have "\<exists>m \<le> Suc BEGIN_MAX_RETRIES. 1 \<le> m \<and>
      (\<forall>e. fst (begin_pooled_loop drv st w 1 (False, s)) = Err e \<longrightarrow> m \<le> 3 \<longrightarrow> begin_error_ok st m e)"
    by (rule pooled.loop_invariant [where P = "\<lambda>x. True"
          and Q = "\<lambda>m r x. \<forall>e. r = Err e \<longrightarrow> m \<le> 3 \<longrightarrow> begin_error_ok st m e"])
      (auto dest: pooled_error)
  then obtain m where m: "1 \<le> m" "m \<le> 3"
    "\<forall>e. fst (begin_pooled drv st w s) = Err e \<longrightarrow> begin_error_ok st m e"
    by (auto simp: begin_pooled_def case_prod_beta BEGIN_MAX_RETRIES_def)
  then show ?thesis
    using assms PooledMode by (cases "sh_shutdown s") (auto simp: store_begin_def begin_error_ok_def)
next
  case DirectMode
  have "\<exists>m \<le> Suc DIRECT_MAX_RETRIES. 1 \<le> m \<and>
      (\<forall>e. fst (begin_direct_loop drv st w 1 s) = Err e \<longrightarrow> m \<le> 3 \<longrightarrow> begin_error_ok st m e)"
    by (rule direct.loop_invariant [where P = "\<lambda>x. True"
          and Q = "\<lambda>m r x. \<forall>e. r = Err e \<longrightarrow> m \<le> 3 \<longrightarrow> begin_error_ok st m e"])
      (auto dest: direct_error [OF _ _ DirectMode])
  then obtain m where m: "1 \<le> m" "m \<le> 3"
    "\<forall>e. fst (begin_direct drv st w s) = Err e \<longrightarrow> begin_error_ok st m e"
    by (auto simp: begin_direct_def DIRECT_MAX_RETRIES_def)
  then show ?thesis
    using assms DirectMode by (cases "sh_shutdown s") (auto simp: store_begin_def begin_error_ok_def)
qed



lemma fmt_3: "fmt_nat (Suc (Suc (Suc 0))) = ''3''"
proof -
  have "fmt_nat 3 = ''3''" by (simp add: fmt_nat.simps)
  then show ?thesis by (simp only: numeral_3_eq_3)
qed


subsection \<open>Shutdown\<close>

lemma grace_loop_stays:
  assumes "stays P drv" "grace_loop drv d s = Some s'" "P s"
  shows "P s'"
proof -
  have "stays P drv \<longrightarrow> P s \<longrightarrow> P s'"
  proof (rule grace_loop.raw_induct [OF _ assms(2), where P = "\<lambda>drv d s s'. stays P drv \<longrightarrow> P s \<longrightarrow> P s'"], goal_cases)
    case (1 loop drv d s s')
    then show ?case using staysD(2) [of P drv s] by (auto split: if_splits)
  qed
  then show ?thesis using assms(1,3) by blast
qed

lemma shutdown_stays:
  assumes "stays P drv" "store_shutdown drv st s = Some s'"
    "P ((cancel_heartbeat st (s\<lparr>sh_shutdown := True\<rparr>))\<lparr>sh_hb_handle := False\<rparr>)"
    "P (cancel_heartbeat st (s\<lparr>sh_shutdown := True\<rparr>))"
  shows "P s'"
proof -
  define s1 where "s1 = await_heartbeat drv (cancel_heartbeat st (s\<lparr>sh_shutdown := True\<rparr>))"
  have s1: "P s1"
    using assms(3,4) staysD(7) [OF assms(1,3)] by (simp add: s1_def await_heartbeat_def)
  show ?thesis
    using assms(2) s1 staysD(6) [OF assms(1) s1] grace_loop_stays [OF assms(1) _ s1]
    by (auto simp: store_shutdown_def s1_def [symmetric] Let_def split: conn_mode.splits if_splits)
qed

text \<open>
  C14. Once \<^verbatim>\<open>shutdown\<close> has returned no transaction begins any more, and none that was waiting in a
  retry does: every later \<^verbatim>\<open>begin\<close> is refused without a call to the server, and so is the next
  attempt of a \<^verbatim>\<open>begin\<close> that was asleep when the flag was set.  (No task clears the flag.)
\<close>

theorem shutdown_refuses_begin:
  assumes "stays sh_shutdown drv" "store_shutdown drv st s = Some s'"
  shows "store_begin drv st w s' = (Err (Other SHUTTING_DOWN_MSG), s') \<and>
    new_transaction drv st w l s' = (Err (KvsTransaction SHUTTING_DOWN_MSG), s') \<and>
    begin_pooled_loop drv st w n (z, s') = (Err (Other SHUTTING_DOWN_MSG), z, s') \<and>
    begin_direct_loop drv st w n s' = (Err (Other SHUTTING_DOWN_MSG), s')"
proof -
  have "sh_shutdown s'"
    by (rule shutdown_stays [OF assms]) (simp_all add: cancel_heartbeat_def)
  then show ?thesis
    by (simp add: store_begin_def new_transaction_def begin_pooled_loop.simps begin_pooled_attempt_def begin_pooled_try_def
        begin_direct_loop.simps begin_direct_attempt_def begin_direct_try_def)
qed

theorem shutdown_refuses_begin_witness:
  "fst (store_begin sim_driver pooled_store True (sim0\<lparr>sh_shutdown := True\<rparr>)) = Err (Other SHUTTING_DOWN_MSG)"
proof -
  have "stays sh_shutdown sim_driver" by (rule sim_stays) simp_all
  moreover have "store_shutdown sim_driver pooled_store sim0 = Some (sim0\<lparr>sh_shutdown := True\<rparr>)"
    by (simp add: store_shutdown_def pooled_store_def sim0_def cancel_heartbeat_def await_heartbeat_def
        default_config_def sim_driver_def)
  ultimately show ?thesis using shutdown_refuses_begin by (metis fst_conv)
qed

text \<open>A grace loop whose deadline is \<open>k\<close> polls away polls at most \<open>k\<close> times.\<close>

lemma grace_polls:
  assumes "\<And>d x. drv_now drv x + d \<le> drv_now drv (drv_sleep drv d x)"
  shows "deadline \<le> drv_now drv s + k * DIRECT_SHUTDOWN_POLL \<Longrightarrow>
    \<exists>j \<le> k. grace_loop drv deadline s = Some ((drv_sleep drv DIRECT_SHUTDOWN_POLL ^^ j) s)"
proof (induction k arbitrary: s)
  case 0
  then show ?case by (subst grace_loop.simps) simp
next
  case (Suc k)
  show ?case
  proof (cases "sh_active s = 0 \<or> deadline \<le> drv_now drv s")
    case True
    then show ?thesis by (subst grace_loop.simps) (auto intro!: exI [of _ 0])
  next
    case False
    have "deadline \<le> drv_now drv (drv_sleep drv DIRECT_SHUTDOWN_POLL s) + k * DIRECT_SHUTDOWN_POLL"
      using Suc.prems assms [of s DIRECT_SHUTDOWN_POLL] by simp
    from Suc.IH [OF this] obtain j where "j \<le> k" "grace_loop drv deadline (drv_sleep drv DIRECT_SHUTDOWN_POLL s) =
        Some ((drv_sleep drv DIRECT_SHUTDOWN_POLL ^^ j) (drv_sleep drv DIRECT_SHUTDOWN_POLL s))" by blast
    then show ?thesis
      using False by (subst grace_loop.simps) (auto intro!: exI [of _ "Suc j"] simp: funpow_swap1)
  qed
qed

text \<open>
  C16. \<^verbatim>\<open>shutdown\<close> returns, whatever transactions stay open: on a clock that a sleep advances by its
  length, the grace period of direct mode is over after at most thirty polls.
\<close>

theorem shutdown_returns:
  assumes "\<And>d x. drv_now drv x + d \<le> drv_now drv (drv_sleep drv d x)"
  shows "\<exists>j s'. j \<le> 30 \<and> store_shutdown drv st s = Some s' \<and>
    (st_mode st = DirectMode \<longrightarrow> s' = (drv_sleep drv DIRECT_SHUTDOWN_POLL ^^ j)
       (await_heartbeat drv (cancel_heartbeat st (s\<lparr>sh_shutdown := True\<rparr>))))"
proof -
  define s1 where "s1 = await_heartbeat drv (cancel_heartbeat st (s\<lparr>sh_shutdown := True\<rparr>))"
  have "drv_now drv s1 + DIRECT_SHUTDOWN_GRACE \<le> drv_now drv s1 + 30 * DIRECT_SHUTDOWN_POLL"
    by (simp add: DIRECT_SHUTDOWN_GRACE_def DIRECT_SHUTDOWN_POLL_def from_secs_def from_millis_def)
  from grace_polls [OF assms this] obtain j where j: "j \<le> 30"
    "grace_loop drv (drv_now drv s1 + DIRECT_SHUTDOWN_GRACE) s1 = Some ((drv_sleep drv DIRECT_SHUTDOWN_POLL ^^ j) s1)"
    by blast
  show ?thesis
  proof (cases "st_mode st = DirectMode \<and> 0 < sh_active s1")
    case True
    with j show ?thesis by (auto simp: store_shutdown_def s1_def [symmetric] Let_def)
  next
    case False
    then show ?thesis
      by (auto simp: store_shutdown_def s1_def [symmetric] Let_def split: conn_mode.splits intro!: exI [of _ 0])
  qed
qed

theorem shutdown_returns_witness:
  "\<exists>s'. store_shutdown sim_driver (pooled_store\<lparr>st_mode := DirectMode\<rparr>) sim0 = Some s'"
  using shutdown_returns [of sim_driver "pooled_store\<lparr>st_mode := DirectMode\<rparr>" sim0]
  by (auto simp: sim_driver_def)


subsection \<open>Start-up\<close>

lemma prepare_error: "prepare io env url_error url = Err e \<Longrightarrow> \<not> is_transient e"
proof -
  have "load_config env url = Err e \<Longrightarrow> \<not> is_transient e" for e
    by (auto simp: load_config_def Let_def split: prod.splits outcome.splits)
  then show "prepare io env url_error url = Err e \<Longrightarrow> \<not> is_transient e"
    by (cases "load_config env url")
      (auto simp: prepare_def Let_def split: if_splits option.splits outcome.splits)
qed

text \<open>
  C12. The settings a store starts from: whatever the URL and the environment hold, computing them
  does not panic, a failure is permanent, and a success is in range: the table name is a safe
  identifier, the pool has at least one connection and its minimum is not above its maximum, no
  timeout of the pool is zero, and a store is direct exactly when it has a connection timeout (so
  the zero that pool mode uses as a placeholder never reaches \<^verbatim>\<open>connect_direct\<close>) and then uses no
  persistent statements.
\<close>

theorem prepare_settings_ok:
  "case prepare io env url_error url of
     Ok (st, ps) \<Rightarrow> store_ok st \<and> pool_ok ps \<and> sql_safe (table_name (st_config st))
   | Err e \<Rightarrow> \<not> is_transient e
   | Panic \<Rightarrow> False"
proof (cases "prepare io env url_error url")
  case (Ok p)
  obtain st ps where p: "p = (st, ps)" by (cases p)
  have ok: "store_ok st" "pool_ok ps" using prepare_ok [of io env url_error url st ps] Ok p by simp_all
  then have "validate_identifier (table_name (st_config st)) = Ok ()"
    by (simp add: store_ok_def config_ok_def)
  then show ?thesis using Ok p ok validate_identifier_safe by simp
qed (simp_all add: prepare_error prepare_no_panic)

text \<open>What start-up does to the fields \<^verbatim>\<open>new\<close> initialises, and when it panics.\<close>

lemma then_run_Ok: "then_run p f = (Ok b, s') \<longleftrightarrow> (\<exists>a s1. p = (Ok a, s1) \<and> f a s1 = (Ok b, s'))"
  by (auto simp: then_run_def split: prod.splits outcome.splits)

lemma then_run_Panic:
  "fst (then_run p f) = Panic \<longleftrightarrow> fst p = Panic \<or> (\<exists>a s1. p = (Ok a, s1) \<and> fst (f a s1) = Panic)"
  by (auto simp: then_run_def split: prod.splits outcome.splits)

lemma sqlx_result_no_panic [simp]: "fst (sqlx_result p) \<noteq> Panic"
  by (auto simp: sqlx_result_def split: prod.splits sum.splits)

lemma verify_no_panic [simp]: "verify_partition_count tbl e a \<noteq> Panic"
  by (simp add: verify_partition_count_def Let_def)

lemma verify_partition_count_ok:
  "verify_partition_count tbl e a = Ok () \<longleftrightarrow> (if e \<le> 1 then a \<le> 0 else a = int e)"
  by (auto simp: verify_partition_count_def Let_def)

lemma connect_with_session_no_panic: "fst (connect_direct_with_session drv d k q s) \<noteq> Panic"
  using connect_direct_no_panic [of drv d s]
  by (auto simp: connect_direct_with_session_def then_run_Panic Let_def)

lemma connect_mode_no_panic: "fst (connect_mode drv st ps s) \<noteq> Panic"
  by (simp add: connect_mode_def split: conn_mode.splits)

lemma ddl_ok:
  assumes "store_ok st" "partition_names_fit (st_tune st) (table_name (st_config st))"
  shows "\<exists>c. create_table_sql (st_tune st) (table_name (st_config st)) = Ok c"
    "\<exists>c. tune_table_sql io (st_tune st) (table_name (st_config st)) = Ok c"
  using assms by (auto simp: store_ok_def config_ok_def tune_ok_def create_table_sql_def
      tune_table_sql_def asserting_def valid_ident_iff)

lemma create_table_panics:
  assumes "store_ok st"
  shows "fst (create_table drv io st s) = Panic \<longleftrightarrow>
    \<not> partition_names_fit (st_tune st) (table_name (st_config st))"
proof (cases "partition_names_fit (st_tune st) (table_name (st_config st))")
  case True
  from ddl_ok(1) [OF assms True] ddl_ok(2) [OF assms True, of io] obtain c d where
    "create_table_sql (st_tune st) (table_name (st_config st)) = Ok c"
    "tune_table_sql io (st_tune st) (table_name (st_config st)) = Ok d" by blast
  with True show ?thesis
    by (auto simp: create_table_def then_run_Panic connect_with_session_no_panic split: conn_mode.splits)
next
  case False
  then have "create_table_sql (st_tune st) (table_name (st_config st)) = Panic"
    by (simp add: create_table_sql_def)
  with False show ?thesis by (simp add: create_table_def)
qed

lemma verify_table_no_panic:
  assumes "store_ok st"
  shows "fst (verify_table drv st s) \<noteq> Panic"
  using assms connect_direct_no_panic [of drv "st_connect_timeout st" s]
  by (auto simp: verify_table_def partition_count_sql_def asserting_def store_ok_def config_ok_def
      valid_ident_iff Let_def then_run_Panic split: conn_mode.splits)

lemma start_up_panics:
  assumes "store_ok st"
  shows "fst (start_up drv io st ps s) = Panic \<longleftrightarrow>
    fst (connect_mode drv st ps s) = Ok () \<and> auto_create_table (st_config st) \<and>
    \<not> partition_names_fit (st_tune st) (table_name (st_config st))"
  using create_table_panics [OF assms, where drv = drv and io = io]
    verify_table_no_panic [OF assms, where drv = drv] connect_mode_no_panic [of drv st ps s]
  by (cases "connect_mode drv st ps s") (auto simp: start_up_def then_run_Panic)

lemma new_panics_iff:
  "fst (store_new drv io env url_error url s) = Panic \<longleftrightarrow>
    (\<exists>st ps. prepare io env url_error url = Ok (st, ps) \<and>
       fst (connect_mode drv st ps (spawn_heartbeat st s)) = Ok () \<and>
       auto_create_table (st_config st) \<and>
       1 < partitions (st_tune st) \<and>
       61 < length (table_name (st_config st)) + length (fmt_nat (partitions (st_tune st) - 1)))"
proof (cases "prepare io env url_error url")
  case (Ok p)
  obtain st ps where p: "p = (st, ps)" by (cases p)
  have ok: "store_ok st" using prepare_ok [of io env url_error url st ps] Ok p by simp
  have "fst (store_new drv io env url_error url s) = Panic \<longleftrightarrow>
      fst (start_up drv io st ps (spawn_heartbeat st s)) = Panic"
    using Ok p by (auto simp: store_new_def split: prod.splits outcome.splits)
  then show ?thesis
    using Ok p start_up_panics [OF ok, of drv io ps "spawn_heartbeat st s"]
    by (auto simp: partition_names_fit_def not_le)
qed (simp_all add: store_new_def prepare_no_panic)


text \<open>
  C11. When \<^verbatim>\<open>new\<close> panics: exactly when its settings are fine, the pool connects, the table is to be
  created, and the name of the last partition would be longer than 63 bytes.  The URL check
  accepts such a table name and such a partition count, so a URL alone can do it; nothing else
  in \<^verbatim>\<open>new\<close> can panic.
\<close>

theorem store_new_panics_iff:
  "fst (store_new drv io env url_error url s) = Panic \<longleftrightarrow>
    (\<exists>st ps. prepare io env url_error url = Ok (st, ps) \<and>
       fst (connect_mode drv st ps (spawn_heartbeat st s)) = Ok () \<and>
       auto_create_table (st_config st) \<and>
       1 < partitions (st_tune st) \<and>
       61 < length (table_name (st_config st)) + length (fmt_nat (partitions (st_tune st) - 1)))"
  by (rule new_panics_iff)

subsection \<open>A URL that panics\<close>

text \<open>The characters of an identifier or a number stand for themselves in a query.\<close>

lemma ident_char_code: "ident_char c \<Longrightarrow> 47 < (of_char c :: nat) \<and> (of_char c :: nat) < 123"
  by (auto simp: ident_char_def dest: alnum_code)

lemma ident_special:
  assumes "list_all ident_char t"
  shows "CHR ''%'' \<notin> set t" "CHR ''+'' \<notin> set t" "CHR ''&'' \<notin> set t" "CHR ''#'' \<notin> set t" "CHR ''?'' \<notin> set t"
  using assms by (auto simp: list_all_iff ident_char_def char_class_defs char_le_of_char)

lemma percent_bytes_plain: "CHR ''%'' \<notin> set t \<Longrightarrow> CHR ''+'' \<notin> set t \<Longrightarrow> percent_bytes t = t"
  by (induction t) auto

lemma percent_decode_ident: "list_all ident_char t \<Longrightarrow> percent_decode t = t"
proof -
  assume t: "list_all ident_char t"
  have "is_ascii t"
    using t ident_char_code by (fastforce simp: is_ascii_def list_all_iff)
  then show ?thesis
    using ident_special [OF t] by (simp add: percent_decode_def percent_bytes_plain utf8_lossy_ascii)
qed

lemma ident_fmt_nat: "list_all ident_char (fmt_nat n)"
  using fmt_nat_chars by (auto simp: list_all_iff ident_char_def is_ascii_alphanumeric_def)

definition long_name_url :: "string \<Rightarrow> string \<Rightarrow> nat \<Rightarrow> string" where
  "long_name_url base t n = base @ ''?table_name='' @ t @ ''&hash_partitions='' @ fmt_nat n"

lemma long_name_query:
  assumes "CHR ''?'' \<notin> set base" "list_all ident_char t"
  shows "url_query (long_name_url base t n) = Some (''table_name='' @ t @ ''&hash_partitions='' @ fmt_nat n)"
proof -
  let ?q = "''table_name='' @ t @ ''&hash_partitions='' @ fmt_nat n"
  note sp = ident_special [OF assms(2)] ident_special [OF ident_fmt_nat [of n]]
  have "CHR ''#'' \<notin> set ?q" using sp by simp
  from url_query_mk [OF assms(1) this, of "[]"]
  have "url_query (long_name_url base t n) = Some (takeWhile (\<lambda>x. x \<noteq> CHR ''?'') ?q)"
    by (simp add: long_name_url_def)
  moreover have "takeWhile (\<lambda>x. x \<noteq> CHR ''?'') ?q = ?q" using sp by (intro takeWhile_eq_all_conv [THEN iffD2]) auto
  ultimately show ?thesis by simp
qed

lemma long_name_config:
  assumes "CHR ''?'' \<notin> set base" "validate_identifier t = Ok ()" "1 \<le> n" "n \<le> 1024"
  shows "merge_url_params (long_name_url base t n) default_config =
    (Ok (), default_config\<lparr>table_name := t, hash_partitions := Some n\<rparr>)"
proof -
  have t: "list_all ident_char t" using assms(2) by (simp add: validate_identifier_ok)
  have "split_on (CHR ''&'') (''table_name='' @ t @ ''&hash_partitions='' @ fmt_nat n) =
      [''table_name='' @ t, ''hash_partitions='' @ fmt_nat n]"
    using split_on_append [of "CHR ''&''" "''table_name='' @ t" "''hash_partitions='' @ fmt_nat n"]
      ident_special [OF t] ident_special [OF ident_fmt_nat [of n]] by simp
  moreover have "parse_u32 (fmt_nat n) = Some n"
    using assms(4) by (simp add: parse_u32_def parse_unsigned_fmt u32_max_def)
  ultimately show ?thesis
    using assms long_name_query [OF assms(1) t, of n] percent_decode_ident [OF t]
      percent_decode_ident [OF ident_fmt_nat [of n]]
    by (simp add: merge_url_params_def split_once_def merge_param_def)
qed


lemma long_name_load:
  assumes "CHR ''?'' \<notin> set base" "validate_identifier t = Ok ()" "1 \<le> n" "n \<le> 1024"
  obtains cfg where "load_config env (long_name_url base t n) = Ok cfg" "table_name cfg = t"
    "hash_partitions cfg = Some n" "\<not> pooler cfg" "auto_create_table cfg"
proof -
  define cfg where "cfg = merge_env env (default_config\<lparr>table_name := t, hash_partitions := Some n\<rparr>)"
  have c: "table_name cfg = t" "hash_partitions cfg = Some n" "\<not> pooler cfg" "auto_create_table cfg"
    "max_connections cfg = None" "min_connections cfg = None"
    by (simp_all add: cfg_def merge_env_def default_config_def split: option.splits)
  have "load_config env (long_name_url base t n) = Ok (cap_min cfg)"
    using long_name_config [OF assms] assms(2) c
    by (simp add: load_config_def cfg_def [symmetric] Let_def)
  moreover have "cap_min cfg = cfg" using c by (simp add: cap_min_def)
  ultimately show ?thesis using that c by simp
qed

text \<open>
  A URL can crash the start: with a table name the identifier check accepts but which is 61 bytes
  or longer, and a partition count from 2 to 1024, which the query parser accepts too, \<^verbatim>\<open>new\<close>
  panics as soon as the pool is connected, whatever the environment says.
\<close>

lemma long_name_url_panics:
  assumes "CHR ''?'' \<notin> set base" "validate_identifier t = Ok ()" "61 \<le> length t" "2 \<le> n" "n \<le> 1024"
    and "\<And>opts x. fst (drv_pool_connect drv opts x) = Inr ()"
  shows "fst (store_new drv io env (\<lambda>_. None) (long_name_url base t n) s) = Panic"
proof -
  obtain cfg where cfg: "load_config env (long_name_url base t n) = Ok cfg" "table_name cfg = t"
    "hash_partitions cfg = Some n" "\<not> pooler cfg" "auto_create_table cfg"
    using long_name_load [OF assms(1,2), of n env] assms(4,5) by auto
  define tn where "tn = override_partitions cfg (tune_from_env io env)"
  have tn: "tune_ok tn" "partitions tn = n"
    using override_ok [OF tune_ok_from_env, of cfg io env] cfg(3) assms(4,5)
    by (simp_all add: tn_def override_partitions_def)
  obtain ss where ss: "session_sql io tn = Ok ss" using tune_session_ok [OF tn(1)] by blast
  have "0 < ps_max (pool_settings_of cfg tn)"
    using pool_settings_ok [OF load_config_ok [OF cfg(1)] tn(1)] by (simp add: pool_ok_def)
  then obtain st ps where st: "prepare io env (\<lambda>_. None) (long_name_url base t n) = Ok (st, ps)"
    "st_config st = cfg" "st_tune st = tn" "st_mode st = PooledMode"
    using cfg(1,4) ss by (auto simp: prepare_def Let_def tn_def [symmetric])
  have "fst (connect_mode drv st ps (spawn_heartbeat st s)) = Ok ()"
    using st(4) assms(6) by (simp add: connect_mode_def sqlx_result_def case_prod_beta)
  moreover have "0 < length (fmt_nat (n - 1))" by simp
  then have "61 < length t + length (fmt_nat (n - 1))" using assms(3) by linarith
  ultimately show ?thesis
    unfolding new_panics_iff
    using st cfg(2,5) tn(2) assms(4) by (intro exI [of _ st] exI [of _ ps]) auto
qed

lemma long_name_url_panics_witness:
  "fst (store_new sim_driver io env (\<lambda>_. None) (long_name_url ''postgres://h/d'' (replicate 61 (CHR ''a'')) 2) sim0) = Panic"
proof (rule long_name_url_panics)
  show "validate_identifier (replicate 61 (CHR ''a'')) = Ok ()"
  proof -
    have "length w < 61" if "w \<in> set RESERVED" for w
    proof -
      have "list_all (\<lambda>w. length w < 61) RESERVED" by (simp add: RESERVED_def)
      then show ?thesis using that by (simp add: list_all_iff)
    qed
    then have "to_ascii_uppercase (replicate 61 (CHR ''a'')) \<notin> set RESERVED"
      by (metis length_map length_replicate less_irrefl to_ascii_uppercase_def)
    moreover have "ident_char (CHR ''a'')" "is_ascii_alphabetic (CHR ''a'')"
      by (simp_all add: ident_char_def char_class_defs char_le_of_char)
    ultimately show ?thesis by (simp add: validate_identifier_ok list_all_iff)
  qed
qed (simp_all add: sim_driver_def sim_ok_def)


subsection \<open>The store that new returns\<close>

lemma sqlx_result_Ok: "sqlx_result p = (Ok a, s) \<longleftrightarrow> p = (Inr a, s)"
  by (auto simp: sqlx_result_def split: prod.splits sum.splits)

text \<open>The server reported a partition count, and it is the configured one.\<close>

definition partitions_verified :: "('c, 's) pg_driver \<Rightarrow> pg_store \<Rightarrow> bool" where
  "partitions_verified drv st \<longleftrightarrow> (\<exists>x y a q.
     (case st_mode st of
        PooledMode \<Rightarrow> drv_pool_count drv q (table_name (st_config st)) x = (Inr a, y)
      | DirectMode \<Rightarrow> (\<exists>c. drv_count drv c q (table_name (st_config st)) x = (Inr a, y))) \<and>
     (if partitions (st_tune st) \<le> 1 then a \<le> 0 else a = int (partitions (st_tune st))))"

lemma verify_table_Ok: "verify_table drv st s = (Ok u, s') \<Longrightarrow> partitions_verified drv st"
  by (auto simp: verify_table_def Let_def then_run_Ok sqlx_result_Ok partitions_verified_def
      verify_partition_count_ok split: outcome.splits conn_mode.splits) metis+


lemma default_fields [simp]:
  "table_name default_config = ''kv''" "min_connections default_config = None"
  "max_connections default_config = None" "pooler default_config = False"
  "hash_partitions default_config = None" "auto_create_table default_config = True"
  by (simp_all add: default_config_def)

lemma sim_new:
  "\<exists>st s'. store_new sim_driver io (\<lambda>_. None) (\<lambda>_. None) ''postgres://h/d'' sim0 = (Ok st, s') \<and>
     auto_create_table (st_config st)"
proof -
  have l: "load_config (\<lambda>_. None) ''postgres://h/d'' = Ok default_config"
    using kv_valid by (simp add: load_config_def merge_url_params_def url_query_def merge_env_def cap_min_def Let_def)
  let ?tn = "override_partitions default_config (tune_from_env io (\<lambda>_. None))"
  have tn: "tune_ok ?tn" by (rule override_ok [OF tune_ok_from_env])
  have one: "partitions ?tn = 1"
    by (simp add: override_partitions_def tune_from_env_def env_partitions_def env_u32_def)
  obtain ss where ss: "session_sql io ?tn = Ok ss" using tune_session_ok [OF tn] by blast
  have "0 < ps_max (pool_settings_of default_config ?tn)"
    using pool_settings_ok [OF default_config_ok tn] by (simp add: pool_ok_def)
  then obtain st ps where st: "prepare io (\<lambda>_. None) (\<lambda>_. None) ''postgres://h/d'' = Ok (st, ps)"
    "st_config st = default_config" "st_tune st = ?tn" "st_mode st = PooledMode"
    using ss by (auto simp: prepare_def l Let_def)
  have fit: "partition_names_fit (st_tune st) (table_name (st_config st))"
    by (simp add: partition_names_fit_def st(3) one)
  have ok: "store_ok st" using prepare_ok [OF st(1)] by simp
  obtain c d where "create_table_sql ?tn ''kv'' = Ok c" "tune_table_sql io ?tn ''kv'' = Ok d"
    using ddl_ok(1) [OF ok fit] ddl_ok(2) [OF ok fit, of io] st(2,3) by auto
  moreover have "\<exists>q. partition_count_sql ''kv'' = Ok q"
    using kv_valid by (simp add: partition_count_sql_def asserting_def valid_ident_iff)
  moreover have "verify_partition_count ''kv'' 1 0 = Ok ()"
    by (simp add: verify_partition_count_def)
  ultimately have "fst (start_up sim_driver io st ps (spawn_heartbeat st sim0)) = Ok ()"
    using st(2-4) one
    by (auto simp: start_up_def connect_mode_def create_table_def verify_table_def sim_driver_def sim_ok_def
        sqlx_result_def then_run_def spawn_heartbeat_def sim0_def Let_def)
  then show ?thesis
    using st(1,2) by (cases "start_up sim_driver io st ps (spawn_heartbeat st sim0)")
      (simp add: store_new_def)
qed



text \<open>
  A direct store whose table is as configured, and one whose table has seven partitions the
  configuration does not expect.
\<close>

lemma sim_new_direct:
  "\<exists>st ps. prepare io (\<lambda>_. None) (\<lambda>_. None) ''postgres://h/d?pooler=on'' = Ok (st, ps) \<and>
     pooler (st_config st) \<and>
     (\<exists>s'. store_new sim_driver io (\<lambda>_. None) (\<lambda>_. None) ''postgres://h/d?pooler=on'' sim0 = (Ok st, s')) \<and>
     (\<exists>e s'. store_new sim_driver io (\<lambda>_. None) (\<lambda>_. None) ''postgres://h/d?pooler=on''
        (sim0\<lparr>sim_parts := 7\<rparr>) = (Err e, s'))"
proof -
  let ?url = "''postgres://h/d?pooler=on''" and ?cfg = "default_config\<lparr>pooler := True\<rparr>"
  have "parse_bool_param ''on'' = Some True"
    by (simp add: parse_bool_param_def to_ascii_lowercase_def ascii_lower_def char_class_defs char_le_of_char)
  moreover have "percent_decode ''on'' = ''on''"
    by (rule percent_decode_ident) (simp add: ident_char_def char_class_defs char_le_of_char)
  ultimately have m: "merge_url_params ?url default_config = (Ok (), ?cfg)"
    by (simp add: merge_url_params_def url_query_def split_once_def merge_param_def)
  have l: "load_config (\<lambda>_. None) ?url = Ok ?cfg"
    using kv_valid by (simp add: load_config_def m merge_env_def cap_min_def Let_def)
  let ?tn = "override_partitions ?cfg (tune_from_env io (\<lambda>_. None))"
  have tn: "tune_ok ?tn" by (rule override_ok [OF tune_ok_from_env])
  have one: "partitions ?tn = 1"
    by (simp add: override_partitions_def tune_from_env_def env_partitions_def env_u32_def)
  obtain ss where ss: "session_sql io ?tn = Ok ss" using tune_session_ok [OF tn] by blast
  obtain st ps where st: "prepare io (\<lambda>_. None) (\<lambda>_. None) ?url = Ok (st, ps)"
    "st_config st = ?cfg" "st_tune st = ?tn" "st_mode st = DirectMode"
    using ss by (auto simp: prepare_def l Let_def)
  have fit: "partition_names_fit (st_tune st) (table_name (st_config st))"
    by (simp add: partition_names_fit_def st(3) one)
  have ok: "store_ok st" using prepare_ok [OF st(1)] by simp
  then have t: "0 < st_connect_timeout st" using st(4) by (simp add: store_ok_def)
  have sql: "\<exists>c. create_table_sql ?tn ''kv'' = Ok c" "\<exists>d. tune_table_sql io ?tn ''kv'' = Ok d"
    using ddl_ok(1) [OF ok fit] ddl_ok(2) [OF ok fit, of io] st(2,3) by auto
  have q: "\<exists>q. partition_count_sql ''kv'' = Ok q"
    using kv_valid by (simp add: partition_count_sql_def asserting_def valid_ident_iff)
  have run: "\<exists>s'. start_up sim_driver io st ps (spawn_heartbeat st (sim0\<lparr>sim_parts := n\<rparr>)) =
      (verify_partition_count ''kv'' 1 n, s')" for n
    using t sql q st(2-4) one
    by (auto simp: start_up_def connect_mode_def create_table_def verify_table_def sim_driver_def sim_ok_def
        connect_direct_def connect_direct_with_session_def sqlx_result_def then_run_def spawn_heartbeat_def
        sim0_def Let_def)
  have "verify_partition_count ''kv'' 1 0 = Ok ()" "\<exists>e. verify_partition_count ''kv'' 1 7 = Err e"
    by (simp_all add: verify_partition_count_def Let_def)
  moreover have "sim0\<lparr>sim_parts := 0\<rparr> = sim0" by (simp add: sim0_def)
  ultimately show ?thesis
    using st(1,2) run [of 0] run [of 7] by (auto simp: store_new_def)
qed


subsection \<open>Metrics\<close>

text \<open>
  The metrics: a name has a value exactly when it is registered; a direct store reports no pool;
  the transaction counters are reported as they are and reading them changes nothing; the warning
  about a full pool is given when more than four fifths are used, and only once.
\<close>

lemma metrics_exact:
  "(fst (collect_u64_metric drv st metric s) = None \<longleftrightarrow> metric \<notin> set METRICS) \<and>
   map (\<lambda>m. collect_u64_metric drv (st\<lparr>st_mode := DirectMode\<rparr>) m s)
     [''pg_pool_size'', ''pg_pool_idle'', ''pg_pool_max'', ''pg_direct_mode''] =
     [(Some 0, s), (Some 0, s), (Some 0, s), (Some 1, s)] \<and>
   map (\<lambda>m. collect_u64_metric drv st m s)
     [''pg_tx_started'', ''pg_tx_committed'', ''pg_tx_rolled_back'', ''pg_tx_active''] =
     map (\<lambda>c. (Some (unat (c s)), s)) [sh_started, sh_committed, sh_rolled_back, sh_active] \<and>
   (fst (check_pool_utilization drv st s) \<longleftrightarrow> \<not> sh_warned s \<and> st_mode st = PooledMode \<and>
      0 < drv_pool_size drv s \<and> 4 * st_pool_max st < 5 * drv_pool_size drv s) \<and>
   \<not> (fst (check_pool_utilization drv st s) \<and>
      fst (check_pool_utilization drv st (snd (check_pool_utilization drv st s))))"
proof -
  have "fst (collect_u64_metric drv st metric s) = None \<longleftrightarrow> metric \<notin> set METRICS"
    by (auto simp: collect_u64_metric_def METRICS_def u64_metrics_def case_prod_beta tx_metrics_def Let_def)
  moreover have "fst (check_pool_utilization drv st s) \<longleftrightarrow> \<not> sh_warned s \<and> st_mode st = PooledMode \<and>
      0 < drv_pool_size drv s \<and> 4 * st_pool_max st < 5 * drv_pool_size drv s"
    by (auto simp: check_pool_utilization_def pool_size_def Let_def split: conn_mode.splits)
  moreover have "\<not> (fst (check_pool_utilization drv st s) \<and>
      fst (check_pool_utilization drv st (snd (check_pool_utilization drv st s))))"
    by (auto simp: check_pool_utilization_def Let_def split: if_splits)
  ultimately show ?thesis
    by (simp add: collect_u64_metric_def is_direct_mode_def pool_size_def check_pool_utilization_def tx_metrics_def)
qed

end
