(* ===== verification/Heartbeat.thy ===== *)
theory Heartbeat
  imports Prelude
begin

section \<open>The heartbeat task (direct_mode_heartbeat of src/store.rs)\<close>

text \<open>
  The background task of direct mode as a step relation.  A phase is an await of the task: the
  sleep between two probes, the connection attempt, the back-off after a failed one, and the
  probe itself.  Each await is a \<^verbatim>\<open>select!\<close> against the cancellation token: when both are ready
  either branch may win.  The first sleep is followed by one more look at the token.
\<close>

datatype hb_phase = Sleeping | Connecting | Backoff nat | Probing | Exited

text \<open>
  \<open>hb_conn\<close> says whether the variable \<^verbatim>\<open>conn\<close> holds a connection; during a probe it is taken out.
  The failure counter is a \<^verbatim>\<open>u32\<close>.
\<close>

record heartbeat =
  hb_phase :: hb_phase
  hb_conn :: bool
  hb_fails :: u32
  hb_cancel :: bool

definition hb_init :: heartbeat where
  "hb_init = \<lparr>hb_phase = Sleeping, hb_conn = False, hb_fails = 0, hb_cancel = False\<rparr>"

definition backoff_secs :: "u32 \<Rightarrow> nat" where
  "backoff_secs fails = min (sat_mul64 (sat_sq64 (unat fails)) 5) 300"

inductive hb_step :: "heartbeat \<Rightarrow> heartbeat \<Rightarrow> bool" where
  token: "\<not> hb_cancel h \<Longrightarrow> hb_step h (h\<lparr>hb_cancel := True\<rparr>)"
| asleep_cancelled: "\<lbrakk>hb_phase h = Sleeping; hb_cancel h\<rbrakk> \<Longrightarrow> hb_step h (h\<lparr>hb_phase := Exited\<rparr>)"
| asleep_connect: "\<lbrakk>hb_phase h = Sleeping; \<not> hb_cancel h; \<not> hb_conn h\<rbrakk> \<Longrightarrow>
    hb_step h (h\<lparr>hb_phase := Connecting\<rparr>)"
| asleep_probe: "\<lbrakk>hb_phase h = Sleeping; \<not> hb_cancel h; hb_conn h\<rbrakk> \<Longrightarrow>
    hb_step h (h\<lparr>hb_phase := Probing, hb_conn := False\<rparr>)"
| connect_cancelled: "\<lbrakk>hb_phase h = Connecting; hb_cancel h\<rbrakk> \<Longrightarrow> hb_step h (h\<lparr>hb_phase := Exited\<rparr>)"
| connect_ok: "hb_phase h = Connecting \<Longrightarrow> hb_step h (h\<lparr>hb_phase := Probing, hb_fails := 0\<rparr>)"
| connect_err: "hb_phase h = Connecting \<Longrightarrow>
    hb_step h (h\<lparr>hb_phase := Backoff (backoff_secs (hb_fails h + 1)), hb_fails := hb_fails h + 1\<rparr>)"
| backoff_cancelled: "\<lbrakk>hb_phase h = Backoff n; hb_cancel h\<rbrakk> \<Longrightarrow> hb_step h (h\<lparr>hb_phase := Exited\<rparr>)"
| backoff_over: "hb_phase h = Backoff n \<Longrightarrow> hb_step h (h\<lparr>hb_phase := Sleeping\<rparr>)"
| probe_cancelled: "\<lbrakk>hb_phase h = Probing; hb_cancel h\<rbrakk> \<Longrightarrow> hb_step h (h\<lparr>hb_phase := Exited\<rparr>)"
| probe_ok: "hb_phase h = Probing \<Longrightarrow>
    hb_step h (h\<lparr>hb_phase := Sleeping, hb_conn := True, hb_fails := 0\<rparr>)"
| probe_err: "hb_phase h = Probing \<Longrightarrow> hb_step h (h\<lparr>hb_phase := Sleeping, hb_fails := hb_fails h + 1\<rparr>)"

inductive hb_reachable :: "heartbeat \<Rightarrow> bool" where
  hb_start: "hb_reachable hb_init"
| hb_run: "\<lbrakk>hb_reachable h; hb_step h h'\<rbrakk> \<Longrightarrow> hb_reachable h'"

inductive_cases hb_stepE: "hb_step h h'"

subsection \<open>The back-off\<close>

text \<open>The saturating arithmetic never shows: the cap of five minutes is far below its bound.\<close>

lemma backoff_exact: "backoff_secs f = min (5 * unat f ^ 2) 300"
proof (cases "unat f ^ 2 \<le> u64_max")
  case True
  then have "sat_sq64 (unat f) = unat f ^ 2" by (simp add: sat_sq64_def)
  then show ?thesis by (simp add: backoff_secs_def sat_mul64_def min_def u64_max_def)
next
  case False
  then have "sat_sq64 (unat f) = u64_max" "60 \<le> unat f ^ 2" by (simp_all add: sat_sq64_def u64_max_def)
  then show ?thesis by (simp add: backoff_secs_def sat_mul64_def min_def u64_max_def)
qed

lemma backoff_low: "f \<noteq> 0 \<Longrightarrow> 5 \<le> backoff_secs f"
proof -
  assume "f \<noteq> 0"
  then have "1 \<le> unat f" by (simp add: unat_gt_0 Suc_le_eq)
  then have "1 \<le> unat f ^ 2" by simp
  then show ?thesis by (simp add: backoff_exact)
qed

subsection \<open>The invariant\<close>

definition hb_inv :: "heartbeat \<Rightarrow> bool" where
  "hb_inv h \<longleftrightarrow>
     (hb_conn h \<longrightarrow> hb_phase h \<in> {Sleeping, Exited} \<and> hb_fails h = 0) \<and>
     (hb_phase h = Probing \<longrightarrow> hb_fails h = 0) \<and>
     (\<forall>n. hb_phase h = Backoff n \<longrightarrow> n = backoff_secs (hb_fails h))"

lemma hb_inv_step: "hb_inv h \<Longrightarrow> hb_step h h' \<Longrightarrow> hb_inv h'"
  by (erule hb_stepE) (auto simp: hb_inv_def)

lemma hb_reachable_inv: "hb_reachable h \<Longrightarrow> hb_inv h"
proof (induction rule: hb_reachable.induct)
  case hb_start
  show ?case by (simp add: hb_inv_def hb_init_def)
qed (rule hb_inv_step)

text \<open>
  C19. The heartbeat, in every state it can reach: it waits with a connection or probes only with its
  failure counter at zero, so a probe that fails after each reconnection never leads to a
  back-off; and a back-off after a failed connection lasts the square of the failures times five
  seconds, at most five minutes, with no overflow at any count.
\<close>

theorem heartbeat_invariant:
  assumes "hb_reachable h"
  shows "(hb_conn h \<or> hb_phase h = Probing \<longrightarrow> hb_fails h = 0) \<and>
    (\<forall>n. hb_phase h = Backoff n \<longrightarrow> n = min (5 * unat (hb_fails h) ^ 2) 300 \<and>
       (hb_fails h \<noteq> 0 \<longrightarrow> 5 \<le> n))"
  using hb_reachable_inv [OF assms] backoff_low backoff_exact by (auto simp: hb_inv_def)

lemma reachable_backoff:
  "hb_reachable \<lparr>hb_phase = Backoff (backoff_secs 1), hb_conn = False, hb_fails = 1, hb_cancel = False\<rparr>"
proof -
  have "hb_step hb_init (hb_init\<lparr>hb_phase := Connecting\<rparr>)"
    by (rule asleep_connect) (simp_all add: hb_init_def)
  moreover have "hb_step (hb_init\<lparr>hb_phase := Connecting\<rparr>)
      (hb_init\<lparr>hb_phase := Backoff (backoff_secs 1), hb_fails := 1\<rparr>)"
    using connect_err [of "hb_init\<lparr>hb_phase := Connecting\<rparr>"] by (simp add: hb_init_def)
  ultimately have "hb_reachable (hb_init\<lparr>hb_phase := Backoff (backoff_secs 1), hb_fails := 1\<rparr>)"
    using hb_start hb_run by blast
  then show ?thesis by (simp add: hb_init_def)
qed

theorem heartbeat_invariant_witness: "backoff_secs 1 = 5 \<and> 5 \<le> backoff_secs 1"
  using heartbeat_invariant [OF reachable_backoff] by simp

subsection \<open>Cancellation\<close>

text \<open>How many steps a phase is from the exit once the token is cancelled.\<close>

fun hb_rank :: "hb_phase \<Rightarrow> nat" where
  "hb_rank Exited = 0"
| "hb_rank Sleeping = 1"
| "hb_rank Probing = 2"
| "hb_rank (Backoff n) = 2"
| "hb_rank Connecting = 3"

inductive hb_steps :: "heartbeat \<Rightarrow> nat \<Rightarrow> heartbeat \<Rightarrow> bool" where
  hb_stay: "hb_steps h 0 h"
| hb_more: "\<lbrakk>hb_step h h'; hb_steps h' n h''\<rbrakk> \<Longrightarrow> hb_steps h (Suc n) h''"

lemma cancelled_step:
  "hb_cancel h \<Longrightarrow> hb_step h h' \<Longrightarrow> hb_cancel h' \<and> hb_rank (hb_phase h') < hb_rank (hb_phase h)"
  by (erule hb_stepE) auto

lemma cancelled_steps:
  "hb_steps h n h' \<Longrightarrow> hb_cancel h \<Longrightarrow> n + hb_rank (hb_phase h') \<le> hb_rank (hb_phase h) \<and> hb_cancel h'"
proof (induction rule: hb_steps.induct)
  case (hb_more h h' n h'')
  then show ?case using cancelled_step [OF hb_more.prems hb_more(1)] by simp
qed simp

text \<open>
  C20. Cancellation is prompt: after the token is cancelled the task takes at most three more steps,
  whatever the server does, never starts a new connection attempt, and can always take the step
  that ends it, so when it cannot step any more it has exited.
\<close>

theorem cancelled_heartbeat_exits:
  assumes "hb_cancel h" "hb_steps h n h'"
  shows "n \<le> 3 \<and> (0 < n \<longrightarrow> hb_phase h' \<noteq> Connecting) \<and>
    (hb_phase h' = Exited \<or> hb_step h' (h'\<lparr>hb_phase := Exited\<rparr>))"
proof -
  have r: "n + hb_rank (hb_phase h') \<le> hb_rank (hb_phase h)" and c: "hb_cancel h'"
    using cancelled_steps [OF assms(2,1)] by simp_all
  have "hb_rank (hb_phase h) \<le> 3" by (cases "hb_phase h") simp_all
  moreover have "hb_phase h' = Exited \<or> hb_step h' (h'\<lparr>hb_phase := Exited\<rparr>)"
    using c by (cases "hb_phase h'")
      (auto intro: asleep_cancelled connect_cancelled backoff_cancelled probe_cancelled)
  ultimately show ?thesis using r by auto
qed

theorem cancelled_heartbeat_exits_witness:
  "hb_phase (hb_init\<lparr>hb_cancel := True, hb_phase := Exited\<rparr>) \<noteq> Connecting"
proof -
  have "hb_step (hb_init\<lparr>hb_cancel := True\<rparr>) (hb_init\<lparr>hb_cancel := True, hb_phase := Exited\<rparr>)"
    using asleep_cancelled [of "hb_init\<lparr>hb_cancel := True\<rparr>"] by (simp add: hb_init_def)
  then have "hb_steps (hb_init\<lparr>hb_cancel := True\<rparr>) (Suc 0) (hb_init\<lparr>hb_cancel := True, hb_phase := Exited\<rparr>)"
    by (rule hb_more [OF _ hb_stay])
  then show ?thesis using cancelled_heartbeat_exits [of "hb_init\<lparr>hb_cancel := True\<rparr>"] by simp
qed

end
