(* ===== verification/Composer.thy ===== *)
theory Composer
  imports Store_Props Heartbeat
begin

section \<open>The composer (src/composer.rs)\<close>

text \<open>
  \<^verbatim>\<open>PostgresComposer\<close> wraps the community composer of SurrealDB, which is a parameter: its methods
  are the fields of \<open>community\<close>.  PostgreSQL paths become a store, everything else is passed on.
  What the composer does with the store it has made decides what becomes of the heartbeat.
\<close>

subsection \<open>Model\<close>

text \<open>
  The fields follow the traits: the builder factory, whose parts hold a builder and a state for the
  router, the validation of a path, the router, the check of the configuration, the bucket
  store and the observer.
\<close>

record ('k, 'm, 's, 'e, 'b, 'p, 'r, 'g, 'q, 'w, 'z) community =
  com_builder :: "string \<Rightarrow> 'k \<Rightarrow> 'm \<Rightarrow> 's \<Rightarrow> ('e, 'b \<times> 'p) outcome \<times> 's"
  com_path_valid :: "string \<Rightarrow> ('e, string) outcome"
  com_router :: "unit \<Rightarrow> 'r"
  com_check :: "'g \<Rightarrow> 's \<Rightarrow> ('e, unit) outcome \<times> 's"
  com_connect :: "string \<Rightarrow> bool \<Rightarrow> bool \<Rightarrow> 'q \<Rightarrow> ('e, 'w) outcome"
  com_observer :: 'z

datatype 'b builder = PgBuilder pg_store | CommunityBuilder 'b

text \<open>
  \<^verbatim>\<open>new\<close> returns an \<^verbatim>\<open>Arc\<close>.  The composer boxes a clone of the store behind it, which shares every
  counter and the cancellation token; the \<^verbatim>\<open>Arc\<close> itself is dropped when the function returns, and as
  it is the only reference, \<^verbatim>\<open>Drop for PgStore\<close> runs on the original.
\<close>

definition new_transaction_builder ::
  "('c, 'v shared_scheme) pg_driver \<Rightarrow> f64_io \<Rightarrow> environment \<Rightarrow> (string \<Rightarrow> string option) \<Rightarrow>
     ('k, 'm, 'v shared_scheme, 'e, 'b, 'p, 'r, 'g, 'q, 'w, 'z) community \<Rightarrow> string \<Rightarrow> 'k \<Rightarrow> 'm \<Rightarrow>
     'v shared_scheme \<Rightarrow> (pg_store_error + 'e, 'b builder) outcome \<times> 'v shared_scheme" where
  "new_transaction_builder drv io env url_error com path canceller config s =
     (if is_pg_path path then
        (case store_new drv io env url_error path s of
           (Ok st, s') \<Rightarrow> (let boxed = st in (Ok (PgBuilder boxed), store_drop st s'))
         | (Err e, s') \<Rightarrow> (Err (Inl e), s')
         | (Panic, s') \<Rightarrow> (Panic, s'))
      else
        (case com_builder com path canceller config s of
           (r, s') \<Rightarrow> (map_err Inr (map_ok (\<lambda>parts. CommunityBuilder (fst parts)) r), s')))"

definition path_valid ::
  "('k, 'm, 's, 'e, 'b, 'p, 'r, 'g, 'q, 'w, 'z) community \<Rightarrow> string \<Rightarrow> ('e, string) outcome" where
  "path_valid com v = (if is_pg_path v then Ok v else com_path_valid com v)"

definition configure_router ::
  "('k, 'm, 's, 'e, 'b, 'p, 'r, 'g, 'q, 'w, 'z) community \<Rightarrow> unit \<Rightarrow> 'r" where
  "configure_router com router_state = com_router com router_state"

definition check_config ::
  "('k, 'm, 's, 'e, 'b, 'p, 'r, 'g, 'q, 'w, 'z) community \<Rightarrow> 'g \<Rightarrow> 's \<Rightarrow> ('e, unit) outcome \<times> 's" where
  "check_config com cfg s = com_check com cfg s"

definition bucket_connect ::
  "('k, 'm, 's, 'e, 'b, 'p, 'r, 'g, 'q, 'w, 'z) community \<Rightarrow> string \<Rightarrow> bool \<Rightarrow> bool \<Rightarrow> 'q \<Rightarrow>
     ('e, 'w) outcome" where
  "bucket_connect com url is_global readonly config = com_connect com url is_global readonly config"

definition create_observer :: "('k, 'm, 's, 'e, 'b, 'p, 'r, 'g, 'q, 'w, 'z) community \<Rightarrow> 'z" where
  "create_observer com = com_observer com"

definition display_composer :: string where
  "display_composer = ''PostgresComposer''"

subsection \<open>What becomes of the heartbeat\<close>

lemma store_new_Ok_direct:
  assumes "store_new drv io env url_error url s = (Ok st, s')"
  shows "store_ok st \<and> \<not> sh_shutdown s' \<and> tx_metrics s' = (0, 0, 0, 0)"
  using assms prepare_ok
  by (auto simp: store_new_def init_shared_def tx_metrics_def split: outcome.splits prod.splits)

lemma drop_keeps [simp]:
  "sh_shutdown (store_drop st s) = sh_shutdown s" "tx_metrics (store_drop st s) = tx_metrics s"
  by (simp_all add: store_drop_def cancel_heartbeat_def tx_metrics_def)

lemma cancelled_bound: "\<lbrakk>hb_cancel h; hb_steps h n h'\<rbrakk> \<Longrightarrow> n \<le> 3"
  using cancelled_steps [of h n h'] by (cases "hb_phase h") auto

text \<open>
  C18. The store SurrealDB is given for a PostgreSQL path is ready to begin transactions, but in direct
  mode its heartbeat is already cancelled: whatever state the task is in, it takes at most
  three more steps.
\<close>

theorem composed_store_loses_heartbeat:
  assumes "new_transaction_builder drv io env url_error com path canceller config s = (Ok (PgBuilder st), s')"
  shows "is_pg_path path \<and> store_ok st \<and> \<not> sh_shutdown s' \<and> tx_metrics s' = (0, 0, 0, 0) \<and>
    (st_mode st = DirectMode \<longrightarrow>
       sh_hb_cancelled s' \<and>
       (\<forall>h n h'. hb_cancel h = sh_hb_cancelled s' \<longrightarrow> hb_steps h n h' \<longrightarrow> n \<le> 3))"
proof -
  obtain s1 where run: "is_pg_path path" "store_new drv io env url_error path s = (Ok st, s1)"
    "s' = store_drop st s1"
    using assms by (auto simp: new_transaction_builder_def split: if_splits outcome.splits prod.splits)
  have ok: "store_ok st \<and> \<not> sh_shutdown s1 \<and> tx_metrics s1 = (0, 0, 0, 0)"
    by (rule store_new_Ok_direct [OF run(2)])
  have c: "sh_hb_cancelled s'" if "st_mode st = DirectMode"
    using that ok run(3) by (simp add: store_drop_def cancel_heartbeat_def store_ok_def)
  then show ?thesis using ok run cancelled_bound by auto
qed

text \<open>A community composer that knows one path.\<close>

definition sim_community ::
  "(unit, unit, sim, string, nat, unit, nat, bool, unit, nat, nat) community" where
  "sim_community =
     \<lparr>com_builder = (\<lambda>p _ _ s. (if p = ''memory'' then Ok (7, ()) else Err ''unknown path'', s)),
      com_path_valid = (\<lambda>p. if p = ''memory'' then Ok p else Err ''unknown path''),
      com_router = (\<lambda>_. 0), com_check = (\<lambda>c s. (if c then Ok () else Err ''bad'', s)),
      com_connect = (\<lambda>_ _ _ _. Ok 0), com_observer = 0\<rparr>"

theorem composed_store_loses_heartbeat_witness:
  "\<exists>st s'. new_transaction_builder sim_driver \<lparr>parse_f64 = \<lambda>_. None, show_f64 = \<lambda>_. []\<rparr>
      (\<lambda>_. None) (\<lambda>_. None) sim_community ''postgres://h/d?pooler=on'' () () sim0 = (Ok (PgBuilder st), s') \<and>
    st_mode st = DirectMode \<and> sh_hb_cancelled s'"
proof -
  let ?io = "\<lparr>parse_f64 = \<lambda>_. None, show_f64 = \<lambda>_. []\<rparr>" and ?url = "''postgres://h/d?pooler=on''"
  obtain st s' where run: "pooler (st_config st)"
    "store_new sim_driver ?io (\<lambda>_. None) (\<lambda>_. None) ?url sim0 = (Ok st, s')"
    using sim_new_direct [of ?io] by blast
  have "is_pg_path ?url" by (simp add: is_pg_path_def)
  with run(2) have b: "new_transaction_builder sim_driver ?io (\<lambda>_. None) (\<lambda>_. None) sim_community ?url () () sim0 =
      (Ok (PgBuilder st), store_drop st s')"
    by (simp add: new_transaction_builder_def)
  have d: "st_mode st = DirectMode" using run(1) store_new_Ok_direct [OF run(2)] by (simp add: store_ok_def)
  show ?thesis using composed_store_loses_heartbeat [OF b] b d by blast
qed

text \<open>
  Every other path, and every other method, is the community composer's: its answer, its errors
  and its effect are passed on, and the store's state is touched by nothing else.
\<close>

lemma other_paths_are_community:
  assumes "\<not> is_pg_path path"
  shows "new_transaction_builder drv io env url_error com path canceller config s =
      apfst (\<lambda>r. map_err Inr (map_ok (CommunityBuilder \<circ> fst) r)) (com_builder com path canceller config s)"
    and "path_valid com path = com_path_valid com path"
  using assms by (simp_all add: new_transaction_builder_def path_valid_def apfst_def map_prod_def comp_def
      split: prod.splits)

end
