(* ===== verification/Sql_Trace.thy ===== *)
theory Sql_Trace
  imports Tx_Props Tune_Props
begin

section \<open>What a transaction sends to the server\<close>

text \<open>
  A server that keeps a log of the texts and parameters it is sent, around any server.  The log of
  a transaction is well typed: every query is one of the prepared texts of its own table with
  parameters of the types and the number its placeholders ask for, every other text is a savepoint
  statement with a valid name, and nothing that changes data is sent for a read.
\<close>

subsection \<open>The log\<close>

datatype sent = SentQuery string "pg_param list" | SentRaw string

definition traced :: "'s pg_server \<Rightarrow> ('s \<times> sent list) pg_server" where
  "traced srv =
     \<lparr>srv_query = \<lambda>p q ps (s, l). (let (r, s') = srv_query srv p q ps s in (r, s', l @ [SentQuery q ps])),
      srv_raw = \<lambda>q (s, l). (let (r, s') = srv_raw srv q s in (r, s', l @ [SentRaw q])),
      srv_commit = \<lambda>(s, l). (let (r, s') = srv_commit srv s in (r, s', l)),
      srv_rollback = \<lambda>(s, l). (let (r, s') = srv_rollback srv s in (r, s', l))\<rparr>"

lemma traced_query [simp]:
  "srv_query (traced srv) p q ps c =
     (fst (srv_query srv p q ps (fst c)), snd (srv_query srv p q ps (fst c)), snd c @ [SentQuery q ps])"
  by (simp add: traced_def case_prod_beta)

lemma traced_raw [simp]:
  "srv_raw (traced srv) q c =
     (fst (srv_raw srv q (fst c)), snd (srv_raw srv q (fst c)), snd c @ [SentRaw q])"
  by (simp add: traced_def case_prod_beta)

subsection \<open>Placeholders\<close>

text \<open>The character after each dollar sign of a text.\<close>

fun placeholders :: "string \<Rightarrow> string" where
  "placeholders [] = []"
| "placeholders (c # r) =
     (if c = CHR ''$'' then take 1 r @ placeholders r else placeholders r)"

lemma placeholders_skip [simp]: "CHR ''$'' \<notin> set t \<Longrightarrow> placeholders (t @ b) = placeholders b"
  by (induction t) auto

lemma placeholders_sql:
  assumes "CHR ''$'' \<notin> set t"
  shows "placeholders (q_exists (sql_new t)) = ''1''" "placeholders (q_get (sql_new t)) = ''1''"
    "placeholders (q_getm (sql_new t)) = ''1''" "placeholders (q_set (sql_new t)) = ''12''"
    "placeholders (q_setm (sql_new t)) = ''12''" "placeholders (q_put (sql_new t)) = ''12''"
    "placeholders (q_putc (sql_new t)) = ''213''" "placeholders (q_del (sql_new t)) = ''1''"
    "placeholders (q_delc (sql_new t)) = ''12''" "placeholders (q_delr (sql_new t)) = ''12''"
    "placeholders (q_count (sql_new t)) = ''12''"
    "placeholders (q_range_keys_asc (sql_new t)) = ''1234''"
    "placeholders (q_range_keys_desc (sql_new t)) = ''1234''"
    "placeholders (q_range_kv_asc (sql_new t)) = ''1234''"
    "placeholders (q_range_kv_desc (sql_new t)) = ''1234''"
    "placeholders (q_range_kv_all (sql_new t)) = ''12''"
    "placeholders (q_count_approx (sql_new t)) = ''1''"
  using assms by (simp_all add: sql_new_def)

definition fills :: "pg_param list \<Rightarrow> string \<Rightarrow> bool" where
  "fills ps q \<longleftrightarrow> mset (placeholders q) = mset (take (length ps) ''1234'') \<and> length ps \<le> 4"

lemma range_stmt_length: "range_stmt v d ps = Some st \<Longrightarrow> length ps = 4"
  by (auto simp: range_stmt_def split: list.splits pg_param.splits)

lemma stmt_fills:
  assumes "stmt_of t q ps = Some st" "CHR ''$'' \<notin> set t"
  shows "fills ps q"
  using assms(1)
  by (auto simp: stmt_of_def Let_def fills_def placeholders_sql [OF assms(2)] dest!: range_stmt_length
      split: if_splits list.splits pg_param.splits)

subsection \<open>Well typed logs\<close>

fun sent_ok :: "string \<Rightarrow> sent \<Rightarrow> bool" where
  "sent_ok t (SentQuery q ps) \<longleftrightarrow> stmt_of t q ps \<noteq> None \<and> fills ps q"
| "sent_ok t (SentRaw q) \<longleftrightarrow> (\<exists>n. validate_identifier n = Ok () \<and>
     (q = save_sql n \<or> q = release_sql n \<or> q = rollback_to_sql n))"

fun sent_read :: "string \<Rightarrow> sent \<Rightarrow> bool" where
  "sent_read t (SentQuery q ps) \<longleftrightarrow> (\<exists>st. stmt_of t q ps = Some st \<and> is_read st)"
| "sent_read t (SentRaw q) \<longleftrightarrow> True"

lemma ident_no_dollar: "validate_identifier t = Ok () \<Longrightarrow> CHR ''$'' \<notin> set t"
  by (auto simp: validate_identifier_ok list_all_iff ident_char_def char_class_defs char_le_of_char)

lemma savepoint_name_ok:
  assumes "k < 2 ^ 32"
  shows "validate_identifier (''sp_'' @ fmt_nat k) = Ok ()"
proof -
  have "k < 10 ^ 10" using assms by simp
  then have "length (fmt_nat k) \<le> 10" by (rule fmt_nat_length) simp
  moreover have "list_all ident_char (fmt_nat k)"
    using fmt_nat_chars by (auto simp: list_all_iff ident_char_def is_ascii_alphanumeric_def)
  moreover have "ident_char (CHR ''s'')" "ident_char (CHR ''p'')" "ident_char (CHR ''_'')"
    by (simp_all add: ident_char_def char_class_defs char_le_of_char)
  moreover have "hd (fmt_nat k) \<in> set (''sp_'' @ fmt_nat k)" "is_ascii_digit (hd (fmt_nat k))"
    using fmt_nat_chars [of "hd (fmt_nat k)" k] by simp_all
  ultimately show ?thesis
    using digits_not_reserved [of "hd (fmt_nat k)" "''sp_'' @ fmt_nat k"]
    by (simp add: validate_identifier_ok char_class_defs char_le_of_char)
qed

subsection \<open>What the operations send\<close>

definition within :: "string \<Rightarrow> bool \<Rightarrow> sent list \<Rightarrow> bool" where
  "within t w l \<longleftrightarrow> list_all (\<lambda>e. sent_ok t e \<and> (sent_read t e \<or> w)) l"

lemma within_simps [simp]:
  "within t w []"
  "within t w (l @ [e]) \<longleftrightarrow> within t w l \<and> sent_ok t e \<and> (sent_read t e \<or> w)"
  by (auto simp: within_def)

lemma within_mono: "\<lbrakk>within t w l; w \<longrightarrow> w'\<rbrakk> \<Longrightarrow> within t w' l"
  by (auto simp: within_def list_all_iff)

lemma query_then_read:
  assumes "stmt_of t q ps = Some st" "is_read st" "CHR ''$'' \<notin> set t" "within t w (snd c)"
  shows "within t w (snd (snd (query_then (traced srv) tx q ps key f c)))"
  using assms stmt_fills [OF assms(1,3)]
  by (simp add: query_then_def run_query_def case_prod_beta split: option.split sum.split)

lemma range_read:
  assumes "\<And>ps. stmt_of t q ps = range_stmt vals desc ps" "CHR ''$'' \<notin> set t" "within t w (snd c)"
  shows "within t w (snd (snd (scan_keys (traced srv) tx q a b n m c)))"
    "within t w (snd (snd (scan_pairs (traced srv) tx q a b n m c)))"
proof -
  have "stmt_of t q [PBytes a, PBytes b, PInt (uint n), PInt (uint m)] =
      Some (SRange vals desc a b (unat n) (unat m))"
    by (simp add: assms(1))
  note q = query_then_read [OF this _ assms(2,3)]
  show "within t w (snd (snd (scan_keys (traced srv) tx q a b n m c)))"
    "within t w (snd (snd (scan_pairs (traced srv) tx q a b n m c)))"
    using assms(3) by (simp_all add: scan_keys_def scan_pairs_def range_query_offset_def case_prod_beta q)
qed

lemma run_op_read:
  assumes "sql tx = sql_new t" "CHR ''$'' \<notin> set t" "within t w (snd c)" "\<not> is_write op"
  shows "within t w (snd (snd (run_op h (traced srv) tx op c)))"
proof -
  note q = query_then_read [OF _ _ assms(2,3)]
  show ?thesis
    using assms(4)
    by (cases op)
      (auto simp: wrap_def tx_exists_def tx_get_def tx_getm_def tx_keys_def tx_keysr_def tx_scan_def
        tx_scanr_def tx_getr_def tx_count_def assms(1,3) intro!: q range_read [OF _ assms(2,3)])
qed

lemma traced_kept: "CHR ''$'' \<notin> set t \<Longrightarrow> query_kept (traced srv) t (\<lambda>c. within t True (snd c))"
  using stmt_fills [of t] by (auto simp: query_kept_def)

lemma run_op_within:
  assumes "sql tx = sql_new t" "CHR ''$'' \<notin> set t" "within t w (snd c)" "is_write op \<and> writeable tx \<longrightarrow> w"
  shows "within t w (snd (snd (run_op h (traced srv) tx op c)))"
proof -
  consider "\<not> is_write op" | "is_write op" "\<not> writeable tx" | "w" using assms(4) by blast
  then show ?thesis
  proof cases
    case 2
    then show ?thesis using read_only_write [of tx op h "traced srv" c] assms(3) by simp
  next
    case 3
    with assms(3) run_op_kept [OF traced_kept [OF assms(2)] assms(1), where h = h and op = op and s = c] show ?thesis by simp
  qed (rule run_op_read [OF assms(1-3)])
qed

text \<open>The names a transaction gives its savepoints.\<close>

definition named_ok :: "pg_tx \<Rightarrow> bool" where
  "named_ok tx \<longleftrightarrow> list_all (\<lambda>n. validate_identifier n = Ok ()) (savepoints tx)"

lemma push_name_ok:
  assumes "named_ok tx" "push_savepoint_name tx = (name, tx1)"
  shows "validate_identifier name = Ok () \<and> named_ok tx1 \<and> named_ok (tx1\<lparr>savepoints := butlast (savepoints tx1)\<rparr>)"
proof -
  have "unat k < 2 ^ 32" for k :: u32 using unsigned_less [of k, where 'a = nat] by simp
  then have "validate_identifier (''sp_'' @ fmt_nat (unat k)) = Ok ()" for k :: u32
    by (rule savepoint_name_ok)
  with assms show ?thesis by (auto simp: push_savepoint_name_def named_ok_def Let_def)
qed

lemma pop_name_ok:
  assumes "named_ok tx" "pop_savepoint_name tx = (Some name, tx1)"
  shows "validate_identifier name = Ok () \<and> named_ok tx1 \<and> named_ok (push_back name tx1)"
  using assms by (cases "savepoints tx" rule: rev_cases)
    (auto simp: pop_savepoint_name_def named_ok_def push_back_def split: if_splits)

lemma pop_none: "pop_savepoint_name tx = (None, tx1) \<Longrightarrow> tx1 = tx"
  by (simp add: pop_savepoint_name_def split: if_splits)

lemma simple_within:
  assumes "validate_identifier n = Ok ()" "within t w (snd c)"
    "q = save_sql n \<or> q = release_sql n \<or> q = rollback_to_sql n"
  shows "within t w (snd (snd (execute_simple (traced srv) tx q key c)))"
  using assms by (auto simp: execute_simple_def split: option.split sum.split)

lemma new_within:
  assumes "named_ok tx" "within t w (snd c)" "new_save_point (traced srv) tx c = (r, tx', c')"
  shows "named_ok tx' \<and> within t w (snd c')"
proof -
  obtain name tx1 where p: "push_savepoint_name tx = (name, tx1)" by (metis prod.collapse)
  obtain e c1 where e: "execute_simple (traced srv) tx1 (save_sql name) None c = (e, c1)" by (metis prod.collapse)
  show ?thesis
    using push_name_ok [OF assms(1) p] simple_within [of name t w c "save_sql name" srv tx1 None] assms(2,3)
    by (auto simp: new_save_point_def p e split: outcome.splits)
qed

lemma release_within:
  assumes "named_ok tx" "within t w (snd c)" "release_last_save_point (traced srv) tx c = (r, tx', c')"
  shows "named_ok tx' \<and> within t w (snd c')"
proof -
  obtain o1 tx1 where p: "pop_savepoint_name tx = (o1, tx1)" by (metis prod.collapse)
  show ?thesis
  proof (cases o1)
    case None
    with p assms pop_none [of tx tx1] show ?thesis by (simp add: release_last_save_point_def)
  next
    case (Some name)
    obtain e c1 where e: "execute_simple (traced srv) tx1 (release_sql name) None c = (e, c1)" by (metis prod.collapse)
    show ?thesis
      using p pop_name_ok [OF assms(1), of name tx1] assms(2,3) Some
        simple_within [of name t w c "release_sql name" srv tx1 None]
      by (auto simp: release_last_save_point_def e split: outcome.splits)
  qed
qed

lemma rollback_within:
  assumes "named_ok tx" "within t w (snd c)" "rollback_to_save_point (traced srv) tx c = (r, tx', c')"
  shows "named_ok tx' \<and> within t w (snd c')"
proof -
  obtain o1 tx1 where p: "pop_savepoint_name tx = (o1, tx1)" by (metis prod.collapse)
  show ?thesis
  proof (cases o1)
    case None
    with p assms pop_none [of tx tx1] show ?thesis by (simp add: rollback_to_save_point_def)
  next
    case (Some name)
    obtain e c1 where e: "execute_simple (traced srv) tx1 (rollback_to_sql name) None c = (e, c1)" by (metis prod.collapse)
    obtain e2 c2 where e2: "execute_simple (traced srv) tx1 (release_sql name) None c1 = (e2, c2)" by (metis prod.collapse)
    have n: "validate_identifier name = Ok ()" "named_ok tx1" "named_ok (push_back name tx1)"
      using p pop_name_ok [OF assms(1), of name tx1] Some by simp_all
    have "within t w (snd c1)"
      using simple_within [OF n(1) assms(2), of "rollback_to_sql name" srv tx1 None] by (simp add: e)
    moreover from this have "within t w (snd c2)"
      using simple_within [OF n(1), of t w c1 "release_sql name" srv tx1 None] by (simp add: e2)
    ultimately show ?thesis
      using p n assms(3) Some by (auto simp: rollback_to_save_point_def e e2 split: outcome.splits)
  qed
qed

definition sends :: "string \<Rightarrow> bool \<Rightarrow> bool \<Rightarrow> pg_tx \<times> 's \<times> sent list \<Rightarrow> bool" where
  "sends t wr w st \<longleftrightarrow> sql (fst st) = sql_new t \<and> writeable (fst st) = wr \<and> named_ok (fst st) \<and>
     within t w (snd (snd st))"

lemma ctl_sends:
  assumes "CHR ''$'' \<notin> set t" "sends t wr w st" "\<And>op. k = COp op \<Longrightarrow> is_write op \<and> wr \<longrightarrow> w"
  shows "sends t wr w (snd (run_ctl h (traced srv) k st))"
proof -
  obtain tx c where st: "st = (tx, c)" by (metis prod.collapse)
  have b: "sql tx = sql_new t" "writeable tx = wr" "named_ok tx" "within t w (snd c)"
    using assms(2) by (simp_all add: st sends_def)
  show ?thesis
  proof (cases k)
    case CSave
    then show ?thesis
      using new_within [OF b(3,4), where srv = srv] savepoints_keep_sql(1) [of "traced srv" tx c] b
      by (cases "new_save_point (traced srv) tx c") (simp add: st wrap3_def sends_def)
  next
    case CRelease
    then show ?thesis
      using release_within [OF b(3,4), where srv = srv] savepoints_keep_sql(2) [of "traced srv" tx c] b
      by (cases "release_last_save_point (traced srv) tx c") (simp add: st wrap3_def sends_def)
  next
    case CRollback
    then show ?thesis
      using rollback_within [OF b(3,4), where srv = srv] savepoints_keep_sql(3) [of "traced srv" tx c] b
      by (cases "rollback_to_save_point (traced srv) tx c") (simp add: st wrap3_def sends_def)
  next
    case (COp op)
    then show ?thesis
      using run_op_within [OF b(1) assms(1) b(4), of op h srv] assms(3) [OF COp] b
      by (simp add: st sends_def case_prod_beta)
  qed
qed

lemma ctls_send:
  assumes "CHR ''$'' \<notin> set t" "sends t wr w st" "\<And>op. COp op \<in> set ks \<Longrightarrow> is_write op \<and> wr \<longrightarrow> w"
  shows "sends t wr w (snd (run_ctls h (traced srv) ks st))"
  using assms(2,3)
proof (induction ks arbitrary: st)
  case (Cons k ks)
  have "sends t wr w (snd (run_ctl h (traced srv) k st))"
    by (rule ctl_sends [OF assms(1) Cons.prems(1)]) (use Cons.prems(2) in auto)
  then have "sends t wr w (snd (run_ctls h (traced srv) ks (snd (run_ctl h (traced srv) k st))))"
    by (rule Cons.IH) (use Cons.prems(2) in auto)
  then show ?case by (simp add: case_prod_beta)
qed simp

text \<open>A run that sends three statements, for the witness.\<close>

lemma trace_length:
  "(let (rs, tx', s', log) = run_ctls rev (traced (ref_server ''kv'')) [COp (KSet [1] [2]), CSave, COp (KGet [1])]
      (tx0 True, ref_begin True [], []) in length log) = 3"
  by code_simp

subsection \<open>Every statement is well typed\<close>

text \<open>
  C13. Whatever calls are made on a transaction of a table with a valid name, and whatever the server
  answers, everything the server is sent before the end of the transaction is well typed: a query
  is a prepared text of this very table, with exactly one parameter for each of its placeholders
  and every parameter of its type; any other text is a savepoint statement whose name is a valid
  identifier; and a statement that changes data is sent only if the transaction is writeable and one
  of the calls is a write.
\<close>

theorem statements_well_typed:
  assumes "validate_identifier t = Ok ()" "sql tx = sql_new t" "savepoints tx = []"
    "run_ctls h (traced srv) ks (tx, s, []) = (rs, tx', s', log)"
  shows "list_all (sent_ok t) log \<and>
    (\<not> list_all (sent_read t) log \<longrightarrow> writeable tx \<and> (\<exists>op. COp op \<in> set ks \<and> is_write op))"
proof -
  define w where "w \<longleftrightarrow> writeable tx \<and> (\<exists>op. COp op \<in> set ks \<and> is_write op)"
  have "sends t (writeable tx) w (tx, s, [])" using assms(2,3) by (simp add: sends_def named_ok_def)
  then have "sends t (writeable tx) w (snd (run_ctls h (traced srv) ks (tx, s, [])))"
    using ctls_send [OF ident_no_dollar [OF assms(1)]] w_def by blast
  then have "within t w log" by (simp add: assms(4) sends_def)
  then show ?thesis by (auto simp: within_def list_all_iff w_def)
qed

lemma statements_well_typed_witness:
  "let (rs, tx', s', log) = run_ctls rev (traced (ref_server ''kv'')) [COp (KSet [1] [2]), CSave, COp (KGet [1])]
      (tx0 True, ref_begin True [], []) in
    list_all (sent_ok ''kv'') log \<and> length log = 3"
proof -
  let ?ks = "[COp (KSet [1] [2]), CSave, COp (KGet [1])]"
  obtain rs tx' s' log where run: "run_ctls rev (traced (ref_server ''kv'')) ?ks
      (tx0 True, ref_begin True [], []) = (rs, tx', s', log)" by (metis prod.collapse)
  show ?thesis
    using statements_well_typed [OF kv_valid _ _ run] trace_length
    by (simp only: run Let_def prod.case) simp
qed

end
