(* ===== verification/Tx_Dropped.thy ===== *)
theory Tx_Dropped
  imports Tx_Props
begin

section \<open>Savepoint calls whose future is dropped\<close>

text \<open>
  The savepoint calls of \<^verbatim>\<open>PgTransaction\<close> change the stack of names first and await the server
  after; a caller may drop the future in between (a timeout, a select).  This theory holds what the
  struct looks like then, and what that means for the calls that follow: a dropped release or
  rollback is harmless, a dropped \<^verbatim>\<open>new_save_point\<close> blocks every earlier savepoint.
\<close>

subsection \<open>The struct a dropped future leaves\<close>

text \<open>
  \<^verbatim>\<open>new_save_point\<close> dropped at its await: the name is on the stack.  \<^verbatim>\<open>release_last_save_point\<close> and
  \<^verbatim>\<open>rollback_to_save_point\<close> dropped at any of theirs: the name is off it.  In both cases no later
  line of the function runs.
\<close>

definition new_save_point_dropped :: "pg_tx \<Rightarrow> pg_tx" where
  "new_save_point_dropped tx = snd (push_savepoint_name tx)"

definition release_dropped :: "pg_tx \<Rightarrow> pg_tx" where
  "release_dropped tx = snd (pop_savepoint_name tx)"

definition rollback_dropped :: "pg_tx \<Rightarrow> pg_tx" where
  "rollback_dropped tx = snd (pop_savepoint_name tx)"

lemma new_dropped_fields [simp]:
  "conn (new_save_point_dropped tx) = conn tx" "sql (new_save_point_dropped tx) = sql tx"
  "writeable (new_save_point_dropped tx) = writeable tx" "savepoints (new_save_point_dropped tx) \<noteq> []"
  by (simp_all add: new_save_point_dropped_def push_savepoint_name_def Let_def)

subsection \<open>A name the server does not know\<close>

lemma pop_push_back:
  "savepoints tx \<noteq> [] \<Longrightarrow>
     pop_savepoint_name tx = (Some (last (savepoints tx)), tx\<lparr>savepoints := butlast (savepoints tx)\<rparr>)"
  by (simp add: pop_savepoint_name_def)

lemma push_back_popped:
  "savepoints tx \<noteq> [] \<Longrightarrow> push_back (last (savepoints tx)) (tx\<lparr>savepoints := butlast (savepoints tx)\<rparr>) = tx"
  by (simp add: push_back_def)

lemma from_save_unknown: "n \<notin> fst ` set sv \<Longrightarrow> from_save n sv = []"
  by (force simp: from_save_def dropWhile_eq_Nil_conv)

context pg_backend
begin

definition blocked :: "pg_tx \<Rightarrow> (string \<times> table) list \<Rightarrow> 's \<Rightarrow> bool" where
  "blocked tx sv s \<longleftrightarrow> pv_inv pv s \<and> pv_saves pv s = sv \<and> conn tx \<noteq> None \<and> sql tx = sql_new t \<and>
     savepoints tx \<noteq> [] \<and> last (savepoints tx) \<notin> fst ` set sv"

lemma unknown_refused:
  assumes "server_errors_only srv" "pv_inv pv s" "conn tx \<noteq> None" "n \<notin> fst ` set (pv_saves pv s)"
    "q = release_sql n \<or> q = rollback_to_sql n"
  obtains e s' where "execute_simple srv tx q None s = (Err e, s')" "pv_inv pv s'" "pv_saves pv s' = pv_saves pv s"
proof -
  obtain r s' where e: "execute_simple srv tx q None s = (r, s')" by (metis prod.collapse)
  have q: "savepoint_text q" using assms(5) by auto
  note c = execute_simple_cases [OF assms(2) q assms(1,3) e]
  have "r \<noteq> Ok ()"
    using c assms(5) release_ok [OF assms(2), of n "()" s'] rollback_to_ok [OF assms(2), of n "()" s']
      from_save_unknown [OF assms(4)] by auto
  then show thesis using that e c by (cases r) auto
qed

lemma blocked_step:
  assumes "server_errors_only srv" "blocked tx sv s" "k \<noteq> CSave"
  obtains r s' where "run_ctl h srv k (tx, s) = (r, tx, s')" "blocked tx sv s'"
    "k = CRelease \<or> k = CRollback \<longrightarrow> (\<exists>e. r = Err e)"
proof -
  have b: "pv_inv pv s" "pv_saves pv s = sv" "conn tx \<noteq> None" "sql tx = sql_new t" "savepoints tx \<noteq> []"
    "last (savepoints tx) \<notin> fst ` set (pv_saves pv s)"
    using assms(2) by (simp_all add: blocked_def)
  note pop = pop_push_back [OF b(5)] push_back_popped [OF b(5)]
  show thesis
  proof (cases k)
    case CRelease
    obtain e s' where e: "execute_simple srv tx (release_sql (last (savepoints tx))) None s = (Err e, s')"
      "pv_inv pv s'" "pv_saves pv s' = pv_saves pv s"
      by (rule unknown_refused [OF assms(1) b(1,3,6) disjI1 [OF refl]])
    with b that pop CRelease show thesis
      by (simp add: release_last_save_point_def wrap3_def blocked_def)
  next
    case CRollback
    obtain e s' where e: "execute_simple srv tx (rollback_to_sql (last (savepoints tx))) None s = (Err e, s')"
      "pv_inv pv s'" "pv_saves pv s' = pv_saves pv s"
      by (rule unknown_refused [OF assms(1) b(1,3,6) disjI2 [OF refl]])
    with b that pop CRollback show thesis
      by (simp add: rollback_to_save_point_def wrap3_def blocked_def)
  next
    case (COp op)
    have "pv_inv pv (snd (run_op h srv tx op s)) \<and> pv_saves pv (snd (run_op h srv tx op s)) = sv"
      using run_op_kept [OF saves_kept [OF assms(1), of sv] b(4), of s h op] b(1,2) by simp
    with b that COp show thesis by (simp add: blocked_def case_prod_beta)
  qed (use assms(3) in simp)
qed

lemma blocked_steps:
  assumes "server_errors_only srv" "blocked tx sv s" "CSave \<notin> set ks"
    "run_ctls h srv ks (tx, s) = (rs, tx', s')"
  shows "tx' = tx \<and> blocked tx sv s' \<and>
    list_all2 (\<lambda>k r. k = CRelease \<or> k = CRollback \<longrightarrow> (\<exists>e. r = Err e)) ks rs"
  using assms(2-4)
proof (induction ks arbitrary: s rs)
  case (Cons k ks)
  obtain r s1 where 1: "run_ctl h srv k (tx, s) = (r, tx, s1)" "blocked tx sv s1"
    "k = CRelease \<or> k = CRollback \<longrightarrow> (\<exists>e. r = Err e)"
    using blocked_step [OF assms(1) Cons.prems(1), of k h] Cons.prems(2) by auto
  obtain rs1 where "run_ctls h srv ks (tx, s1) = (rs1, tx', s')" "rs = r # rs1"
    using Cons.prems(3) 1(1) by (auto split: prod.splits)
  with Cons.IH [OF 1(2)] Cons.prems(2) 1(3) show ?case by simp
qed simp

text \<open>After a dropped release or rollback the server has one savepoint more than the struct.\<close>

lemma rollback_past:
  assumes "pv_inv pv s" "pv_healthy pv s" "conn tx \<noteq> None" "sql tx = sql_new t"
    "writeable tx \<longrightarrow> pv_rw pv s" "agree pv tx s" "pv_saves pv s = (m, tm) # (n, tb) # sv" "m \<noteq> n"
  obtains tx' s' where "rollback_to_save_point srv (snd (pop_savepoint_name tx)) s = (Ok (), tx', s')"
    "pv_table pv s' = tb" "pv_saves pv s' = sv" "ready pv t tx' s'" "agree pv tx' s'"
proof -
  define tx1 where "tx1 = tx\<lparr>savepoints := rev (map fst ((n, tb) # sv))\<rparr>"
  have tx1: "snd (pop_savepoint_name tx) = tx1"
    using agree_pop [OF assms(6)] by (simp add: assms(7) tx1_def)
  have n: "n \<in> fst ` set (pv_saves pv s)" by (simp add: assms(7))
  obtain s1 where s1: "srv_raw srv (rollback_to_sql n) s = (Inr (), s1)" "pv_healthy pv s1"
    using rollback_to_live [OF assms(1) disjI1 [OF assms(2)] n] by blast
  have same: "same_tx pv s s1" by (rule raw_frame [OF assms(1) savepoint_texts(3) s1(1)])
  have f: "from_save n (pv_saves pv s) = (n, tb) # sv" using assms(7,8) by (simp add: from_save_def)
  have 1: "ready pv t tx1 s1" "pv_table pv s1 = tb" "pv_saves pv s1 = (n, tb) # sv"
    using rollback_to_ok [OF assms(1) s1(1)] same s1(2) assms(3-5) f
    by (auto simp: ready_def same_tx_def tx1_def)
  have a: "agree pv tx1 s1" by (simp add: agree_def tx1_def 1(3))
  obtain s' where s': "execute_simple srv tx1 (release_sql n) None s1 = (Ok (), s')"
    "ready pv t tx1 s'" "pv_durable pv s' = pv_durable pv s1" "pv_table pv s' = pv_table pv s1"
    "pv_saves pv s' = sv"
    by (rule release_live_cons [OF 1(1,3)])
  have "execute_simple srv tx1 (rollback_to_sql n) None s = (Ok (), s1)"
    using assms(3) s1(1) by (auto simp: execute_simple_def tx1_def)
  then have "rollback_to_save_point srv tx1 s = (Ok (), tx1\<lparr>savepoints := rev (map fst sv)\<rparr>, s')"
    using agree_pop [OF a] s'(1) by (simp add: rollback_to_save_point_def 1(3))
  then show thesis
    by (rule that [unfolded tx1]) (use 1 s' in simp_all)
qed

end

subsection \<open>What a dropped call does to the ones that follow\<close>



text \<open>
  A dropped release is harmless: on a healthy session the rollback that follows restores the table
  of the enclosing savepoint, and the two stacks agree again.
\<close>

lemma dropped_release_harmless:
  assumes "pg_backend srv t pv" "pv_inv pv s" "pv_healthy pv s" "conn tx \<noteq> None" "sql tx = sql_new t"
    "writeable tx \<longrightarrow> pv_rw pv s" "agree pv tx s" "pv_saves pv s = (m, tm) # (n, tb) # sv" "m \<noteq> n"
    "tx1 = release_dropped tx \<or> tx1 = rollback_dropped tx"
  shows "\<exists>tx' s'. rollback_to_save_point srv tx1 s = (Ok (), tx', s') \<and> pv_table pv s' = tb \<and>
    pv_saves pv s' = sv \<and> ready pv t tx' s' \<and> agree pv tx' s'"
proof -
  have "tx1 = snd (pop_savepoint_name tx)"
    using assms(10) by (auto simp: release_dropped_def rollback_dropped_def)
  then show ?thesis using pg_backend.rollback_past [OF assms(1-9)] by metis
qed

end
