(* ===== verification/Store_System.thy ===== *)
theory Store_System
  imports Store_Props Ptx_Props
begin

section \<open>Many transactions on one store\<close>

text \<open>
  A store while SurrealDB uses it: any number of \<^verbatim>\<open>begin\<close> calls under way, any number of open
  transactions, a call of \<^verbatim>\<open>shutdown\<close>, health checks and vacuums, interleaved in any order.  A step
  of the system is what happens between two points where a task may be suspended: one look at the
  barrier flag, one attempt of \<^verbatim>\<open>begin\<close> after it, one call on a transaction (theory \<open>Pg_Tx_Linear\<close>
  justifies taking it at once), one poll of the grace loop.  The transactions share the atomic
  counters of the store: \<open>attach\<close> gives a wrapper their present values, \<open>publish\<close> stores what it
  has made of them.
\<close>

subsection \<open>The shared counters\<close>

definition attach :: "'w shared_scheme \<Rightarrow> pg_ptx \<Rightarrow> pg_ptx" where
  "attach s p = p\<lparr>tx_committed := sh_committed s, tx_rolled_back := sh_rolled_back s,
     left_active := sh_active s, inner := map_option (\<lambda>tx. tx\<lparr>tx_active := sh_active s\<rparr>) (inner p)\<rparr>"

definition publish :: "pg_ptx \<Rightarrow> 'w shared_scheme \<Rightarrow> 'w shared_scheme" where
  "publish p s = s\<lparr>sh_committed := tx_committed p, sh_rolled_back := tx_rolled_back p,
     sh_active := active_count p\<rparr>"

subsection \<open>Tasks and steps\<close>

text \<open>
  A \<^verbatim>\<open>begin\<close> under way: its attempt, whether it has seen a zombie pool, and whether it has passed the
  check of the flag in this attempt.
\<close>

record begin_task =
  bt_write :: bool
  bt_attempt :: nat
  bt_zombie :: bool
  bt_checked :: bool

definition new_task :: "bool \<Rightarrow> begin_task" where
  "new_task w = \<lparr>bt_write = w, bt_attempt = 1, bt_zombie = False, bt_checked = False\<rparr>"

definition next_task :: "bool \<Rightarrow> begin_task \<Rightarrow> begin_task" where
  "next_task z t = t\<lparr>bt_attempt := Suc (bt_attempt t), bt_zombie := z, bt_checked := False\<rparr>"

definition begin_try ::
  "('c, 'w shared_scheme) pg_driver \<Rightarrow> pg_store \<Rightarrow> begin_task \<Rightarrow> 'w shared_scheme \<Rightarrow>
     pg_tx result attempt \<times> bool \<times> 'w shared_scheme" where
  "begin_try drv st t s =
     (case st_mode st of
        PooledMode \<Rightarrow> begin_pooled_try drv st (bt_write t) (bt_attempt t) (bt_zombie t, s)
      | DirectMode \<Rightarrow> (case begin_direct_try drv st (bt_write t) (bt_attempt t) s of (a, s') \<Rightarrow> (a, bt_zombie t, s')))"

text \<open>The calls that do not touch the counters: health checks, vacuums and metrics.\<close>

datatype upkeep = Health | Vacuum | Metric string

fun run_upkeep ::
  "('c, 'w shared_scheme) pg_driver \<Rightarrow> pg_store \<Rightarrow> upkeep \<Rightarrow> 'w shared_scheme \<Rightarrow> 'w shared_scheme" where
  "run_upkeep drv st Health s = snd (health_check drv st s)"
| "run_upkeep drv st Vacuum s = snd (vacuum drv st s)"
| "run_upkeep drv st (Metric m) s = snd (collect_u64_metric drv st m s)"

text \<open>How far a call of \<^verbatim>\<open>shutdown\<close> has come.\<close>

datatype closing = Running | Flagged | Joined | Grace duration | Drained | TimedOut | PoolClosed

text \<open>
  A transaction that has been dropped leaves a hole, so that the length of the list is the number of
  transactions ever opened.
\<close>

record ('w, 'x) system =
  sy_shared :: "'w shared_scheme"
  sy_begins :: "begin_task list"
  sy_txs :: "(pg_ptx \<times> 'x) option list"
  sy_closing :: closing

definition without_nth :: "nat \<Rightarrow> 'a list \<Rightarrow> 'a list" where
  "without_nth i xs = take i xs @ drop (Suc i) xs"

inductive sys_step ::
  "('c, 'w shared_scheme) pg_driver \<Rightarrow> pg_store \<Rightarrow> 'x pg_server \<Rightarrow> ('w, 'x) system \<Rightarrow> ('w, 'x) system \<Rightarrow> bool"
  for drv :: "('c, 'w shared_scheme) pg_driver" and st :: pg_store and srv :: "'x pg_server"
where
  asked: "\<not> sh_shutdown (sy_shared S) \<Longrightarrow>
    sys_step drv st srv S (S\<lparr>sy_begins := sy_begins S @ [new_task w]\<rparr>)"
| checked: "\<lbrakk>i < length (sy_begins S); t = sy_begins S ! i; \<not> bt_checked t; \<not> sh_shutdown (sy_shared S)\<rbrakk> \<Longrightarrow>
    sys_step drv st srv S (S\<lparr>sy_begins := (sy_begins S)[i := t\<lparr>bt_checked := True\<rparr>]\<rparr>)"
| refused: "\<lbrakk>i < length (sy_begins S); t = sy_begins S ! i; \<not> bt_checked t; sh_shutdown (sy_shared S)\<rbrakk> \<Longrightarrow>
    sys_step drv st srv S (S\<lparr>sy_begins := without_nth i (sy_begins S)\<rparr>)"
| retried: "\<lbrakk>i < length (sy_begins S); t = sy_begins S ! i; bt_checked t;
      begin_try drv st t (sy_shared S) = (Again, z, s')\<rbrakk> \<Longrightarrow>
    sys_step drv st srv S (S\<lparr>sy_shared := s', sy_begins := (sy_begins S)[i := next_task z t]\<rparr>)"
| opened: "\<lbrakk>i < length (sy_begins S); t = sy_begins S ! i; bt_checked t; length (sy_txs S) < 2 ^ 64 - 1;
      begin_try drv st t (sy_shared S) = (Done (Ok tx), z, s');
      p = ptx_new tx (sh_committed s') (sh_rolled_back s')\<rbrakk> \<Longrightarrow>
    sys_step drv st srv S
      (S\<lparr>sy_shared := s', sy_begins := without_nth i (sy_begins S), sy_txs := sy_txs S @ [Some (p, x)]\<rparr>)"
| failed: "\<lbrakk>i < length (sy_begins S); t = sy_begins S ! i; bt_checked t;
      begin_try drv st t (sy_shared S) = (Done (Err e), z, s')\<rbrakk> \<Longrightarrow>
    sys_step drv st srv S (S\<lparr>sy_shared := s', sy_begins := without_nth i (sy_begins S)\<rparr>)"
| abandoned: "i < length (sy_begins S) \<Longrightarrow>
    sys_step drv st srv S (S\<lparr>sy_begins := without_nth i (sy_begins S)\<rparr>)"
| used: "\<lbrakk>i < length (sy_txs S); sy_txs S ! i = Some (p, x);
      run_event srv e (attach (sy_shared S) p, x) = (p', x')\<rbrakk> \<Longrightarrow>
    sys_step drv st srv S
      (S\<lparr>sy_shared := publish p' (sy_shared S), sy_txs := (sy_txs S)[i := Some (p', x')]\<rparr>)"
| dropped: "\<lbrakk>i < length (sy_txs S); sy_txs S ! i = Some (p, x)\<rbrakk> \<Longrightarrow>
    sys_step drv st srv S
      (S\<lparr>sy_shared := publish (ptx_drop (attach (sy_shared S) p)) (sy_shared S), sy_txs := (sy_txs S)[i := None]\<rparr>)"
| flagged: "sy_closing S = Running \<Longrightarrow>
    sys_step drv st srv S
      (S\<lparr>sy_shared := cancel_heartbeat st ((sy_shared S)\<lparr>sh_shutdown := True\<rparr>), sy_closing := Flagged\<rparr>)"
| joined: "sy_closing S = Flagged \<Longrightarrow>
    sys_step drv st srv S (S\<lparr>sy_shared := await_heartbeat drv (sy_shared S), sy_closing := Joined\<rparr>)"
| pool_closed: "\<lbrakk>sy_closing S = Joined; st_mode st = PooledMode\<rbrakk> \<Longrightarrow>
    sys_step drv st srv S
      (S\<lparr>sy_shared := drv_pool_close drv POOL_CLOSE_TIMEOUT (sy_shared S), sy_closing := PoolClosed\<rparr>)"
| idle: "\<lbrakk>sy_closing S = Joined; st_mode st = DirectMode; sh_active (sy_shared S) = 0\<rbrakk> \<Longrightarrow>
    sys_step drv st srv S (S\<lparr>sy_closing := Drained\<rparr>)"
| waits: "\<lbrakk>sy_closing S = Joined; st_mode st = DirectMode; 0 < sh_active (sy_shared S)\<rbrakk> \<Longrightarrow>
    sys_step drv st srv S (S\<lparr>sy_closing := Grace (drv_now drv (sy_shared S) + DIRECT_SHUTDOWN_GRACE)\<rparr>)"
| drained: "\<lbrakk>sy_closing S = Grace d; sh_active (sy_shared S) = 0\<rbrakk> \<Longrightarrow>
    sys_step drv st srv S (S\<lparr>sy_closing := Drained\<rparr>)"
| timed_out: "\<lbrakk>sy_closing S = Grace d; sh_active (sy_shared S) \<noteq> 0; d \<le> drv_now drv (sy_shared S)\<rbrakk> \<Longrightarrow>
    sys_step drv st srv S (S\<lparr>sy_closing := TimedOut\<rparr>)"
| polled: "\<lbrakk>sy_closing S = Grace d; sh_active (sy_shared S) \<noteq> 0; \<not> d \<le> drv_now drv (sy_shared S)\<rbrakk> \<Longrightarrow>
    sys_step drv st srv S (S\<lparr>sy_shared := drv_sleep drv DIRECT_SHUTDOWN_POLL (sy_shared S)\<rparr>)"
| upkeep: "sys_step drv st srv S (S\<lparr>sy_shared := run_upkeep drv st u (sy_shared S)\<rparr>)"


subsection \<open>A driver that minds its own business\<close>

text \<open>
  The other tasks are the other steps of the system; a call of the driver itself leaves the atomics of
  the store alone.
\<close>

definition same_shared :: "'w shared_scheme \<Rightarrow> 'w shared_scheme \<Rightarrow> bool" where
  "same_shared s s' \<longleftrightarrow> shared.truncate s' = shared.truncate s"

definition quiet :: "('c, 'w shared_scheme) pg_driver \<Rightarrow> bool" where
  "quiet drv \<longleftrightarrow> (\<forall>s. stays (same_shared s) drv)"

lemma same_shared_refl [simp]: "same_shared s s"
  by (simp add: same_shared_def)

lemma same_sharedD:
  assumes "same_shared s s'"
  shows "sh_shutdown s' = sh_shutdown s" "sh_started s' = sh_started s" "sh_committed s' = sh_committed s"
    "sh_rolled_back s' = sh_rolled_back s" "sh_active s' = sh_active s"
  using assms by (simp_all add: same_shared_def shared.truncate_def)

lemma quiet_stays:
  assumes "quiet drv" "\<And>x y. P x \<Longrightarrow> same_shared x y \<Longrightarrow> P y"
  shows "stays P drv"
  unfolding stays_def
proof (intro allI impI)
  fix s assume "P s"
  moreover have "stays (same_shared s) drv" "same_shared s s" using assms(1) by (simp_all add: quiet_def)
  ultimately show "(\<forall>opts. P (snd (drv_pool_connect drv opts s))) \<and> (\<forall>q. P (snd (drv_pool_exec drv q s))) \<and>
     (\<forall>q t. P (snd (drv_pool_count drv q t s))) \<and> (\<forall>q. P (snd (drv_pool_begin drv q s))) \<and>
     (\<forall>d. P (drv_pool_close drv d s)) \<and> (\<forall>d. P (snd (drv_connect drv d s))) \<and>
     (\<forall>c q. P (snd (drv_exec drv c q s))) \<and> (\<forall>d c q. P (snd (drv_exec_timeout drv d c q s))) \<and>
     (\<forall>c q t. P (snd (drv_count drv c q t s))) \<and> (\<forall>c. P (snd (drv_ping drv c s))) \<and>
     (\<forall>d. P (drv_sleep drv d s)) \<and> (\<forall>d. P (drv_join drv d s))"
    unfolding stays_def by (meson assms(2))
qed

text \<open>One attempt of a \<^verbatim>\<open>begin\<close>, a shutdown step and the upkeep, seen from the counters.\<close>

lemma begin_try_tried:
  assumes "stays P drv" "P s" "begin_try drv st t s = (a, z, s')"
  shows "tried P st (bt_write t) a s'"
proof (cases "st_mode st")
  case PooledMode
  then show ?thesis using pooled_try_stays [OF assms(1) PooledMode assms(2)] assms(3) by (simp add: begin_try_def)
next
  case DirectMode
  then show ?thesis
    using direct_try_stays [OF assms(1) DirectMode assms(2)] assms(3)
    by (simp add: begin_try_def split: prod.splits)
qed

lemma health_attempt_stays:
  assumes "stays P drv" "P s"
  shows "P (snd (health_attempt drv st n s))"
proof -
  note st = staysD [OF assms(1)]
  obtain r s1 where 1: "connect_direct drv (st_connect_timeout st) s = (r, s1)"
    by (cases "connect_direct drv (st_connect_timeout st) s")
  then have s1: "P s1" using connect_direct_stays [OF assms, of "st_connect_timeout st"] by simp
  show ?thesis
  proof (cases r)
    case (Ok k)
    obtain q s2 where 2: "drv_exec drv k ''SELECT 1'' s1 = (q, s2)" by (cases "drv_exec drv k ''SELECT 1'' s1")
    then have "P s2" using st(4) [OF s1, of k "''SELECT 1''"] by simp
    then show ?thesis using 1 2 Ok st(2) by (simp add: health_attempt_def Let_def split: sum.split)
  qed (use 1 s1 st(2) in \<open>simp_all add: health_attempt_def\<close>)
qed

lemma health_loop_stays:
  assumes "stays P drv" "P s"
  shows "P (snd (health_loop drv st 1 s))"
proof -
  have "\<exists>m \<le> Suc 1. 1 \<le> m \<and> P (snd (health_loop drv st 1 s))"
  proof (rule health.loop_invariant [where P = P and Q = "\<lambda>m r x. P x"])
    have "P y" if "P x" "health_attempt drv st n x = (r, y)" for n x r y
      using health_attempt_stays [OF assms(1) that(1), of st n] that(2) by simp
    then show "\<And>n x y. P x \<Longrightarrow> health_attempt drv st n x = (Again, y) \<Longrightarrow> P y"
      and "\<And>m x r y. 1 \<le> m \<Longrightarrow> P x \<Longrightarrow> health_attempt drv st m x = (Done r, y) \<Longrightarrow> P y" by blast+
  qed (use assms(2) in simp_all)
  then show ?thesis by blast
qed

lemma sqlx_result_snd [simp]: "snd (sqlx_result p) = snd p"
  by (simp add: sqlx_result_def split: prod.split sum.split)

lemma upkeep_stays:
  assumes "stays P drv" "P s" "\<And>x b. P x \<Longrightarrow> P (x\<lparr>sh_warned := b\<rparr>)"
  shows "P (run_upkeep drv st u s)"
proof (cases u)
  case Health
  then show ?thesis
    using health_loop_stays [OF assms(1,2), of st] assms(1,2)
    by (simp add: health_check_def stays_def split: conn_mode.split)
next
  case Vacuum
  obtain r s1 where 1: "connect_direct drv (st_connect_timeout st) s = (r, s1)"
    by (cases "connect_direct drv (st_connect_timeout st) s")
  then have "P s1" using connect_direct_stays [OF assms(1,2), of "st_connect_timeout st"] by simp
  then show ?thesis
    using Vacuum assms(1,2) 1 by (simp add: vacuum_def stays_def then_run_def split: conn_mode.split outcome.split)
next
  case (Metric m)
  then show ?thesis
    using assms(2,3)
    by (auto simp: collect_u64_metric_def check_pool_utilization_def tx_metrics_def Let_def case_prod_beta)
qed

subsection \<open>The books of the store\<close>

text \<open>A transaction in the list is open, with a connection, or its wrapper is finished and empty.\<close>

definition settled :: "pg_ptx \<Rightarrow> bool" where
  "settled p \<longleftrightarrow> (if fin p then inner p = None else \<exists>tx. inner p = Some tx \<and> conn tx \<noteq> None)"

definition open_tx :: "(pg_ptx \<times> 'x) option \<Rightarrow> bool" where
  "open_tx e = (case e of None \<Rightarrow> False | Some (p, x) \<Rightarrow> \<not> fin p)"

definition open_txs :: "('w, 'x) system \<Rightarrow> nat" where
  "open_txs S = length (filter open_tx (sy_txs S))"

definition books_ok :: "('w, 'x) system \<Rightarrow> bool" where
  "books_ok S \<longleftrightarrow>
     sh_started (sy_shared S) = sh_committed (sy_shared S) + sh_rolled_back (sy_shared S) + of_nat (open_txs S) \<and>
     sh_active (sy_shared S) = of_nat (open_txs S) \<and> length (sy_txs S) < 2 ^ 64 \<and>
     (\<forall>p x. Some (p, x) \<in> set (sy_txs S) \<longrightarrow> settled p)"

lemma attach_simps [simp]:
  "fin (attach s p) = fin p" "ended (attach s p) = sh_committed s + sh_rolled_back s"
  "active_count (attach s p) = sh_active s" "settled (attach s p) = settled p"
  by (auto simp: attach_def ended_def active_count_def settled_def split: option.split)

lemma publish_simps [simp]:
  "sh_started (publish p s) = sh_started s" "sh_active (publish p s) = active_count p"
  "sh_shutdown (publish p s) = sh_shutdown s"
  "sh_committed (publish p s) + sh_rolled_back (publish p s) = ended p"
  by (simp_all add: publish_def ended_def)

lemma settled_in_books:
  assumes "settled p"
  shows "in_books (if fin p then ended p - 1 else ended p) (if fin p then active_count p + 1 else active_count p) p"
  using assms by (auto simp: settled_def in_books_def split: if_splits)

lemma event_fin: "fin (fst c) \<Longrightarrow> fin (fst (run_event srv e c))"
  by (cases c; cases e) (simp_all add: ptx_call_def case_prod_beta run_closer_fin ptx_new_save_point_def
      ptx_release_last_save_point_def ptx_rollback_to_save_point_def ptx_savepoint_def ptx_lock_def)

text \<open>What one call, and the drop, does to the counters of the store.\<close>

lemma event_accounts:
  assumes "settled p" "run_event srv e (attach s p, x) = (p', x')"
  shows "settled p'" "ended p' = sh_committed s + sh_rolled_back s + (if fin p' \<and> \<not> fin p then 1 else 0)"
    "active_count p' = sh_active s - (if fin p' \<and> \<not> fin p then 1 else 0)" "fin p \<longrightarrow> fin p'"
proof -
  have 1: "settled (attach s p)" using assms(1) by simp
  have f: "fin p \<longrightarrow> fin p'" using event_fin [of "(attach s p, x)" srv e] assms(2) by simp
  have b: "in_books (if fin p then ended (attach s p) - 1 else ended (attach s p))
      (if fin p then active_count (attach s p) + 1 else active_count (attach s p)) p'"
    using event_books [of _ _ "(attach s p, x)" srv e] settled_in_books [OF 1] assms(2) by simp
  show "settled p'" using b by (auto simp: in_books_def settled_def)
  show "ended p' = sh_committed s + sh_rolled_back s + (if fin p' \<and> \<not> fin p then 1 else 0)"
    "active_count p' = sh_active s - (if fin p' \<and> \<not> fin p then 1 else 0)"
    using b f by (auto simp: in_books_def)
  show "fin p \<longrightarrow> fin p'" by (rule f)
qed

lemma drop_accounts:
  assumes "settled p"
  shows "ended (ptx_drop (attach s p)) = sh_committed s + sh_rolled_back s + (if fin p then 0 else 1)"
    "active_count (ptx_drop (attach s p)) = sh_active s - (if fin p then 0 else 1)"
proof -
  have "settled (attach s p)" using assms by simp
  from drop_books [OF settled_in_books [OF this]]
  show "ended (ptx_drop (attach s p)) = sh_committed s + sh_rolled_back s + (if fin p then 0 else 1)"
    "active_count (ptx_drop (attach s p)) = sh_active s - (if fin p then 0 else 1)"
    by (simp_all split: if_splits)
qed

text \<open>How many elements of a list satisfy a predicate after one is replaced.\<close>

lemma length_filter_update:
  assumes "i < length xs"
  shows "length (filter P (xs[i := y])) + (if P (xs ! i) then 1 else 0) =
    length (filter P xs) + (if P y then 1 else 0)"
proof -
  have "filter P xs = filter P (take i xs) @ (if P (xs ! i) then [xs ! i] else []) @ filter P (drop (Suc i) xs)"
    by (subst id_take_nth_drop [OF assms]) simp
  then show ?thesis using assms by (simp add: upd_conv_take_nth_drop)
qed

lemma filter_update_of_nat:
  assumes "i < length xs"
  shows "(of_nat (length (filter P (xs[i := y]))) :: u64) =
    of_nat (length (filter P xs)) + (if P y then 1 else 0) - (if P (xs ! i) then 1 else 0)"
  using arg_cong [OF length_filter_update [OF assms, of P y], of "of_nat :: nat \<Rightarrow> u64"]
  by (simp add: eq_diff_eq split: if_splits)

definition same_counters :: "'w shared_scheme \<Rightarrow> 'w shared_scheme \<Rightarrow> bool" where
  "same_counters s s' \<longleftrightarrow> sh_started s' = sh_started s \<and> sh_active s' = sh_active s \<and>
     sh_committed s' = sh_committed s \<and> sh_rolled_back s' = sh_rolled_back s"

lemma same_counters_refl [simp]: "same_counters s s"
  by (simp add: same_counters_def)

lemma quiet_counters: "quiet drv \<Longrightarrow> stays (same_counters s) drv"
  by (erule quiet_stays) (auto simp: same_counters_def dest: same_sharedD)

lemma books_same_counters:
  "\<lbrakk>books_ok S; same_counters (sy_shared S) (sy_shared S'); sy_txs S' = sy_txs S\<rbrakk> \<Longrightarrow> books_ok S'"
  by (simp add: books_ok_def open_txs_def same_counters_def)

lemma cancel_counters [simp]:
  "same_counters s (cancel_heartbeat st (s\<lparr>sh_shutdown := True\<rparr>))"
  by (simp add: same_counters_def cancel_heartbeat_def)

lemma await_stays:
  "\<lbrakk>stays P drv; P s; \<And>x b. P x \<Longrightarrow> P (x\<lparr>sh_hb_handle := b\<rparr>)\<rbrakk> \<Longrightarrow> P (await_heartbeat drv s)"
  using staysD(7) [of P drv "s\<lparr>sh_hb_handle := False\<rparr>"] by (simp add: await_heartbeat_def)

lemma fresh_settled: "fresh_tx st w tx \<Longrightarrow> settled (ptx_new tx c r)"
  by (auto simp: settled_def fresh_tx_def ptx_new_def)

lemma used_books:
  assumes "books_ok S" "i < length (sy_txs S)" "sy_txs S ! i = Some (p, x)"
    "run_event srv e (attach (sy_shared S) p, x) = (p', x')"
  shows "books_ok (S\<lparr>sy_shared := publish p' (sy_shared S), sy_txs := (sy_txs S)[i := Some (p', x')]\<rparr>)"
proof -
  have p: "settled p" using assms(1-3) nth_mem [OF assms(2)] by (auto simp: books_ok_def)
  note acc = event_accounts [OF p assms(4)]
  show ?thesis
    using assms(1,2) acc filter_update_of_nat [OF assms(2), of open_tx "Some (p', x')"]
    by (auto simp: books_ok_def open_txs_def assms(3) open_tx_def in_set_conv_nth nth_list_update
        split: if_splits)
qed

lemma dropped_books:
  assumes "books_ok S" "i < length (sy_txs S)" "sy_txs S ! i = Some (p, x)"
  shows "books_ok (S\<lparr>sy_shared := publish (ptx_drop (attach (sy_shared S) p)) (sy_shared S),
    sy_txs := (sy_txs S)[i := None]\<rparr>)"
proof -
  have p: "settled p" using assms nth_mem [OF assms(2)] by (auto simp: books_ok_def)
  show ?thesis
    using assms(1,2) drop_accounts [OF p, of "sy_shared S"] filter_update_of_nat [OF assms(2), of open_tx None]
    by (auto simp: books_ok_def open_txs_def assms(3) open_tx_def in_set_conv_nth nth_list_update
        split: if_splits)
qed

lemma opened_books:
  assumes "books_ok S" "quiet drv" "length (sy_txs S) < 2 ^ 64 - 1"
    "begin_try drv st t (sy_shared S) = (Done (Ok tx), z, s')"
  shows "books_ok (S\<lparr>sy_shared := s', sy_begins := bs,
    sy_txs := sy_txs S @ [Some (ptx_new tx (sh_committed s') (sh_rolled_back s'), x)]\<rparr>)"
proof -
  have "tried (same_counters (sy_shared S)) st (bt_write t) (Done (Ok tx)) s'"
    by (rule begin_try_tried [OF quiet_counters [OF assms(2)] _ assms(4)]) simp
  then obtain s1 where s1: "same_counters (sy_shared S) s1" "s' = count_begin s1"
    and tx: "fresh_tx st (bt_write t) tx" by (auto simp: tried_def)
  have p: "settled (ptx_new tx c r)" for c r using tx by (rule fresh_settled)
  show ?thesis
    using assms(1,3) s1 p
    by (auto simp: books_ok_def open_txs_def open_tx_def ptx_new_def same_counters_def count_begin_def)
qed

lemma step_books:
  assumes "sys_step drv st srv S S'" "quiet drv" "books_ok S"
  shows "books_ok S'"
  using assms(1)
proof cases
  case (retried i t z s')
  have "tried (same_counters (sy_shared S)) st (bt_write t) Again s'"
    by (rule begin_try_tried [OF quiet_counters [OF assms(2)] _ retried(5)]) simp
  then show ?thesis
    using books_same_counters [OF assms(3), of S'] retried(1) by (simp add: tried_def)
next
  case (failed i t e z s')
  have "tried (same_counters (sy_shared S)) st (bt_write t) (Done (Err e)) s'"
    by (rule begin_try_tried [OF quiet_counters [OF assms(2)] _ failed(5)]) simp
  then show ?thesis
    using books_same_counters [OF assms(3), of S'] failed(1) by (simp add: tried_def)
next
  case (opened i t tx z s' p x)
  then show ?thesis using opened_books [OF assms(3,2)] by simp
next
  case (used i p x e p' x')
  then show ?thesis using used_books [OF assms(3)] by simp
next
  case (dropped i p x)
  then show ?thesis using dropped_books [OF assms(3)] by simp
next
  case joined
  have "same_counters (sy_shared S) (await_heartbeat drv (sy_shared S))"
    by (rule await_stays [OF quiet_counters [OF assms(2)]]) (simp_all add: same_counters_def)
  then show ?thesis using books_same_counters [OF assms(3), of S'] joined by simp
next
  case pool_closed
  then show ?thesis
    using books_same_counters [OF assms(3), of S'] staysD(6) [OF quiet_counters [OF assms(2)]] by simp
next
  case (polled d)
  then show ?thesis
    using books_same_counters [OF assms(3), of S'] staysD(2) [OF quiet_counters [OF assms(2)]] by simp
next
  case (upkeep u)
  have "same_counters (sy_shared S) (run_upkeep drv st u (sy_shared S))"
    by (rule upkeep_stays [OF quiet_counters [OF assms(2)]]) (simp_all add: same_counters_def)
  then show ?thesis using books_same_counters [OF assms(3), of S'] upkeep by simp
qed (use books_same_counters [OF assms(3), of S'] in simp_all)

subsection \<open>The barrier\<close>

text \<open>How many calls of \<^verbatim>\<open>begin\<close> have passed the check of the flag and may still succeed.\<close>

definition in_flight :: "('w, 'x) system \<Rightarrow> nat" where
  "in_flight S = length (filter bt_checked (sy_begins S))"

definition flag_ok :: "('w, 'x) system \<Rightarrow> bool" where
  "flag_ok S \<longleftrightarrow> (sy_closing S \<noteq> Running \<longrightarrow> sh_shutdown (sy_shared S))"

lemma length_filter_without:
  assumes "i < length xs"
  shows "length (filter P (without_nth i xs)) = length (filter P xs) - (if P (xs ! i) then 1 else 0)"
proof -
  have "filter P xs = filter P (take i xs) @ (if P (xs ! i) then [xs ! i] else []) @ filter P (drop (Suc i) xs)"
    by (subst id_take_nth_drop [OF assms]) simp
  then show ?thesis by (simp add: without_nth_def)
qed

lemma filter_pos: "\<lbrakk>i < length xs; P (xs ! i)\<rbrakk> \<Longrightarrow> 0 < length (filter P xs)"
  by (metis filter_empty_conv length_greater_0_conv nth_mem)

lemma quiet_shutdown: "quiet drv \<Longrightarrow> stays sh_shutdown drv"
  by (erule quiet_stays) (simp add: same_sharedD)

lemma publish_shutdown: "sh_shutdown (publish p s) = sh_shutdown s"
  by simp

lemma tried_shutdown: "tried sh_shutdown st w a s \<Longrightarrow> sh_shutdown s"
  by (auto simp: tried_def count_begin_def split: attempt.splits outcome.splits)

text \<open>The flag is never taken back.\<close>

lemma step_shutdown:
  assumes "sys_step drv st srv S S'" "quiet drv" "sh_shutdown (sy_shared S)"
  shows "sh_shutdown (sy_shared S')"
  using assms(1)
proof cases
  case (retried i t z s')
  then show ?thesis
    using tried_shutdown begin_try_tried [OF quiet_shutdown [OF assms(2)] assms(3) retried(5)] by simp
next
  case (failed i t e z s')
  then show ?thesis
    using tried_shutdown begin_try_tried [OF quiet_shutdown [OF assms(2)] assms(3) failed(5)] by simp
next
  case (opened i t tx z s' p x)
  then show ?thesis
    using tried_shutdown begin_try_tried [OF quiet_shutdown [OF assms(2)] assms(3) opened(6)] by simp
next
  case joined
  then show ?thesis using await_stays [OF quiet_shutdown [OF assms(2)] assms(3)] by simp
next
  case pool_closed
  then show ?thesis using staysD(6) [OF quiet_shutdown [OF assms(2)] assms(3)] by simp
next
  case (polled d)
  then show ?thesis using staysD(2) [OF quiet_shutdown [OF assms(2)] assms(3)] by simp
next
  case (upkeep u)
  then show ?thesis using upkeep_stays [OF quiet_shutdown [OF assms(2)] assms(3), of st u] by simp
qed (use assms(3) in \<open>simp_all add: cancel_heartbeat_def\<close>)

lemma step_flag_ok:
  assumes "sys_step drv st srv S S'" "quiet drv" "flag_ok S"
  shows "flag_ok S'"
proof (cases "sh_shutdown (sy_shared S)")
  case True
  then show ?thesis using step_shutdown [OF assms(1,2)] by (simp add: flag_ok_def)
next
  case False
  with assms(3) have "sy_closing S = Running" by (simp add: flag_ok_def)
  with assms(1) show ?thesis
    by cases (simp_all add: flag_ok_def cancel_heartbeat_def)
qed

text \<open>Once the flag is set, every transaction that opens uses up a \<^verbatim>\<open>begin\<close> in flight.\<close>

lemma step_barrier:
  assumes "sys_step drv st srv S S'" "sh_shutdown (sy_shared S)"
  shows "open_txs S' + in_flight S' \<le> open_txs S + in_flight S"
  using assms(1)
proof cases
  case (retried i t z s')
  then show ?thesis
    using length_filter_update [OF retried(2), of bt_checked "next_task z t"]
    by (simp add: open_txs_def in_flight_def next_task_def)
next
  case (opened i t tx z s' p x)
  then show ?thesis
    using length_filter_without [OF opened(2), of bt_checked] filter_pos [OF opened(2), of bt_checked]
    by (simp add: open_txs_def in_flight_def open_tx_def split: if_splits)
next
  case (used i p x e p' x')
  have "fin p \<longrightarrow> fin p'" using event_fin [of "(attach (sy_shared S) p, x)" srv e] used(4) by simp
  then show ?thesis
    using length_filter_update [OF used(2), of open_tx "Some (p', x')"] used(3)
    unfolding used(1) by (auto simp: open_txs_def in_flight_def open_tx_def split: if_splits)
next
  case (dropped i p x)
  then show ?thesis
    using length_filter_update [OF dropped(2), of open_tx None]
    by (simp add: open_txs_def in_flight_def open_tx_def split: if_splits)
qed (use assms(2) in \<open>simp_all add: open_txs_def in_flight_def length_filter_without\<close>)

lemma steps_barrier:
  assumes "(sys_step drv st srv)\<^sup>*\<^sup>* S S'" "quiet drv" "sh_shutdown (sy_shared S)"
  shows "sh_shutdown (sy_shared S') \<and> open_txs S' + in_flight S' \<le> open_txs S + in_flight S"
  using assms(1)
proof (induction rule: rtranclp_induct)
  case (step T U)
  then show ?case using step_shutdown [OF step(2) assms(2)] step_barrier [OF step(2)] by force
qed (use assms(3) in simp)

lemma steps_books:
  assumes "(sys_step drv st srv)\<^sup>*\<^sup>* S S'" "quiet drv" "books_ok S" "flag_ok S"
  shows "books_ok S' \<and> flag_ok S'"
  using assms(1)
  by (induction rule: rtranclp_induct) (use assms(2-4) step_books step_flag_ok in blast)+

lemma active_exact:
  assumes "books_ok S"
  shows "unat (sh_active (sy_shared S)) = open_txs S"
proof -
  have "open_txs S < 2 ^ 64"
    using assms le_less_trans [OF length_filter_le [of open_tx "sy_txs S"]] by (simp add: books_ok_def open_txs_def)
  then show ?thesis using assms by (simp add: books_ok_def unat_of_nat take_bit_nat_eq_self)
qed

subsection \<open>Calls that run alone\<close>

text \<open>
  The steps are those of the functions of \<open>Store_Ops\<close> and \<open>Store_Life\<close>: a \<^verbatim>\<open>begin\<close> or a
  \<^verbatim>\<open>shutdown\<close> that is not interrupted is a run of the system.
\<close>

definition task :: "bool \<Rightarrow> nat \<Rightarrow> bool \<Rightarrow> begin_task" where
  "task w n z = \<lparr>bt_write = w, bt_attempt = n, bt_zombie = z, bt_checked = False\<rparr>"

text \<open>A system whose last \<^verbatim>\<open>begin\<close> is the given one.\<close>

definition asking :: "('w, 'x) system \<Rightarrow> 'w shared_scheme \<Rightarrow> begin_task \<Rightarrow> ('w, 'x) system" where
  "asking S s t = S\<lparr>sy_shared := s, sy_begins := sy_begins S @ [t]\<rparr>"

lemma begin_try_checked [simp]: "begin_try drv st (t\<lparr>bt_checked := c\<rparr>) s = begin_try drv st t s"
  by (simp add: begin_try_def split: conn_mode.split)

lemma task_simps [simp]:
  "\<not> bt_checked (task w n z)" "next_task z' ((task w n z)\<lparr>bt_checked := True\<rparr>) = task w (Suc n) z'"
  by (simp_all add: task_def next_task_def)

lemma passes_check:
  assumes "\<not> sh_shutdown s"
  shows "sys_step drv st srv (asking S s (task w n z)) (asking S s ((task w n z)\<lparr>bt_checked := True\<rparr>))"
  using sys_step.checked [of "length (sy_begins S)" "asking S s (task w n z)" "task w n z" drv st srv] assms
  by (simp add: asking_def)

lemma retry_alone:
  assumes "\<not> sh_shutdown s" "begin_try drv st (task w n z) s = (Again, z', s')"
  shows "(sys_step drv st srv)\<^sup>*\<^sup>* (asking S s (task w n z)) (asking S s' (task w (Suc n) z'))"
proof -
  have "sys_step drv st srv (asking S s ((task w n z)\<lparr>bt_checked := True\<rparr>)) (asking S s' (task w (Suc n) z'))"
    using sys_step.retried [of "length (sy_begins S)" "asking S s ((task w n z)\<lparr>bt_checked := True\<rparr>)"
        "(task w n z)\<lparr>bt_checked := True\<rparr>" drv st z' s' srv] assms(2)
    by (simp add: asking_def)
  then show ?thesis
    by (rule converse_rtranclp_into_rtranclp [where r = "sys_step drv st srv", OF passes_check [OF assms(1)] r_into_rtranclp])
qed

lemma open_alone:
  assumes "\<not> sh_shutdown s" "begin_try drv st (task w n z) s = (Done (Ok tx), z', s')"
    "length (sy_txs S) < 2 ^ 64 - 1"
  shows "(sys_step drv st srv)\<^sup>*\<^sup>* (asking S s (task w n z))
    (S\<lparr>sy_shared := s', sy_txs := sy_txs S @ [Some (ptx_new tx (sh_committed s') (sh_rolled_back s'), x)]\<rparr>)"
proof -
  have "sys_step drv st srv (asking S s ((task w n z)\<lparr>bt_checked := True\<rparr>))
    (S\<lparr>sy_shared := s', sy_txs := sy_txs S @ [Some (ptx_new tx (sh_committed s') (sh_rolled_back s'), x)]\<rparr>)"
    using sys_step.opened [of "length (sy_begins S)" "asking S s ((task w n z)\<lparr>bt_checked := True\<rparr>)"
        "(task w n z)\<lparr>bt_checked := True\<rparr>" drv st tx z' s' _ srv x] assms(2,3)
    by (simp add: asking_def without_nth_def)
  then show ?thesis
    by (rule converse_rtranclp_into_rtranclp [where r = "sys_step drv st srv", OF passes_check [OF assms(1)] r_into_rtranclp])
qed

lemma pooled_retries_alone:
  assumes "retries (begin_pooled_attempt drv st w) n x m y" "st_mode st = PooledMode"
  shows "(sys_step drv st srv)\<^sup>*\<^sup>* (asking S (snd x) (task w n (fst x))) (asking S (snd y) (task w m (fst y)))"
  using assms(1)
proof (induction rule: retries.induct)
  case (one_more n x y m z)
  then have a: "begin_try drv st (task w n (fst x)) (snd x) = (Again, y)" "\<not> sh_shutdown (snd x)"
    using assms(2)
    by (cases x; simp add: begin_pooled_attempt_def begin_try_def task_def split: if_splits)+
  show ?case
    using retry_alone [OF a(2), of drv st w n "fst x" "fst y" "snd y" srv S] a(1) one_more.IH
    by (metis prod.collapse rtranclp_trans)
qed simp

lemma direct_retries_alone:
  assumes "retries (begin_direct_attempt drv st w) n x m y" "st_mode st = DirectMode"
  shows "(sys_step drv st srv)\<^sup>*\<^sup>* (asking S x (task w n z)) (asking S y (task w m z))"
  using assms(1)
proof (induction rule: retries.induct)
  case (one_more n x y m u)
  then have a: "begin_try drv st (task w n z) x = (Again, z, y)" "\<not> sh_shutdown x"
    using assms(2) by (auto simp: begin_direct_attempt_def begin_try_def task_def split: if_splits)
  show ?case by (rule rtranclp_trans [OF retry_alone [OF a(2,1)] one_more.IH])
qed simp

lemma begin_alone:
  assumes "store_begin drv st w (sy_shared S) = (Ok tx, s')" "length (sy_txs S) < 2 ^ 64 - 1"
  shows "(sys_step drv st srv)\<^sup>*\<^sup>* S
    (S\<lparr>sy_shared := s', sy_txs := sy_txs S @ [Some (ptx_new tx (sh_committed s') (sh_rolled_back s'), x)]\<rparr>)"
    (is "(sys_step drv st srv)\<^sup>*\<^sup>* S ?S'")
proof -
  have flag: "\<not> sh_shutdown (sy_shared S)" using assms(1) by (auto simp: store_begin_def split: if_splits)
  have "sys_step drv st srv S (asking S (sy_shared S) (task w 1 False))"
    using sys_step.asked [OF flag, of drv st srv w] by (simp add: asking_def new_task_def task_def)
  moreover have "(sys_step drv st srv)\<^sup>*\<^sup>* (asking S (sy_shared S) (task w 1 False)) ?S'"
  proof (cases "st_mode st")
    case PooledMode
    obtain m y r z where l: "retries (begin_pooled_attempt drv st w) 1 (False, sy_shared S) m y"
      "begin_pooled_attempt drv st w m y = (Done r, z)"
      "begin_pooled_loop drv st w 1 (False, sy_shared S) = (r, z)"
      by (rule pooled.loop_result [of 1 drv st w "(False, sy_shared S)"]) simp
    then have r: "r = Ok tx" "snd z = s'"
      using assms(1) flag PooledMode by (simp_all add: store_begin_def begin_pooled_def split: prod.splits)
    have t: "\<not> sh_shutdown (snd y)" "begin_try drv st (task w m (fst y)) (snd y) = (Done (Ok tx), fst z, s')"
      using l(2) r PooledMode
      by (cases y; auto simp: begin_pooled_attempt_def begin_try_def task_def split: if_splits)+
    show ?thesis
      using rtranclp_trans [OF pooled_retries_alone [OF l(1) PooledMode] open_alone [OF t assms(2)]] by simp
  next
    case DirectMode
    obtain m y r z where l: "retries (begin_direct_attempt drv st w) 1 (sy_shared S) m y"
      "begin_direct_attempt drv st w m y = (Done r, z)"
      "begin_direct_loop drv st w 1 (sy_shared S) = (r, z)"
      by (rule direct.loop_result [of 1 drv st w "sy_shared S"]) simp
    then have r: "r = Ok tx" "z = s'"
      using assms(1) flag DirectMode by (simp_all add: store_begin_def begin_direct_def)
    have t: "\<not> sh_shutdown y" "begin_try drv st (task w m False) y = (Done (Ok tx), False, s')"
      using l(2) r DirectMode
      by (auto simp: begin_direct_attempt_def begin_try_def task_def split: if_splits)
    show ?thesis
      by (rule rtranclp_trans [OF direct_retries_alone [OF l(1) DirectMode] open_alone [OF t assms(2)]])
  qed
  ultimately show ?thesis by (rule converse_rtranclp_into_rtranclp)
qed

lemma grace_alone:
  assumes "grace_loop drv d s = Some s'"
  shows "\<exists>c \<in> {Drained, TimedOut}. (sys_step drv st srv)\<^sup>*\<^sup>* (S\<lparr>sy_shared := s, sy_closing := Grace d\<rparr>)
    (S\<lparr>sy_shared := s', sy_closing := c\<rparr>)"
proof (rule grace_loop.raw_induct [OF _ assms, where P = "\<lambda>drv d s s'. \<exists>c \<in> {Drained, TimedOut}.
    (sys_step drv st srv)\<^sup>*\<^sup>* (S\<lparr>sy_shared := s, sy_closing := Grace d\<rparr>) (S\<lparr>sy_shared := s', sy_closing := c\<rparr>)"],
    goal_cases)
  case (1 loop drv d s s')
  let ?S = "S\<lparr>sy_shared := s, sy_closing := Grace d\<rparr>"
  consider "sh_active s = 0" "s' = s" | "sh_active s \<noteq> 0" "d \<le> drv_now drv s" "s' = s"
    | "sh_active s \<noteq> 0" "\<not> d \<le> drv_now drv s" "loop drv d (drv_sleep drv DIRECT_SHUTDOWN_POLL s) = Some s'"
    using 1(2) by (auto split: if_splits)
  then show ?case
  proof cases
    assume "sh_active s = 0" "s' = s"
    then show ?thesis using sys_step.drained [of ?S d drv st srv] by auto
  next
    assume "sh_active s \<noteq> 0" "d \<le> drv_now drv s" "s' = s"
    then show ?thesis using sys_step.timed_out [of ?S d drv st srv] by auto
  next
    assume a: "sh_active s \<noteq> 0" "\<not> d \<le> drv_now drv s" "loop drv d (drv_sleep drv DIRECT_SHUTDOWN_POLL s) = Some s'"
    then have "sys_step drv st srv ?S
        (S\<lparr>sy_shared := drv_sleep drv DIRECT_SHUTDOWN_POLL s, sy_closing := Grace d\<rparr>)"
      using sys_step.polled [of ?S d drv st srv] by (cases S) simp
    with 1(1) [OF a(3)] show ?thesis by (meson converse_rtranclp_into_rtranclp)
  qed
qed

lemma shutdown_alone:
  assumes "store_shutdown drv st (sy_shared S) = Some s'" "sy_closing S = Running"
  shows "\<exists>c \<in> {Drained, TimedOut, PoolClosed}.
    (sys_step drv st srv)\<^sup>*\<^sup>* S (S\<lparr>sy_shared := s', sy_closing := c\<rparr>)"
proof -
  define s1 where "s1 = await_heartbeat drv (cancel_heartbeat st ((sy_shared S)\<lparr>sh_shutdown := True\<rparr>))"
  let ?S0 = "S\<lparr>sy_shared := cancel_heartbeat st ((sy_shared S)\<lparr>sh_shutdown := True\<rparr>), sy_closing := Flagged\<rparr>"
  let ?S1 = "S\<lparr>sy_shared := s1, sy_closing := Joined\<rparr>"
  have 1: "(sys_step drv st srv)\<^sup>*\<^sup>* S ?S1"
    using sys_step.joined [of ?S0 drv st srv]
    by (cases S) (intro converse_rtranclp_into_rtranclp [where r = "sys_step drv st srv", OF
        sys_step.flagged [OF assms(2)]] r_into_rtranclp, simp add: s1_def)
  have "\<exists>c \<in> {Drained, TimedOut, PoolClosed}. (sys_step drv st srv)\<^sup>*\<^sup>* ?S1 (S\<lparr>sy_shared := s', sy_closing := c\<rparr>)"
  proof (cases "st_mode st")
    case PooledMode
    then show ?thesis
      using sys_step.pool_closed [of ?S1 st drv srv] assms(1) by (auto simp: store_shutdown_def s1_def)
  next
    case DirectMode
    show ?thesis
    proof (cases "sh_active s1 = 0")
      case True
      then show ?thesis
        using sys_step.idle [of ?S1 st drv srv] assms(1) DirectMode
        by (auto simp: store_shutdown_def s1_def Let_def)
    next
      case False
      then have 0: "0 < sh_active s1" by (simp add: word_gt_0)
      then have g: "grace_loop drv (drv_now drv s1 + DIRECT_SHUTDOWN_GRACE) s1 = Some s'"
        using assms(1) DirectMode by (simp add: store_shutdown_def s1_def [symmetric] Let_def)
      have "sys_step drv st srv ?S1 (S\<lparr>sy_shared := s1, sy_closing := Grace (drv_now drv s1 + DIRECT_SHUTDOWN_GRACE)\<rparr>)"
        using sys_step.waits [of ?S1 st drv srv] 0 DirectMode by simp
      note grace = this
      obtain c where c: "c \<in> {Drained, TimedOut}" "(sys_step drv st srv)\<^sup>*\<^sup>*
          (S\<lparr>sy_shared := s1, sy_closing := Grace (drv_now drv s1 + DIRECT_SHUTDOWN_GRACE)\<rparr>)
          (S\<lparr>sy_shared := s', sy_closing := c\<rparr>)"
        using grace_alone [OF g, of st srv S] by blast
      show ?thesis using converse_rtranclp_into_rtranclp [OF grace c(2)] c(1) by blast
    qed
  qed
  with 1 show ?thesis by (meson rtranclp_trans)
qed

subsection \<open>Properties of the system\<close>

text \<open>A store on which nothing has happened yet.\<close>

definition idle_store :: "'w shared_scheme \<Rightarrow> ('w, 'x) system" where
  "idle_store s = \<lparr>sy_shared = s, sy_begins = [], sy_txs = [], sy_closing = Running\<rparr>"

lemma idle_books:
  "\<lbrakk>sh_started s = sh_committed s + sh_rolled_back s; sh_active s = 0\<rbrakk> \<Longrightarrow>
     books_ok (idle_store s) \<and> flag_ok (idle_store s)"
  by (simp add: books_ok_def flag_ok_def idle_store_def open_txs_def)


lemma sim_quiet: "quiet sim_driver"
  unfolding quiet_def by (intro allI sim_stays) (simp_all add: same_shared_def shared.truncate_def)

definition sim_start :: sim where
  "sim_start = sim0\<lparr>sh_started := 0, sh_active := 0\<rparr>"

lemma sim_start_begins:
  "store_begin sim_driver pooled_store True sim_start =
     (Ok (new_pooled True ReadCommitted True (sql_new ''kv'') 1),
      sim_start\<lparr>sim_refusals := 0, sim_clock := 15000000000, sh_started := 1, sh_active := 1\<rparr>)"
  by (simp add: store_begin_def begin_pooled_def begin_pooled_loop.simps begin_pooled_attempt_def begin_pooled_try_def
      sim_driver_def sim_begin_def sim_start_def sim0_def pooled_store_def pool_size_def begin_delay_def
      BEGIN_MAX_RETRIES_def from_millis_def count_begin_def default_config_def numeral_2_eq_2)

definition sim_begun :: "(_, ref_session) system" where
  "sim_begun = (idle_store sim_start)
     \<lparr>sy_shared := sim_start\<lparr>sim_refusals := 0, sim_clock := 15000000000, sh_started := 1, sh_active := 1\<rparr>,
      sy_txs := [Some (ptx_new (new_pooled True ReadCommitted True (sql_new ''kv'') 1) 0 0, ref_begin True [])]\<rparr>"

lemma sim_begun_reached:
  "(sys_step sim_driver pooled_store (ref_server ''kv''))\<^sup>*\<^sup>* (idle_store sim_start) sim_begun"
  using begin_alone [of sim_driver pooled_store True "idle_store sim_start" _ _ "ref_server ''kv''" "ref_begin True []"]
    sim_start_begins
  by (simp add: idle_store_def sim_begun_def sim_start_def sim0_def)


text \<open>
  C15. What a drained shutdown guarantees.  When the shutdown of direct mode has found no active transaction,
  none is open; afterwards only a \<^verbatim>\<open>begin\<close> that had passed the check of the flag before
  can still open one, so at most as many are ever open as there were such calls in flight, and none at
  all if there was none; the flag stays set, so every other waiting \<^verbatim>\<open>begin\<close> can only be refused.
\<close>

theorem drained_store_is_closed:
  assumes "quiet drv" "sh_started s = sh_committed s + sh_rolled_back s" "sh_active s = 0"
    and "(sys_step drv st srv)\<^sup>*\<^sup>* (idle_store s) S" "sys_step drv st srv S S1"
    and "sy_closing S \<noteq> Drained" "sy_closing S1 = Drained" "(sys_step drv st srv)\<^sup>*\<^sup>* S1 S2"
  shows "open_txs S1 = 0 \<and> open_txs S2 \<le> in_flight S1 \<and>
    (in_flight S1 = 0 \<longrightarrow> sh_active (sy_shared S2) = 0) \<and> sh_shutdown (sy_shared S2)"
proof -
  have S: "books_ok S" "flag_ok S" using steps_books [OF assms(4,1)] idle_books [OF assms(2,3)] by blast+
  have S1: "books_ok S1" "flag_ok S1" using step_books [OF assms(5,1) S(1)] step_flag_ok [OF assms(5,1) S(2)] .
  have "sh_active (sy_shared S1) = 0"
    using assms(5) by cases (use assms(6,7) in simp_all)
  then have 0: "open_txs S1 = 0" using active_exact [OF S1(1)] by simp
  have down: "sh_shutdown (sy_shared S1)" using S1(2) assms(7) by (simp add: flag_ok_def)
  note 2 = steps_barrier [OF assms(8,1) down]
  then have "open_txs S2 \<le> in_flight S1" using 0 by simp
  moreover have "sh_active (sy_shared S2) = of_nat (open_txs S2)"
    using steps_books [OF assms(8,1) S1] by (simp add: books_ok_def)
  ultimately show ?thesis using 0 2 by auto
qed

text \<open>The bound is met: a \<^verbatim>\<open>begin\<close> that is connecting while the store shuts down opens its transaction after it.\<close>

definition direct_store :: pg_store where
  "direct_store = pooled_store\<lparr>st_mode := DirectMode, st_connect_timeout := from_secs 30\<rparr>"

definition sim_racing :: "closing \<Rightarrow> bool \<Rightarrow> (_, ref_session) system" where
  "sim_racing c down = \<lparr>sy_shared = sim_start\<lparr>sh_shutdown := down\<rparr>,
     sy_begins = [(new_task True)\<lparr>bt_checked := True\<rparr>], sy_txs = [], sy_closing = c\<rparr>"

lemma sim_races:
  "(sys_step sim_driver direct_store srv)\<^sup>*\<^sup>* (idle_store sim_start) (sim_racing Joined True)"
proof -
  let ?R = "sys_step sim_driver direct_store srv" and ?A = "(idle_store sim_start)\<lparr>sy_begins := [new_task True]\<rparr>"
  have "?R (idle_store sim_start) ?A"
    using sys_step.asked [of "idle_store sim_start" sim_driver direct_store srv True]
    by (simp add: idle_store_def sim_start_def sim0_def)
  moreover have "?R ?A (sim_racing Running False)"
    using sys_step.checked [of 0 ?A "new_task True" sim_driver direct_store srv]
    by (simp add: idle_store_def sim_start_def sim0_def new_task_def sim_racing_def)
  moreover have "?R (sim_racing Running False) (sim_racing Flagged True)"
    using sys_step.flagged [of "sim_racing Running False" sim_driver direct_store srv]
    by (simp add: sim_racing_def sim_start_def sim0_def cancel_heartbeat_def direct_store_def pooled_store_def
        default_config_def)
  moreover have "?R (sim_racing Flagged True) (sim_racing Joined True)"
    using sys_step.joined [of "sim_racing Flagged True" sim_driver direct_store srv]
    by (simp add: sim_racing_def await_heartbeat_def sim_start_def sim0_def)
  ultimately show ?thesis by (meson converse_rtranclp_into_rtranclp rtranclp.rtrancl_refl)
qed

lemma sim_drains: "sys_step sim_driver direct_store srv (sim_racing Joined True) (sim_racing Drained True)"
  using sys_step.idle [of "sim_racing Joined True" direct_store sim_driver srv]
  by (simp add: sim_racing_def direct_store_def sim_start_def)

lemma sim_begin_late:
  obtains S where "sys_step sim_driver direct_store srv (sim_racing Drained True) S" "open_txs S = 1"
proof -
  let ?t = "(new_task True)\<lparr>bt_checked := True\<rparr>" and ?s = "sim_start\<lparr>sh_shutdown := True\<rparr>"
  have try_ok: "begin_try sim_driver direct_store ?t ?s =
      (Done (Ok (new_direct True ReadCommitted True (sql_new ''kv'') 1)), False, count_begin ?s)"
    by (simp add: begin_try_def direct_store_def begin_direct_try_def connect_direct_def sim_driver_def from_secs_def
        sim_ok_def pooled_store_def default_config_def count_begin_def sim_start_def new_task_def)
  let ?p = "ptx_new (new_direct True ReadCommitted True (sql_new ''kv'') 1) (sh_committed (count_begin ?s))
    (sh_rolled_back (count_begin ?s))"
  have r: "sy_begins (sim_racing Drained True) = [?t]" "sy_txs (sim_racing Drained True) = []"
    "sy_shared (sim_racing Drained True) = ?s" by (simp_all add: sim_racing_def)
  have "sys_step sim_driver direct_store srv (sim_racing Drained True)
      ((sim_racing Drained True)\<lparr>sy_shared := count_begin ?s, sy_begins := without_nth 0 [?t],
        sy_txs := [] @ [Some (?p, x)]\<rparr>)"
    by (rule sys_step.opened [of 0 "sim_racing Drained True" ?t sim_driver direct_store
        "new_direct True ReadCommitted True (sql_new ''kv'') 1" False "count_begin ?s" ?p srv x,
        unfolded r, OF _ _ _ _ try_ok refl]) simp_all
  then show thesis by (rule that) (simp add: open_txs_def open_tx_def ptx_new_def)
qed

theorem drained_store_is_closed_witness:
  "\<exists>S :: (_, ref_session) system. (sys_step sim_driver direct_store (ref_server ''kv''))\<^sup>*\<^sup>* (sim_racing Drained True) S \<and>
     open_txs S = 1 \<and> open_txs S \<le> in_flight (sim_racing Drained True)"
proof -
  obtain S where S: "sys_step sim_driver direct_store (ref_server ''kv'') (sim_racing Drained True) S" "open_txs S = 1"
    by (rule sim_begin_late)
  have "sh_started sim_start = sh_committed sim_start + sh_rolled_back sim_start" "sh_active sim_start = 0"
    "sy_closing (sim_racing Joined True) \<noteq> Drained" "sy_closing (sim_racing Drained True) = Drained"
    by (simp_all add: sim_start_def sim0_def sim_racing_def)
  moreover have run: "(sys_step sim_driver direct_store (ref_server ''kv''))\<^sup>*\<^sup>* (sim_racing Drained True) S"
    using S(1) by (rule r_into_rtranclp)
  ultimately show ?thesis
    using drained_store_is_closed [OF sim_quiet _ _ sim_races sim_drains _ _ run] S(2) by blast
qed

end
