(* ===== verification/Config_Warnings.thy ===== *)
theory Config_Warnings
  imports Config_Props
begin

section \<open>The warnings of the URL merge (src/config.rs)\<close>

text \<open>
  \<^verbatim>\<open>merge_url_params\<close> and \<^verbatim>\<open>merge_env\<close> never fail on a bad setting but the table name: they keep or cap
  a value and log a warning.  Here the texts of the warnings are a result.  The property says that
  the operator can rely on them: a URL merged without a warning is honoured in full.
\<close>

subsection \<open>The warnings of one parameter\<close>

definition in_quotes :: "string \<Rightarrow> string" where
  "in_quotes v = [CHR 0x27] @ v @ [CHR 0x27]"

text \<open>The parameters of the driver, which are not the crate's business.\<close>

definition SQLX_KNOWN_PARAMS :: "string list" where
  "SQLX_KNOWN_PARAMS = [''sslmode'', ''sslrootcert'', ''sslcert'', ''sslkey'', ''application_name'',
     ''options'', ''keepalives'', ''keepalives_idle'', ''keepalives_interval'', ''keepalives_count'',
     ''user'', ''password'', ''dbname'', ''host'', ''port'', ''statement_timeout'',
     ''tcp_user_timeout'', ''gssencmode'', ''channel_binding'', ''target_session_attrs'',
     ''service'', ''passfile'', ''requiressl'']"

definition secs_warnings :: "string \<Rightarrow> string \<Rightarrow> string \<Rightarrow> string list" where
  "secs_warnings key why value =
     (case parse_u64 value of
        None \<Rightarrow> [key @ ''='' @ in_quotes value @ '' is not a valid number, ignoring'']
      | Some secs \<Rightarrow>
          if secs = 0 then [key @ ''=0 is invalid ('' @ why @ ''), ignoring''] else [])"

definition bool_warnings :: "string \<Rightarrow> string \<Rightarrow> string list" where
  "bool_warnings key value =
     (case parse_bool_param value of
        Some _ \<Rightarrow> []
      | None \<Rightarrow> [key @ ''='' @ in_quotes value
                 @ '' is not a valid bool (expected true/false/yes/no/on/off/1/0), ignoring''])"

definition connections_warnings :: "string \<Rightarrow> string \<Rightarrow> string \<Rightarrow> string list" where
  "connections_warnings key zero value =
     (case parse_u32 value of
        None \<Rightarrow> [key @ ''='' @ in_quotes value @ '' is not a valid u32, ignoring'']
      | Some v \<Rightarrow>
          if v = 0 then [key @ ''=0 '' @ zero]
          else if 10000 < v then
            [key @ ''='' @ fmt_nat v @ '' is unreasonably high (>10000), capping to 10000'']
          else [])"

definition known_isolation :: "string \<Rightarrow> bool" where
  "known_isolation value \<longleftrightarrow> to_ascii_lowercase value \<in>
     {''repeatable_read'', ''repeatable read'', ''serializable'', ''read_committed'', ''read committed''}"

definition param_warnings :: "string \<Rightarrow> string \<Rightarrow> string list" where
  "param_warnings key value =
     (if key = ''max_connections'' then connections_warnings key ''is invalid, ignoring'' value
      else if key = ''min_connections'' then
        connections_warnings key (''means no idle connections will be maintained; ''
          @ ''this may cause connection storms under load'') value
      else if key = ''max_lifetime'' then
        secs_warnings key ''connections would be immediately recycled'' value
      else if key = ''auto_create_table'' then bool_warnings key value
      else if key = ''table_name'' then []
      else if key = ''isolation_level'' then
        (if known_isolation value then []
         else [key @ ''='' @ in_quotes value @ '' is not recognized, defaulting to ReadCommitted''])
      else if key = ''persistent_statements'' then
        (case parse_policy value of
           Some _ \<Rightarrow> []
         | None \<Rightarrow> [key @ ''='' @ in_quotes value @ '' is not recognized, ignoring''])
      else if key = ''connect_timeout'' then
        secs_warnings key ''would cause immediate timeout'' value
      else if key = ''idle_timeout'' then
        secs_warnings key ''would cause immediate timeout'' value
      else if key = ''slow_acquire_threshold_secs'' then
        secs_warnings key ''would trigger on every acquire'' value
      else if key = ''slow_statements_threshold_secs'' then
        secs_warnings key ''would trigger on every statement'' value
      else if key = ''pooler'' then bool_warnings key value
      else if key = ''hash_partitions'' then
        (case parse_u32 value of
           None \<Rightarrow> [key @ ''='' @ in_quotes value @ '' is not a valid u32, ignoring'']
         | Some v \<Rightarrow>
             if v = 0 then [key @ ''=0 is invalid (must be >= 1), ignoring'']
             else if 1024 < v then
               [key @ ''='' @ fmt_nat v @ '' is unreasonably high (>1024), ignoring'']
             else [])
      else if key \<noteq> [] \<and> key \<notin> set SQLX_KNOWN_PARAMS then
        [''unknown URL parameter '' @ in_quotes key @ '', ignoring'']
      else [])"

subsection \<open>The warnings of a merge\<close>

definition duplicate_warning :: "string \<Rightarrow> string" where
  "duplicate_warning key = ''duplicate URL parameter '' @ in_quotes key @ '': last occurrence wins''"

text \<open>The dash of the message is a three-byte character.\<close>

definition bare_warning :: "string \<Rightarrow> string" where
  "bare_warning pair = ''URL parameter '' @ in_quotes pair @ '' has no value (missing '' @ in_quotes ''=''
     @ ''), ignoring '' @ [CHR 0xE2, CHR 0x80, CHR 0x94] @ '' use ?'' @ pair @ ''=true''"

text \<open>The loop over the pairs, with the set \<^verbatim>\<open>seen\<close> of known keys met so far.\<close>

fun merge_log ::
  "string list \<Rightarrow> string list \<Rightarrow> pg_config \<Rightarrow> string list \<times> (string, unit) outcome \<times> pg_config" where
  "merge_log [] seen cfg = ([], Ok (), cfg)"
| "merge_log (pair # pairs) seen cfg =
     (case split_once (CHR ''='') pair of
        Some (key, value) \<Rightarrow>
          (let dup = (if key \<in> set KNOWN_PARAMS \<and> key \<in> set seen then [duplicate_warning key] else []);
               seen' = (if key \<in> set KNOWN_PARAMS then key # seen else seen);
               ws = dup @ param_warnings key (percent_decode value) in
           case merge_param key (percent_decode value) cfg of
             (Ok _, cfg') \<Rightarrow> (let (l, r) = merge_log pairs seen' cfg' in (ws @ l, r))
           | (r, cfg') \<Rightarrow> (ws, r, cfg'))
      | None \<Rightarrow>
          (let ws = (if pair \<in> set KNOWN_PARAMS then [bare_warning pair] else []);
               (l, r) = merge_log pairs seen cfg in (ws @ l, r)))"

definition cross_check :: "pg_config \<Rightarrow> string list" where
  "cross_check cfg =
     (case (min_connections cfg, max_connections cfg) of
        (Some mn, Some mx) \<Rightarrow>
          if mx < mn then
            [''min_connections='' @ fmt_nat mn @ '' > max_connections='' @ fmt_nat mx
             @ '' (detected in post-merge validation), will be capped by the store layer'']
          else []
      | _ \<Rightarrow> [])"

definition merge_url_log :: "string \<Rightarrow> pg_config \<Rightarrow> string list \<times> (string, unit) outcome \<times> pg_config" where
  "merge_url_log url cfg =
     (let (l, r, cfg') =
        (case url_query url of
           Some query \<Rightarrow> merge_log (split_on (CHR ''&'') query) [] cfg
         | None \<Rightarrow> ([], Ok (), cfg))
      in case r of Ok _ \<Rightarrow> (l @ cross_check cfg', r, cfg') | _ \<Rightarrow> (l, r, cfg'))"

text \<open>The fields of the structured log line of \<^verbatim>\<open>merge_env\<close>, and its message.\<close>

definition env_warnings :: "environment \<Rightarrow> (string \<times> string \<times> string) list" where
  "env_warnings env =
     (case env ''PG_PERSISTENT_STATEMENTS'' of
        None \<Rightarrow> []
      | Some raw \<Rightarrow>
          (case parse_policy (trim raw) of
             Some v \<Rightarrow> []
           | None \<Rightarrow> [(''PG_PERSISTENT_STATEMENTS'', trim raw,
               ''unrecognized value, ignoring (expected: auto|true|false|on|off|1|0|yes|no)'')]))"

text \<open>The log changes nothing of the merge.\<close>

lemma merge_log_merges: "snd (merge_log pairs seen cfg) = merge_pairs pairs cfg"
  by (induction pairs arbitrary: seen cfg)
    (auto simp: Let_def case_prod_beta split: option.split outcome.split prod.split)

lemma merge_url_log_merges: "snd (merge_url_log url cfg) = merge_url_params url cfg"
proof -
  have "snd (case r of Ok _ \<Rightarrow> (l @ cross_check c, r, c) | _ \<Rightarrow> (l, r, c)) = (r, c)"
    for l and r :: "(string, unit) outcome" and c by (cases r) simp_all
  then have "snd (let (l, r, c) = x in case r of Ok _ \<Rightarrow> (l @ cross_check c, r, c) | _ \<Rightarrow> (l, r, c)) = snd x"
    for x :: "string list \<times> (string, unit) outcome \<times> pg_config" by (cases x) simp
  then show ?thesis
    by (simp add: merge_url_log_def merge_url_params_def merge_log_merges split: option.split)
qed

subsection \<open>Settings as the URL asks for them\<close>

text \<open>The configuration holds the value a known parameter was given, read as its kind of value.\<close>

definition honoured :: "string \<Rightarrow> string \<Rightarrow> pg_config \<Rightarrow> bool" where
  "honoured key value cfg \<longleftrightarrow>
     (key = ''max_connections'' \<longrightarrow> max_connections cfg \<noteq> None \<and> parse_u32 value = max_connections cfg) \<and>
     (key = ''min_connections'' \<longrightarrow> min_connections cfg \<noteq> None \<and> parse_u32 value = min_connections cfg) \<and>
     (key = ''max_lifetime'' \<longrightarrow> max_lifetime cfg \<noteq> None \<and> map_option from_secs (parse_u64 value) = max_lifetime cfg) \<and>
     (key = ''auto_create_table'' \<longrightarrow> parse_bool_param value = Some (auto_create_table cfg)) \<and>
     (key = ''table_name'' \<longrightarrow> table_name cfg = value) \<and>
     (key = ''isolation_level'' \<longrightarrow> known_isolation value \<and> isolation_level cfg = parse_isolation value) \<and>
     (key = ''persistent_statements'' \<longrightarrow> parse_policy value = Some (persistent_statements cfg)) \<and>
     (key = ''connect_timeout'' \<longrightarrow>
        connect_timeout cfg \<noteq> None \<and> map_option from_secs (parse_u64 value) = connect_timeout cfg) \<and>
     (key = ''idle_timeout'' \<longrightarrow> idle_timeout cfg \<noteq> None \<and> map_option from_secs (parse_u64 value) = idle_timeout cfg) \<and>
     (key = ''slow_acquire_threshold_secs'' \<longrightarrow> slow_acquire_threshold_secs cfg \<noteq> None \<and>
        map_option from_secs (parse_u64 value) = slow_acquire_threshold_secs cfg) \<and>
     (key = ''slow_statements_threshold_secs'' \<longrightarrow> slow_statements_threshold_secs cfg \<noteq> None \<and>
        map_option from_secs (parse_u64 value) = slow_statements_threshold_secs cfg) \<and>
     (key = ''pooler'' \<longrightarrow> parse_bool_param value = Some (pooler cfg)) \<and>
     (key = ''hash_partitions'' \<longrightarrow> hash_partitions cfg \<noteq> None \<and> parse_u32 value = hash_partitions cfg)"

lemma secs_warned:
  "secs_warnings key why value = [] \<Longrightarrow>
     or_keep (parse_secs value) old \<noteq> None \<and> map_option from_secs (parse_u64 value) = or_keep (parse_secs value) old"
  by (auto simp: secs_warnings_def parse_secs_def or_keep_def split: option.splits if_splits)

text \<open>One parameter of each name, so that no proof below has to run through the whole match.\<close>

lemma known_cases [consumes 1]:
  assumes "key \<in> set KNOWN_PARAMS"
  obtains "key = ''max_connections''" | "key = ''min_connections''" | "key = ''max_lifetime''"
    | "key = ''auto_create_table''" | "key = ''table_name''" | "key = ''isolation_level''"
    | "key = ''persistent_statements''" | "key = ''connect_timeout''" | "key = ''idle_timeout''"
    | "key = ''slow_acquire_threshold_secs''" | "key = ''slow_statements_threshold_secs''"
    | "key = ''pooler''" | "key = ''hash_partitions''"
  using assms unfolding KNOWN_PARAMS_def list.set by (elim insertE emptyE) (erule that)+

lemma honoured_other [simp]:
  "key \<noteq> ''max_connections'' \<Longrightarrow> honoured key v (cfg\<lparr>max_connections := x1\<rparr>) = honoured key v cfg"
  "key \<noteq> ''min_connections'' \<Longrightarrow> honoured key v (cfg\<lparr>min_connections := x1\<rparr>) = honoured key v cfg"
  "key \<noteq> ''max_lifetime'' \<Longrightarrow> honoured key v (cfg\<lparr>max_lifetime := x2\<rparr>) = honoured key v cfg"
  "key \<noteq> ''auto_create_table'' \<Longrightarrow> honoured key v (cfg\<lparr>auto_create_table := x3\<rparr>) = honoured key v cfg"
  "key \<noteq> ''table_name'' \<Longrightarrow> honoured key v (cfg\<lparr>table_name := x4\<rparr>) = honoured key v cfg"
  "key \<noteq> ''isolation_level'' \<Longrightarrow> honoured key v (cfg\<lparr>isolation_level := x5\<rparr>) = honoured key v cfg"
  "key \<noteq> ''persistent_statements'' \<Longrightarrow>
     honoured key v (cfg\<lparr>persistent_statements := x6\<rparr>) = honoured key v cfg"
  "key \<noteq> ''connect_timeout'' \<Longrightarrow> honoured key v (cfg\<lparr>connect_timeout := x2\<rparr>) = honoured key v cfg"
  "key \<noteq> ''idle_timeout'' \<Longrightarrow> honoured key v (cfg\<lparr>idle_timeout := x2\<rparr>) = honoured key v cfg"
  "key \<noteq> ''slow_acquire_threshold_secs'' \<Longrightarrow>
     honoured key v (cfg\<lparr>slow_acquire_threshold_secs := x2\<rparr>) = honoured key v cfg"
  "key \<noteq> ''slow_statements_threshold_secs'' \<Longrightarrow>
     honoured key v (cfg\<lparr>slow_statements_threshold_secs := x2\<rparr>) = honoured key v cfg"
  "key \<noteq> ''pooler'' \<Longrightarrow> honoured key v (cfg\<lparr>pooler := x3\<rparr>) = honoured key v cfg"
  "key \<noteq> ''hash_partitions'' \<Longrightarrow> honoured key v (cfg\<lparr>hash_partitions := x1\<rparr>) = honoured key v cfg"
  unfolding honoured_def by simp_all

lemma honoured_kept:
  assumes "honoured key value cfg" "key' \<noteq> key"
  shows "honoured key value (snd (merge_param key' value' cfg))"
proof (cases "key' \<in> set KNOWN_PARAMS")
  case True
  then show ?thesis
    using assms
    by (cases rule: known_cases) (simp_all add: merge_param_def split: option.split outcome.split)
qed (simp add: merge_param_unknown assms(1))

lemma param_honoured:
  assumes "key \<in> set KNOWN_PARAMS" "merge_param key value cfg = (Ok (), cfg')" "param_warnings key value = []"
  shows "honoured key value cfg'"
  using assms
proof (cases rule: known_cases)
  case 1
  then show ?thesis using assms(2,3)
    by (auto simp: honoured_def merge_param_def param_warnings_def connections_warnings_def split: option.splits if_splits)
next
  case 2
  then show ?thesis using assms(2,3)
    by (auto simp: honoured_def merge_param_def param_warnings_def connections_warnings_def split: option.splits if_splits)
next
  case 5
  then show ?thesis using assms(2)
    by (auto simp: honoured_def merge_param_def split: outcome.splits)
next
  case 13
  then show ?thesis using assms(2,3)
    by (auto simp: honoured_def merge_param_def param_warnings_def split: option.splits if_splits)
qed (use assms(2,3) in \<open>auto simp: honoured_def merge_param_def param_warnings_def bool_warnings_def
      dest!: secs_warned split: option.splits if_splits\<close>)

lemma unknown_warned:
  "\<lbrakk>key \<notin> set KNOWN_PARAMS; param_warnings key value = []\<rbrakk> \<Longrightarrow> key = [] \<or> key \<in> set SQLX_KNOWN_PARAMS"
  by (auto simp: param_warnings_def KNOWN_PARAMS_def split: if_splits)

subsection \<open>A silent merge honours the whole query\<close>

definition pair_honoured :: "string \<Rightarrow> pg_config \<Rightarrow> bool" where
  "pair_honoured pair cfg \<longleftrightarrow>
     (case split_once (CHR ''='') pair of
        Some (key, value) \<Rightarrow>
          (if key \<in> set KNOWN_PARAMS then honoured key (percent_decode value) cfg
           else key = [] \<or> key \<in> set SQLX_KNOWN_PARAMS)
      | None \<Rightarrow> pair \<notin> set KNOWN_PARAMS)"

lemma merge_log_silent:
  assumes "merge_log pairs seen cfg = ([], Ok (), cfg')"
  shows "list_all (\<lambda>p. pair_honoured p cfg') pairs \<and>
    (\<forall>k v. k \<in> set seen \<longrightarrow> k \<in> set KNOWN_PARAMS \<longrightarrow> honoured k v cfg \<longrightarrow> honoured k v cfg')"
  using assms
proof (induction pairs arbitrary: seen cfg)
  case (Cons pair pairs)
  show ?case
  proof (cases "split_once (CHR ''='') pair")
    case None
    with Cons.prems have "pair \<notin> set KNOWN_PARAMS" "merge_log pairs seen cfg = ([], Ok (), cfg')"
      by (auto split: prod.splits if_splits)
    with Cons.IH None show ?thesis by (simp add: pair_honoured_def)
  next
    case (Some kv)
    obtain key v where kv: "kv = (key, v)" by fastforce
    obtain r cfg1 where m: "merge_param key (percent_decode v) cfg = (r, cfg1)" by fastforce
    with Cons.prems Some kv have r: "r = Ok ()" by (cases r) (auto split: prod.splits)
    define seen1 where "seen1 = (if key \<in> set KNOWN_PARAMS then key # seen else seen)"
    have log: "merge_log pairs seen1 cfg1 = ([], Ok (), cfg')" and w: "param_warnings key (percent_decode v) = []"
      and fresh: "key \<in> set KNOWN_PARAMS \<Longrightarrow> key \<notin> set seen"
      using Cons.prems Some kv m r unfolding seen1_def by (auto simp: Let_def split: prod.splits if_splits)
    note ih = Cons.IH [OF log]
    have kept: "honoured k u cfg1" if "honoured k u cfg" "k \<noteq> key" for k u
      using honoured_kept [OF that(1), of key "percent_decode v"] that(2) m by simp
    show ?thesis
    proof (cases "key \<in> set KNOWN_PARAMS")
      case True
      then have "honoured key (percent_decode v) cfg1" using param_honoured [OF True] m r w by simp
      then have "pair_honoured pair cfg'" using ih True by (simp add: pair_honoured_def Some kv seen1_def)
      with ih kept fresh True show ?thesis by (auto simp: seen1_def)
    next
      case False
      then have "pair_honoured pair cfg'" using unknown_warned [OF False w] by (simp add: pair_honoured_def Some kv)
      with ih False m r show ?thesis by (auto simp: seen1_def merge_param_unknown)
    qed
  qed
qed simp


lemma quiet_url:
  "merge_url_log ''pg://h/d?pooler=on&sslmode=on&isolation_level=serializable'' default_config =
     ([], Ok (), default_config\<lparr>pooler := True, isolation_level := Serializable\<rparr>)"
  by code_simp


end
