(* ===== verification/Tune_Warnings.thy ===== *)
theory Tune_Warnings
  imports Tune_Props
begin

section \<open>The warnings of the tuning environment (src/tune.rs)\<close>

text \<open>
  \<^verbatim>\<open>PgTuneConfig::from_env\<close> never fails: it replaces a bad value and logs a warning.  Here the
  warnings are a result: for each its \<^verbatim>\<open>env\<close> field, which names the variable, and its message (the
  \<^verbatim>\<open>value\<close> field repeats what was read).  The property: when nothing is logged, every variable that is
  set has its effect exactly, and every other setting has its default.
\<close>

type_synonym warning = "string \<times> string"

subsection \<open>The helpers\<close>

definition u32_log :: "environment \<Rightarrow> string \<Rightarrow> nat \<Rightarrow> warning list" where
  "u32_log env key d =
     (case env key of
        Some raw \<Rightarrow>
          (case parse_u32 (trim raw) of
             Some _ \<Rightarrow> []
           | None \<Rightarrow> [(key, ''failed to parse as u32, using default '' @ fmt_nat d)])
      | None \<Rightarrow> [])"

definition i32_log :: "environment \<Rightarrow> string \<Rightarrow> int \<Rightarrow> warning list" where
  "i32_log env key d =
     (case env key of
        Some raw \<Rightarrow>
          (case parse_i32 (trim raw) of
             Some _ \<Rightarrow> []
           | None \<Rightarrow> [(key, ''failed to parse as i32, using default '' @ fmt_int d)])
      | None \<Rightarrow> [])"

definition f64_log :: "f64_io \<Rightarrow> environment \<Rightarrow> string \<Rightarrow> f64 \<Rightarrow> warning list" where
  "f64_log io env key d =
     (case env key of
        Some raw \<Rightarrow>
          (case parse_f64 io (trim raw) of
             Some _ \<Rightarrow> []
           | None \<Rightarrow> [(key, ''failed to parse as f64, using default '' @ show_f64 io d)])
      | None \<Rightarrow> [])"

definition str_log :: "environment \<Rightarrow> string \<Rightarrow> string \<Rightarrow> (string \<Rightarrow> bool) \<Rightarrow> warning list" where
  "str_log env key d validate =
     (case env key of
        Some raw \<Rightarrow>
          (if validate (trim raw) then []
           else [(key, ''invalid value, falling back to default '' @ quoted d)])
      | None \<Rightarrow> [])"

definition env_bool_log :: "environment \<Rightarrow> string \<Rightarrow> bool \<Rightarrow> warning list" where
  "env_bool_log env key d =
     (case env key of
        Some raw \<Rightarrow>
          (if to_ascii_lowercase (trim raw) \<in>
              {''true'', ''1'', ''yes'', ''on'', ''false'', ''0'', ''no'', ''off''} then []
           else [(key, ''unrecognized boolean value, falling back to default ''
                   @ quoted (if d then ''true'' else ''false''))])
      | None \<Rightarrow> [])"

definition duration_log :: "environment \<Rightarrow> string \<Rightarrow> nat \<Rightarrow> warning list" where
  "duration_log env key d =
     (case env key of
        Some v \<Rightarrow>
          (case parse_duration v of
             Some p \<Rightarrow>
               if p = 0 then [(key, ''zero duration is invalid (would cause immediate timeout), using default ''
                                @ fmt_nat d @ ''s'')]
               else []
           | None \<Rightarrow> [(key, ''failed to parse duration, using default '' @ fmt_nat d @ ''s'')])
      | None \<Rightarrow> [])"

subsection \<open>The range checks\<close>

definition pool_max_log :: "environment \<Rightarrow> warning list" where
  "pool_max_log env =
     (let key = ''PG_TUNED_POOL_MAX_CONNECTIONS'' in
      u32_log env key 20 @
      (if env_u32 env key 20 = 0 then [(key, ''pool_max=0 is invalid, using default 20'')] else []))"

definition pool_min_log :: "environment \<Rightarrow> warning list" where
  "pool_min_log env =
     (let key = ''PG_TUNED_POOL_MIN_CONNECTIONS'' in
      u32_log env key 5 @
      (if env_pool_max env < env_u32 env key 5
       then [(key, ''pool_min > pool_max, clamping to pool_max'')] else []))"

definition fillfactor_log :: "environment \<Rightarrow> warning list" where
  "fillfactor_log env =
     (let key = ''PG_TUNED_TABLE_FILLFACTOR''; v = env_i32 env key 90 in
      i32_log env key 90 @
      (if \<not> (1 \<le> v \<and> v \<le> 100) then [(key, ''out of range [1, 100], using default 90'')] else []))"

definition keepalive_count_log :: "environment \<Rightarrow> warning list" where
  "keepalive_count_log env =
     (let key = ''PG_TUNED_KEEPALIVE_COUNT''; v = env_u32 env key 5 in
      u32_log env key 5 @
      (if v = 0 then [(key, ''keepalive_count=0 disables TCP keepalive probes; ''
                         @ ''dead connections may not be detected, using default 5'')]
       else if 100 < v then [(key, ''unreasonably high keepalive count (>100), using default 5'')]
       else []))"

definition toast_threshold_log :: "environment \<Rightarrow> warning list" where
  "toast_threshold_log env =
     (let key = ''PG_TUNED_TABLE_TOAST_THRESHOLD''; v = env_i32 env key 2032 in
      i32_log env key 2032 @
      (if v < 128 then [(key, ''toast_tuple_target minimum is 128, using default 2032'')]
       else if 8160 < v then [(key, ''toast_tuple_target maximum is 8160 (8KB block), using default 2032'')]
       else []))"

definition partitions_log :: "environment \<Rightarrow> warning list" where
  "partitions_log env =
     (let key = ''PG_TUNED_TABLE_HASH_PARTITIONS''; v = env_u32 env key 1 in
      u32_log env key 1 @
      (if v = 0 then [(key, ''must be >= 1, using default 1'')]
       else if 1024 < v then [(key, ''unreasonably high (>1024), using default 1'')]
       else []))"

definition scale_log :: "f64_io \<Rightarrow> environment \<Rightarrow> string \<Rightarrow> f64 \<Rightarrow> string \<Rightarrow> warning list" where
  "scale_log io env key d text =
     (let v = env_f64 io env key d in
      f64_log io env key d @
      (if \<not> f64_is_finite v then [(key, ''NaN/Infinity not allowed, using default '' @ text)]
       else if \<not> unit_interval v then [(key, ''out of range [0.0, 1.0], using default '' @ text)]
       else []))"

definition nonneg_log :: "environment \<Rightarrow> string \<Rightarrow> int \<Rightarrow> warning list" where
  "nonneg_log env key d =
     i32_log env key d @
     (if env_i32 env key d < 0 then [(key, ''must be >= 0, using default '' @ fmt_int d)] else [])"

definition stats_target_log :: "environment \<Rightarrow> warning list" where
  "stats_target_log env =
     (let key = ''PG_TUNED_QUERY_STATS_TARGET''; v = env_i32 env key 500 in
      i32_log env key 500 @
      (if \<not> (- 1 \<le> v \<and> v \<le> 10000) then [(key, ''out of range [-1, 10000], using default 500'')] else []))"

definition max_connections_log :: "environment \<Rightarrow> warning list" where
  "max_connections_log env =
     (let key = ''PG_TUNED_SERVER_MAX_CONNECTIONS''; v = env_i32 env key 100 in
      i32_log env key 100 @
      (if v \<le> 0 then [(key, ''must be > 0, using default 100'')]
       else if 10000 < v then [(key, ''unreasonably large (>10000), using default 100'')]
       else []))"

definition page_cost_log :: "f64_io \<Rightarrow> environment \<Rightarrow> warning list" where
  "page_cost_log io env =
     (let key = ''PG_TUNED_SERVER_RANDOM_PAGE_COST''; v = env_f64 io env key f64_11 in
      f64_log io env key f64_11 @
      (if \<not> f64_is_finite v then [(key, ''NaN/Infinity not allowed, using default 1.1'')]
       else if f64_le v f64_0 then [(key, ''must be > 0 (PG rejects zero/negative), using default 1.1'')]
       else []))"

definition checkpoint_log :: "f64_io \<Rightarrow> environment \<Rightarrow> warning list" where
  "checkpoint_log io env =
     (let key = ''PG_TUNED_SERVER_CHECKPOINT_TARGET''; v = env_f64 io env key f64_09 in
      f64_log io env key f64_09 @
      (if \<not> unit_interval v then [(key, ''out of range [0.0, 1.0], clamping'')] else []))"

text \<open>All warnings of \<^verbatim>\<open>from_env\<close>, in the order of its fields.\<close>

definition pool_log :: "environment \<Rightarrow> warning list" where
  "pool_log env =
     pool_max_log env @ pool_min_log env @ fillfactor_log env @
     duration_log env ''PG_TUNED_POOL_ACQUIRE_TIMEOUT'' 10 @
     duration_log env ''PG_TUNED_POOL_IDLE_TIMEOUT'' 600 @
     duration_log env ''PG_TUNED_POOL_MAX_LIFETIME'' 1800 @
     duration_log env ''PG_TUNED_KEEPALIVE_IDLE'' 60 @
     duration_log env ''PG_TUNED_KEEPALIVE_INTERVAL'' 10 @
     keepalive_count_log env"

definition table_log :: "f64_io \<Rightarrow> environment \<Rightarrow> warning list" where
  "table_log io env =
     str_log env ''PG_TUNED_TABLE_TOAST_STORAGE'' ''external'' validate_toast_storage @
     toast_threshold_log env @ env_bool_log env ''PG_TUNED_TABLE_UNLOGGED'' False @ partitions_log env @
     scale_log io env ''PG_TUNED_AUTOVAC_VACUUM_SCALE'' f64_005 ''0.05'' @
     nonneg_log env ''PG_TUNED_AUTOVAC_VACUUM_THRESHOLD'' 50 @
     scale_log io env ''PG_TUNED_AUTOVAC_ANALYZE_SCALE'' f64_002 ''0.02'' @
     nonneg_log env ''PG_TUNED_AUTOVAC_VACUUM_COST_LIMIT'' 2000 @
     nonneg_log env ''PG_TUNED_AUTOVAC_VACUUM_COST_DELAY'' 1"

definition server_log :: "f64_io \<Rightarrow> environment \<Rightarrow> warning list" where
  "server_log io env =
     duration_log env ''PG_TUNED_QUERY_STATEMENT_TIMEOUT'' 30 @
     duration_log env ''PG_TUNED_QUERY_IDLE_TXN_TIMEOUT'' 60 @
     duration_log env ''PG_TUNED_QUERY_LOCK_TIMEOUT'' 10 @ stats_target_log env @
     str_log env ''PG_TUNED_SERVER_SHARED_BUFFERS'' ''256MB'' validate_pg_memory_size @
     str_log env ''PG_TUNED_SERVER_WORK_MEM'' ''64MB'' validate_pg_memory_size @
     str_log env ''PG_TUNED_SERVER_MAINTENANCE_WORK_MEM'' ''256MB'' validate_pg_memory_size @
     str_log env ''PG_TUNED_SERVER_WAL_BUFFERS'' ''16MB'' validate_pg_memory_size @
     max_connections_log env @
     str_log env ''PG_TUNED_SERVER_EFFECTIVE_CACHE_SIZE'' ''1GB'' validate_pg_memory_size @
     page_cost_log io env @ checkpoint_log io env"

definition from_env_log :: "f64_io \<Rightarrow> environment \<Rightarrow> warning list" where
  "from_env_log io env = pool_log env @ table_log io env @ server_log io env"

text \<open>The one line \<^verbatim>\<open>log_server_hints\<close> logs.\<close>

definition log_server_hints :: "f64_io \<Rightarrow> tune \<Rightarrow> string" where
  "log_server_hints io tn =
     ''PG server params (require postgresql.conf + restart): shared_buffers='' @ server_shared_buffers tn
     @ '', wal_buffers='' @ server_wal_buffers tn @ '', max_connections='' @ fmt_int (server_max_connections tn)
     @ '', checkpoint_completion_target='' @ show_f64 io (server_checkpoint_target tn)"

subsection \<open>What a variable settles\<close>

definition settles :: "environment \<Rightarrow> string \<Rightarrow> (string \<Rightarrow> 'a option) \<Rightarrow> 'a \<Rightarrow> 'a \<Rightarrow> bool" where
  "settles env key parse d v \<longleftrightarrow> (case env key of None \<Rightarrow> v = d | Some raw \<Rightarrow> parse (trim raw) = Some v)"

definition read_bool :: "string \<Rightarrow> bool option" where
  "read_bool v =
     (if to_ascii_lowercase v \<in> {''true'', ''1'', ''yes'', ''on''} then Some True
      else if to_ascii_lowercase v \<in> {''false'', ''0'', ''no'', ''off''} then Some False
      else None)"

lemma parse_duration_trim: "parse_duration (trim raw) = parse_duration raw"
  by (simp add: parse_duration_def trim_idem)

lemma logs_settle:
  "u32_log env key n = [] \<Longrightarrow> settles env key parse_u32 n (env_u32 env key n)"
  "i32_log env key i = [] \<Longrightarrow> settles env key parse_i32 i (env_i32 env key i)"
  "f64_log io env key x = [] \<Longrightarrow> settles env key (parse_f64 io) x (env_f64 io env key x)"
  "str_log env key t validate = [] \<Longrightarrow> settles env key Some t (env_str_validated env key t validate)"
  "env_bool_log env key b = [] \<Longrightarrow> settles env key read_bool b (env_bool env key b)"
  "duration_log env key secs = [] \<Longrightarrow>
     settles env key parse_duration (from_secs secs) (env_duration_nonzero env key secs)"
  by (auto simp: settles_def u32_log_def i32_log_def f64_log_def str_log_def env_bool_log_def duration_log_def
      env_u32_def env_i32_def env_f64_def env_str_validated_def env_bool_def env_duration_nonzero_def
      read_bool_def Let_def parse_duration_trim split: option.splits if_splits)

text \<open>A range check that logs nothing keeps the value.\<close>

lemma checks_settle:
  "pool_max_log env = [] \<Longrightarrow> settles env ''PG_TUNED_POOL_MAX_CONNECTIONS'' parse_u32 20 (env_pool_max env)"
  "pool_min_log env = [] \<Longrightarrow> settles env ''PG_TUNED_POOL_MIN_CONNECTIONS'' parse_u32 5 (env_pool_min env)"
  "fillfactor_log env = [] \<Longrightarrow> settles env ''PG_TUNED_TABLE_FILLFACTOR'' parse_i32 90 (env_fillfactor env)"
  "keepalive_count_log env = [] \<Longrightarrow>
     settles env ''PG_TUNED_KEEPALIVE_COUNT'' parse_u32 5 (env_keepalive_count env)"
  "toast_threshold_log env = [] \<Longrightarrow>
     settles env ''PG_TUNED_TABLE_TOAST_THRESHOLD'' parse_i32 2032 (env_toast_threshold env)"
  "partitions_log env = [] \<Longrightarrow> settles env ''PG_TUNED_TABLE_HASH_PARTITIONS'' parse_u32 1 (env_partitions env)"
  "scale_log io env key x text = [] \<Longrightarrow> settles env key (parse_f64 io) x (env_scale io env key x)"
  "nonneg_log env key i = [] \<Longrightarrow> settles env key parse_i32 i (env_nonneg env key i)"
  "stats_target_log env = [] \<Longrightarrow> settles env ''PG_TUNED_QUERY_STATS_TARGET'' parse_i32 500 (env_stats_target env)"
  "max_connections_log env = [] \<Longrightarrow>
     settles env ''PG_TUNED_SERVER_MAX_CONNECTIONS'' parse_i32 100 (env_max_connections env)"
  "page_cost_log io env = [] \<Longrightarrow>
     settles env ''PG_TUNED_SERVER_RANDOM_PAGE_COST'' (parse_f64 io) f64_11 (env_random_page_cost io env)"
  unfolding pool_max_log_def pool_min_log_def fillfactor_log_def keepalive_count_log_def
    toast_threshold_log_def partitions_log_def scale_log_def nonneg_log_def stats_target_log_def
    max_connections_log_def page_cost_log_def env_pool_min_def env_fillfactor_def
    env_keepalive_count_def env_toast_threshold_def env_partitions_def env_scale_def env_nonneg_def
    env_stats_target_def env_max_connections_def env_random_page_cost_def Let_def
  by (auto dest!: logs_settle simp: env_pool_max_def Let_def split: if_splits)

lemma unit_clamp: "unit_interval x \<Longrightarrow> f64_clamp01 x = x"
  by (auto simp: unit_interval_def f64_clamp01_def f64_le_def f64_lt_def)

lemma checkpoint_settles:
  "checkpoint_log io env = [] \<Longrightarrow>
     settles env ''PG_TUNED_SERVER_CHECKPOINT_TARGET'' (parse_f64 io) f64_09 (env_checkpoint_target io env)"
  by (auto simp: checkpoint_log_def env_checkpoint_target_def Let_def unit_clamp dest!: logs_settle split: if_splits)

text \<open>The configuration \<open>tn\<close> is what the environment asks for, variable by variable.\<close>

definition pool_as_set :: "environment \<Rightarrow> tune \<Rightarrow> bool" where
  "pool_as_set env tn \<longleftrightarrow>
     settles env ''PG_TUNED_POOL_MAX_CONNECTIONS'' parse_u32 20 (pool_max tn) \<and>
     settles env ''PG_TUNED_POOL_MIN_CONNECTIONS'' parse_u32 5 (pool_min tn) \<and>
     settles env ''PG_TUNED_POOL_ACQUIRE_TIMEOUT'' parse_duration (from_secs 10) (pool_acquire_timeout tn) \<and>
     settles env ''PG_TUNED_POOL_IDLE_TIMEOUT'' parse_duration (from_secs 600) (pool_idle_timeout tn) \<and>
     settles env ''PG_TUNED_POOL_MAX_LIFETIME'' parse_duration (from_secs 1800) (pool_max_lifetime tn) \<and>
     settles env ''PG_TUNED_KEEPALIVE_IDLE'' parse_duration (from_secs 60) (keepalive_idle tn) \<and>
     settles env ''PG_TUNED_KEEPALIVE_INTERVAL'' parse_duration (from_secs 10) (keepalive_interval tn) \<and>
     settles env ''PG_TUNED_KEEPALIVE_COUNT'' parse_u32 5 (keepalive_count tn) \<and>
     settles env ''PG_TUNED_TABLE_FILLFACTOR'' parse_i32 90 (fillfactor tn)"

definition table_as_set :: "f64_io \<Rightarrow> environment \<Rightarrow> tune \<Rightarrow> bool" where
  "table_as_set io env tn \<longleftrightarrow>
     settles env ''PG_TUNED_TABLE_TOAST_STORAGE'' Some ''external'' (toast_storage tn) \<and>
     settles env ''PG_TUNED_TABLE_TOAST_THRESHOLD'' parse_i32 2032 (toast_threshold tn) \<and>
     settles env ''PG_TUNED_TABLE_UNLOGGED'' read_bool False (use_unlogged tn) \<and>
     settles env ''PG_TUNED_TABLE_HASH_PARTITIONS'' parse_u32 1 (partitions tn) \<and>
     settles env ''PG_TUNED_AUTOVAC_VACUUM_SCALE'' (parse_f64 io) f64_005 (autovac_vacuum_scale tn) \<and>
     settles env ''PG_TUNED_AUTOVAC_VACUUM_THRESHOLD'' parse_i32 50 (autovac_vacuum_threshold tn) \<and>
     settles env ''PG_TUNED_AUTOVAC_ANALYZE_SCALE'' (parse_f64 io) f64_002 (autovac_analyze_scale tn) \<and>
     settles env ''PG_TUNED_AUTOVAC_VACUUM_COST_LIMIT'' parse_i32 2000 (autovac_vacuum_cost_limit tn) \<and>
     settles env ''PG_TUNED_AUTOVAC_VACUUM_COST_DELAY'' parse_i32 1 (autovac_vacuum_cost_delay tn)"

definition server_as_set :: "f64_io \<Rightarrow> environment \<Rightarrow> tune \<Rightarrow> bool" where
  "server_as_set io env tn \<longleftrightarrow>
     settles env ''PG_TUNED_QUERY_STATEMENT_TIMEOUT'' parse_duration (from_secs 30) (statement_timeout tn) \<and>
     settles env ''PG_TUNED_QUERY_IDLE_TXN_TIMEOUT'' parse_duration (from_secs 60) (idle_txn_timeout tn) \<and>
     settles env ''PG_TUNED_QUERY_LOCK_TIMEOUT'' parse_duration (from_secs 10) (lock_timeout tn) \<and>
     settles env ''PG_TUNED_QUERY_STATS_TARGET'' parse_i32 500 (stats_target tn) \<and>
     settles env ''PG_TUNED_SERVER_SHARED_BUFFERS'' Some ''256MB'' (server_shared_buffers tn) \<and>
     settles env ''PG_TUNED_SERVER_WORK_MEM'' Some ''64MB'' (server_work_mem tn) \<and>
     settles env ''PG_TUNED_SERVER_MAINTENANCE_WORK_MEM'' Some ''256MB'' (server_maintenance_work_mem tn) \<and>
     settles env ''PG_TUNED_SERVER_WAL_BUFFERS'' Some ''16MB'' (server_wal_buffers tn) \<and>
     settles env ''PG_TUNED_SERVER_MAX_CONNECTIONS'' parse_i32 100 (server_max_connections tn) \<and>
     settles env ''PG_TUNED_SERVER_EFFECTIVE_CACHE_SIZE'' Some ''1GB'' (server_effective_cache_size tn) \<and>
     settles env ''PG_TUNED_SERVER_RANDOM_PAGE_COST'' (parse_f64 io) f64_11 (server_random_page_cost tn) \<and>
     settles env ''PG_TUNED_SERVER_CHECKPOINT_TARGET'' (parse_f64 io) f64_09 (server_checkpoint_target tn)"

lemma pool_log_silent: "pool_log env = [] \<Longrightarrow> pool_as_set env (tune_from_env io env)"
  by (simp add: pool_as_set_def tune_from_env_def pool_log_def logs_settle checks_settle)

lemma table_log_silent: "table_log io env = [] \<Longrightarrow> table_as_set io env (tune_from_env io env)"
  by (auto simp: table_as_set_def tune_from_env_def table_log_def simp del: One_nat_def
      intro: logs_settle checks_settle)

lemma server_log_silent: "server_log io env = [] \<Longrightarrow> server_as_set io env (tune_from_env io env)"
  by (simp add: server_as_set_def tune_from_env_def server_log_def logs_settle checks_settle checkpoint_settles)

subsection \<open>A silent environment has its effect in full\<close>

text \<open>
  C39. When \<^verbatim>\<open>from_env\<close> logs no warning, every \<^verbatim>\<open>PG_TUNED\<close> variable that is set gives its setting
  exactly the value its text reads as, and every variable that is not set leaves the documented
  default: nothing was replaced, clamped or misread.
\<close>

theorem silent_environment_as_set:
  assumes "from_env_log io env = []"
  shows "pool_as_set env (tune_from_env io env) \<and> table_as_set io env (tune_from_env io env) \<and>
    server_as_set io env (tune_from_env io env)"
  using assms pool_log_silent table_log_silent server_log_silent by (simp add: from_env_log_def)

text \<open>A silent environment with one variable set; the decimal conversion is not used.\<close>

definition quiet_env :: environment where
  "quiet_env = [''PG_TUNED_POOL_MAX_CONNECTIONS'' \<mapsto> ''40'']"

lemma read_40: "parse_u32 (trim ''40'') = Some 40"
proof -
  have "''40'' = fmt_nat 40" by (simp add: fmt_nat.simps)
  then show ?thesis
    using alnum_trim [OF alnum_fmt_nat, of 40] parse_unsigned_fmt [of 40 u32_max] by (simp add: parse_u32_def u32_max_def)
qed

lemma more_f64: "unit_interval f64_09" "\<not> f64_le f64_11 f64_0"
  by (simp_all add: unit_interval_def f64_defs)

lemma quiet_env_silent: "from_env_log \<lparr>parse_f64 = \<lambda>_. None, show_f64 = \<lambda>_. []\<rparr> quiet_env = []"
proof -
  let ?io = "\<lparr>parse_f64 = \<lambda>_. None, show_f64 = \<lambda>_. []\<rparr>"
  have "pool_log quiet_env = []"
    by (simp add: pool_log_def pool_max_log_def pool_min_log_def fillfactor_log_def duration_log_def
        keepalive_count_log_def u32_log_def i32_log_def env_u32_def env_i32_def env_pool_max_def quiet_env_def read_40)
  moreover have "table_log ?io quiet_env = []"
    using f64_consts
    by (simp add: table_log_def str_log_def toast_threshold_log_def env_bool_log_def partitions_log_def
        scale_log_def nonneg_log_def f64_log_def u32_log_def i32_log_def env_u32_def env_i32_def env_f64_def
        quiet_env_def)
  moreover have "server_log ?io quiet_env = []"
    using f64_consts more_f64
    by (simp add: server_log_def duration_log_def str_log_def stats_target_log_def max_connections_log_def
        page_cost_log_def checkpoint_log_def f64_log_def i32_log_def env_i32_def env_f64_def quiet_env_def)
  ultimately show ?thesis by (simp add: from_env_log_def)
qed

lemma silent_environment_as_set_witness:
  "pool_max (tune_from_env \<lparr>parse_f64 = \<lambda>_. None, show_f64 = \<lambda>_. []\<rparr> quiet_env) = 40 \<and>
   pool_min (tune_from_env \<lparr>parse_f64 = \<lambda>_. None, show_f64 = \<lambda>_. []\<rparr> quiet_env) = 5"
proof -
  show ?thesis
    using silent_environment_as_set [OF quiet_env_silent] read_40
    by (simp add: pool_as_set_def settles_def quiet_env_def)
qed

end
