(* ===== verification/Tune_Tests.thy ===== *)
theory Tune_Tests
  imports Source_Tests "HOL-Library.Code_Target_Nat"
begin

section \<open>The unit tests of tune.rs\<close>

text \<open>
  As in \<open>Source_Tests\<close>.  A test that sets variables runs in an arbitrary environment in which they are
  set one after the other, as the test does; what it removes at its end has no effect on it.  A test
  that should panic demands \<open>Panic\<close>, whose message is not modelled.  Floating-point values are compared with
  the equality of IEEE 754.
\<close>

text \<open>For evaluation, the binary search is replaced by the membership test it is equal to.\<close>

declare is_sql_reserved_iff [code]

subsection \<open>The tests of config.rs that read numbers\<close>

lemma config_number_tests_pass:
  "test_merge_url_params_fragment"
  "test_min_connections_before_max_cross_validation"
  "test_timeout_zero_rejected"
  "test_slow_threshold_zero_rejected"
  "test_hash_partitions_url_param"
  "test_min_connections_zero_warning"
  by code_simp+

subsection \<open>Vocabulary of the tests\<close>

definition set_var :: "string \<Rightarrow> string \<Rightarrow> environment \<Rightarrow> environment" where
  "set_var key v env = env(key \<mapsto> v)"

definition remove_var :: "string \<Rightarrow> environment \<Rightarrow> environment" where
  "remove_var key env = env(key := None)"

definition f64_eq :: "f64 \<Rightarrow> f64 \<Rightarrow> bool" where
  "f64_eq x y \<longleftrightarrow> f64_le x y \<and> f64_le y x"

definition f64_07 :: f64 where "f64_07 = 0x3fe6666666666666"
definition f64_01 :: f64 where "f64_01 = 0x3fb999999999999a"
definition f64_2 :: f64 where "f64_2 = 0x4000000000000000"
definition f64_15 :: f64 where "f64_15 = 0x3ff8000000000000"
definition f64_m1 :: f64 where "f64_m1 = 0xbff0000000000000"
definition f64_m05 :: f64 where "f64_m05 = 0xbfe0000000000000"
definition f64_m01 :: f64 where "f64_m01 = 0xbfb999999999999a"
definition f64_m15 :: f64 where "f64_m15 = 0xbff8000000000000"
definition f64_nan :: f64 where "f64_nan = 0x7ff8000000000000"
definition f64_inf :: f64 where "f64_inf = 0x7ff0000000000000"

lemmas test_f64 = f64_07_def f64_01_def f64_2_def f64_15_def f64_m1_def f64_m05_def f64_m01_def f64_m15_def
  f64_nan_def f64_inf_def

text \<open>What the tests rely on of \<^verbatim>\<open>f64::from_str\<close> and of the printing of a float: the decimals they use.\<close>

definition reads_decimals :: "f64_io \<Rightarrow> bool" where
  "reads_decimals io \<longleftrightarrow> parse_f64 io ''nan'' = Some f64_nan \<and> parse_f64 io ''inf'' = Some f64_inf \<and>
     parse_f64 io ''0'' = Some f64_0 \<and> parse_f64 io ''0.0'' = Some f64_0 \<and> parse_f64 io ''0.1'' = Some f64_01 \<and>
     parse_f64 io ''0.7'' = Some f64_07 \<and> parse_f64 io ''1.0'' = Some f64_1 \<and> parse_f64 io ''1.5'' = Some f64_15 \<and>
     parse_f64 io ''2.0'' = Some f64_2 \<and> parse_f64 io ''-0.1'' = Some f64_m01 \<and>
     parse_f64 io ''-0.5'' = Some f64_m05 \<and> parse_f64 io ''-1.5'' = Some f64_m15"

definition shows_decimals :: "f64_io \<Rightarrow> bool" where
  "shows_decimals io \<longleftrightarrow> show_f64 io f64_005 = ''0.05'' \<and> show_f64 io f64_002 = ''0.02'' \<and>
     show_f64 io f64_11 = ''1.1''"

text \<open>\<^verbatim>\<open>str::lines\<close>: a final line break ends the last line, a carriage return before a break is dropped.\<close>

definition str_lines :: "string \<Rightarrow> string list" where
  "str_lines s = (let ls = split_on (CHR 0x0A) s in
     map (\<lambda>l. case strip_suffix [CHR 0x0D] l of Some m \<Rightarrow> m | None \<Rightarrow> l) (butlast ls) @
     (if last ls = [] then [] else [last ls]))"

subsection \<open>src/tune.rs\<close>

definition test_defaults :: bool where
  "test_defaults \<longleftrightarrow>
     pool_max default_tune = 20 \<and>
     fillfactor default_tune = 90 \<and>
     \<not> use_unlogged default_tune \<and>
     statement_timeout default_tune = from_secs 30 \<and>
     keepalive_idle default_tune = from_secs 60 \<and>
     keepalive_interval default_tune = from_secs 10 \<and>
     keepalive_count default_tune = 5"

definition test_parse_duration :: bool where
  "test_parse_duration \<longleftrightarrow>
     parse_duration ''10s'' = Some (from_secs 10) \<and>
     parse_duration ''5m'' = Some (from_secs 300) \<and>
     parse_duration ''2h'' = Some (from_secs 7200) \<and>
     parse_duration ''500ms'' = Some (from_millis 500) \<and>
     parse_duration ''45'' = Some (from_secs 45) \<and>
     parse_duration ''abc'' = None"

definition test_session_sql_contains_all_params :: "f64_io \<Rightarrow> bool" where
  "test_session_sql_contains_all_params io \<longleftrightarrow>
     returns (session_sql io default_tune) (\<lambda>sql.
       contains sql ''statement_timeout'' \<and>
       contains sql ''idle_in_transaction_session_timeout'' \<and>
       contains sql ''lock_timeout'' \<and>
       contains sql ''default_statistics_target'' \<and>
       contains sql ''work_mem'' \<and>
       contains sql ''maintenance_work_mem'' \<and>
       contains sql ''random_page_cost'' \<and>
       contains sql ''effective_cache_size'')"

definition test_create_table_sql :: bool where
  "test_create_table_sql \<longleftrightarrow>
     returns (create_table_sql default_tune ''kv'') (\<lambda>sql.
       contains sql ''CREATE TABLE IF NOT EXISTS kv'' \<and>
       \<not> contains sql ''UNLOGGED'') \<and>
     returns (create_table_sql (default_tune\<lparr>use_unlogged := True\<rparr>) ''kv_test'') (\<lambda>sql2.
       contains sql2 ''CREATE UNLOGGED TABLE IF NOT EXISTS kv_test'')"

definition test_tune_table_sql :: "f64_io \<Rightarrow> bool" where
  "test_tune_table_sql io \<longleftrightarrow>
     returns (tune_table_sql io default_tune ''kv'') (\<lambda>sql.
       contains sql ''fillfactor = 90'' \<and>
       contains sql ''STORAGE external'' \<and>
       contains sql ''toast_tuple_target = 2032'' \<and>
       contains sql ''autovacuum_vacuum_scale_factor = 0.05'' \<and>
       \<not> contains sql ''SET UNLOGGED'')"

definition test_validate_pg_memory_size :: bool where
  "test_validate_pg_memory_size \<longleftrightarrow>
     validate_pg_memory_size ''64MB'' \<and>
     validate_pg_memory_size ''1GB'' \<and>
     validate_pg_memory_size ''256kB'' \<and>
     validate_pg_memory_size ''2TB'' \<and>
     validate_pg_memory_size ''1024'' \<and>
     \<not> validate_pg_memory_size '''' \<and>
     \<not> validate_pg_memory_size (''64MB'' @ [CHR 0x27] @ ''; DROP TABLE kv; --'') \<and>
     \<not> validate_pg_memory_size ''abc'' \<and>
     \<not> validate_pg_memory_size ''64mb''"

definition test_validate_toast_storage :: bool where
  "test_validate_toast_storage \<longleftrightarrow>
     validate_toast_storage ''external'' \<and>
     validate_toast_storage ''extended'' \<and>
     validate_toast_storage ''main'' \<and>
     validate_toast_storage ''plain'' \<and>
     \<not> validate_toast_storage (''evil'' @ [CHR 0x27] @ ''; DROP TABLE kv; --'') \<and>
     \<not> validate_toast_storage ''EXTERNAL''"

definition test_env_bool :: "environment \<Rightarrow> bool" where
  "test_env_bool env \<longleftrightarrow>
     (let k = ''TEST_ENV_BOOL_UNSET''; env = remove_var k env in
       env_bool env k True \<and> \<not> env_bool env k False \<and>
       list_all (\<lambda>v. env_bool (set_var k v env) k False)
         [''true'', ''1'', ''yes'', ''on'', ''TRUE'', ''Yes'', ''ON''] \<and>
       list_all (\<lambda>v. \<not> env_bool (set_var k v env) k True)
         [''false'', ''0'', ''no'', ''off'', ''FALSE'', ''No'', ''OFF''] \<and>
       (let env = set_var k ''maybe'' env in env_bool env k True \<and> \<not> env_bool env k False))"

definition test_checkpoint_target_clamping :: "f64_io \<Rightarrow> environment \<Rightarrow> bool" where
  "test_checkpoint_target_clamping io env \<longleftrightarrow>
     (let env = set_var ''PG_TUNED_SERVER_CHECKPOINT_TARGET'' ''1.5'' env; c = tune_from_env io env in
     f64_eq (server_checkpoint_target c) f64_1 \<and>
    (let env = set_var ''PG_TUNED_SERVER_CHECKPOINT_TARGET'' ''-0.5'' env; c = tune_from_env io env in
     f64_eq (server_checkpoint_target c) f64_0 \<and>
    (let env = set_var ''PG_TUNED_SERVER_CHECKPOINT_TARGET'' ''0.7'' env; c = tune_from_env io env in
     f64_eq (server_checkpoint_target c) f64_07 \<and>
    (let env = set_var ''PG_TUNED_SERVER_CHECKPOINT_TARGET'' ''0.0'' env; c = tune_from_env io env in
     f64_eq (server_checkpoint_target c) f64_0 \<and>
    (let env = set_var ''PG_TUNED_SERVER_CHECKPOINT_TARGET'' ''1.0'' env; c = tune_from_env io env in
     f64_eq (server_checkpoint_target c) f64_1)))))"

definition test_pool_max_zero_fallback :: "f64_io \<Rightarrow> environment \<Rightarrow> bool" where
  "test_pool_max_zero_fallback io env \<longleftrightarrow>
     (let env = set_var ''PG_TUNED_POOL_MAX_CONNECTIONS'' ''0'' env; c = tune_from_env io env in
     pool_max c = 20)"

definition test_pool_min_exceeds_max_clamped :: "f64_io \<Rightarrow> environment \<Rightarrow> bool" where
  "test_pool_min_exceeds_max_clamped io env \<longleftrightarrow>
     (let env = set_var ''PG_TUNED_POOL_MAX_CONNECTIONS'' ''5'' env;
         env = set_var ''PG_TUNED_POOL_MIN_CONNECTIONS'' ''10'' env; c = tune_from_env io env in
     pool_max c = 5 \<and> pool_min c = 5)"

definition test_fillfactor_out_of_range :: "f64_io \<Rightarrow> environment \<Rightarrow> bool" where
  "test_fillfactor_out_of_range io env \<longleftrightarrow>
     (let env = set_var ''PG_TUNED_TABLE_FILLFACTOR'' ''0'' env; c = tune_from_env io env in
     fillfactor c = 90 \<and>
    (let env = set_var ''PG_TUNED_TABLE_FILLFACTOR'' ''101'' env; c = tune_from_env io env in
     fillfactor c = 90 \<and>
    (let env = set_var ''PG_TUNED_TABLE_FILLFACTOR'' ''-5'' env; c = tune_from_env io env in
     fillfactor c = 90 \<and>
    (let env = set_var ''PG_TUNED_TABLE_FILLFACTOR'' ''50'' env; c = tune_from_env io env in
     fillfactor c = 50 \<and>
    (let env = set_var ''PG_TUNED_TABLE_FILLFACTOR'' ''1'' env; c = tune_from_env io env in
     fillfactor c = 1 \<and>
    (let env = set_var ''PG_TUNED_TABLE_FILLFACTOR'' ''100'' env; c = tune_from_env io env in
     fillfactor c = 100))))))"

definition test_tune_table_sql_rejects_bad_toast :: "f64_io \<Rightarrow> bool" where
  "test_tune_table_sql_rejects_bad_toast io \<longleftrightarrow>
     tune_table_sql io (default_tune\<lparr>toast_storage := (''evil'' @ [CHR 0x27] @ ''; DROP TABLE kv; --'')\<rparr>) ''kv'' = Panic"

definition test_tune_table_sql_rejects_bad_fillfactor :: "f64_io \<Rightarrow> bool" where
  "test_tune_table_sql_rejects_bad_fillfactor io \<longleftrightarrow>
     tune_table_sql io (default_tune\<lparr>fillfactor := 0\<rparr>) ''kv'' = Panic"

definition test_f64_nan_infinity_fallback :: "f64_io \<Rightarrow> environment \<Rightarrow> bool" where
  "test_f64_nan_infinity_fallback io env \<longleftrightarrow>
     (let env = set_var ''PG_TUNED_AUTOVAC_VACUUM_SCALE'' ''nan'' env; c = tune_from_env io env in
     f64_eq (autovac_vacuum_scale c) f64_005 \<and>
    (let env = set_var ''PG_TUNED_AUTOVAC_VACUUM_SCALE'' ''inf'' env; c = tune_from_env io env in
     f64_eq (autovac_vacuum_scale c) f64_005 \<and>
    (let env = set_var ''PG_TUNED_AUTOVAC_ANALYZE_SCALE'' ''nan'' env; c = tune_from_env io env in
     f64_eq (autovac_analyze_scale c) f64_002 \<and>
    (let env = set_var ''PG_TUNED_SERVER_RANDOM_PAGE_COST'' ''inf'' env; c = tune_from_env io env in
     f64_eq (server_random_page_cost c) f64_11 \<and>
    (let env = set_var ''PG_TUNED_AUTOVAC_VACUUM_SCALE'' ''0.1'' env; c = tune_from_env io env in
     f64_eq (autovac_vacuum_scale c) f64_01)))))"

definition test_toast_threshold_min_value :: "f64_io \<Rightarrow> environment \<Rightarrow> bool" where
  "test_toast_threshold_min_value io env \<longleftrightarrow>
     (let env = set_var ''PG_TUNED_TABLE_TOAST_THRESHOLD'' ''0'' env; c = tune_from_env io env in
     toast_threshold c = 2032 \<and>
    (let env = set_var ''PG_TUNED_TABLE_TOAST_THRESHOLD'' ''127'' env; c = tune_from_env io env in
     toast_threshold c = 2032 \<and>
    (let env = set_var ''PG_TUNED_TABLE_TOAST_THRESHOLD'' ''128'' env; c = tune_from_env io env in
     toast_threshold c = 128 \<and>
    (let env = set_var ''PG_TUNED_TABLE_TOAST_THRESHOLD'' ''2032'' env; c = tune_from_env io env in
     toast_threshold c = 2032))))"

definition test_autovac_nonneg_validation :: "f64_io \<Rightarrow> environment \<Rightarrow> bool" where
  "test_autovac_nonneg_validation io env \<longleftrightarrow>
     (let env = set_var ''PG_TUNED_AUTOVAC_VACUUM_COST_LIMIT'' ''-1'' env; c = tune_from_env io env in
     autovac_vacuum_cost_limit c = 2000 \<and>
    (let env = set_var ''PG_TUNED_AUTOVAC_VACUUM_COST_DELAY'' ''-5'' env; c = tune_from_env io env in
     autovac_vacuum_cost_delay c = 1 \<and>
    (let env = set_var ''PG_TUNED_AUTOVAC_VACUUM_COST_LIMIT'' ''0'' env; c = tune_from_env io env in
     autovac_vacuum_cost_limit c = 0 \<and>
    (let env = set_var ''PG_TUNED_AUTOVAC_VACUUM_COST_DELAY'' ''0'' env; c = tune_from_env io env in
     autovac_vacuum_cost_delay c = 0))))"

definition test_stats_target_range_validation :: "f64_io \<Rightarrow> environment \<Rightarrow> bool" where
  "test_stats_target_range_validation io env \<longleftrightarrow>
     (let env = set_var ''PG_TUNED_QUERY_STATS_TARGET'' ''-2'' env; c = tune_from_env io env in
     stats_target c = 500 \<and>
    (let env = set_var ''PG_TUNED_QUERY_STATS_TARGET'' ''10001'' env; c = tune_from_env io env in
     stats_target c = 500 \<and>
    (let env = set_var ''PG_TUNED_QUERY_STATS_TARGET'' ''-1'' env; c = tune_from_env io env in
     stats_target c = - 1 \<and>
    (let env = set_var ''PG_TUNED_QUERY_STATS_TARGET'' ''10000'' env; c = tune_from_env io env in
     stats_target c = 10000 \<and>
    (let env = set_var ''PG_TUNED_QUERY_STATS_TARGET'' ''500'' env; c = tune_from_env io env in
     stats_target c = 500)))))"

definition test_autovac_vacuum_threshold_nonneg :: "f64_io \<Rightarrow> environment \<Rightarrow> bool" where
  "test_autovac_vacuum_threshold_nonneg io env \<longleftrightarrow>
     (let env = set_var ''PG_TUNED_AUTOVAC_VACUUM_THRESHOLD'' ''-1'' env; c = tune_from_env io env in
     autovac_vacuum_threshold c = 50 \<and>
    (let env = set_var ''PG_TUNED_AUTOVAC_VACUUM_THRESHOLD'' ''0'' env; c = tune_from_env io env in
     autovac_vacuum_threshold c = 0 \<and>
    (let env = set_var ''PG_TUNED_AUTOVAC_VACUUM_THRESHOLD'' ''100'' env; c = tune_from_env io env in
     autovac_vacuum_threshold c = 100)))"

definition test_tune_table_sql_rejects_nan_vacuum_scale :: "f64_io \<Rightarrow> bool" where
  "test_tune_table_sql_rejects_nan_vacuum_scale io \<longleftrightarrow>
     tune_table_sql io (default_tune\<lparr>autovac_vacuum_scale := f64_nan\<rparr>) ''kv'' = Panic"

definition test_tune_table_sql_rejects_nan_analyze_scale :: "f64_io \<Rightarrow> bool" where
  "test_tune_table_sql_rejects_nan_analyze_scale io \<longleftrightarrow>
     tune_table_sql io (default_tune\<lparr>autovac_analyze_scale := f64_nan\<rparr>) ''kv'' = Panic"

definition test_autovac_scale_range_validation :: "f64_io \<Rightarrow> environment \<Rightarrow> bool" where
  "test_autovac_scale_range_validation io env \<longleftrightarrow>
     (let env = set_var ''PG_TUNED_AUTOVAC_VACUUM_SCALE'' ''1.5'' env; c = tune_from_env io env in
     f64_eq (autovac_vacuum_scale c) f64_005 \<and>
    (let env = set_var ''PG_TUNED_AUTOVAC_VACUUM_SCALE'' ''-0.1'' env; c = tune_from_env io env in
     f64_eq (autovac_vacuum_scale c) f64_005 \<and>
    (let env = set_var ''PG_TUNED_AUTOVAC_ANALYZE_SCALE'' ''2.0'' env; c = tune_from_env io env in
     f64_eq (autovac_analyze_scale c) f64_002 \<and>
    (let env = set_var ''PG_TUNED_AUTOVAC_VACUUM_SCALE'' ''0.0'' env; c = tune_from_env io env in
     f64_eq (autovac_vacuum_scale c) f64_0 \<and>
    (let env = set_var ''PG_TUNED_AUTOVAC_VACUUM_SCALE'' ''1.0'' env; c = tune_from_env io env in
     f64_eq (autovac_vacuum_scale c) f64_1)))))"

definition test_keepalive_count_upper_bound :: "f64_io \<Rightarrow> environment \<Rightarrow> bool" where
  "test_keepalive_count_upper_bound io env \<longleftrightarrow>
     (let env = set_var ''PG_TUNED_KEEPALIVE_COUNT'' ''200'' env; c = tune_from_env io env in
     keepalive_count c = 5 \<and>
    (let env = set_var ''PG_TUNED_KEEPALIVE_COUNT'' ''10'' env; c = tune_from_env io env in
     keepalive_count c = 10 \<and>
    (let env = set_var ''PG_TUNED_KEEPALIVE_COUNT'' ''100'' env; c = tune_from_env io env in
     keepalive_count c = 100)))"

definition test_duration_zero_rejected :: "f64_io \<Rightarrow> environment \<Rightarrow> bool" where
  "test_duration_zero_rejected io env \<longleftrightarrow>
     (let env = set_var ''PG_TUNED_POOL_ACQUIRE_TIMEOUT'' ''0s'' env; c = tune_from_env io env in
     pool_acquire_timeout c = from_secs 10 \<and>
    (let env = set_var ''PG_TUNED_POOL_IDLE_TIMEOUT'' ''0'' env; c = tune_from_env io env in
     pool_idle_timeout c = from_secs 600 \<and>
    (let env = set_var ''PG_TUNED_QUERY_STATEMENT_TIMEOUT'' ''0s'' env; c = tune_from_env io env in
     statement_timeout c = from_secs 30 \<and>
    (let env = set_var ''PG_TUNED_KEEPALIVE_IDLE'' ''0'' env; c = tune_from_env io env in
     keepalive_idle c = from_secs 60 \<and>
    (let env = set_var ''PG_TUNED_POOL_ACQUIRE_TIMEOUT'' ''30s'' env; c = tune_from_env io env in
     pool_acquire_timeout c = from_secs 30)))))"

definition test_server_max_connections_range :: "f64_io \<Rightarrow> environment \<Rightarrow> bool" where
  "test_server_max_connections_range io env \<longleftrightarrow>
     (let env = set_var ''PG_TUNED_SERVER_MAX_CONNECTIONS'' ''-1'' env; c = tune_from_env io env in
     server_max_connections c = 100 \<and>
    (let env = set_var ''PG_TUNED_SERVER_MAX_CONNECTIONS'' ''0'' env; c = tune_from_env io env in
     server_max_connections c = 100 \<and>
    (let env = set_var ''PG_TUNED_SERVER_MAX_CONNECTIONS'' ''50000'' env; c = tune_from_env io env in
     server_max_connections c = 100 \<and>
    (let env = set_var ''PG_TUNED_SERVER_MAX_CONNECTIONS'' ''200'' env; c = tune_from_env io env in
     server_max_connections c = 200 \<and>
    (let env = set_var ''PG_TUNED_SERVER_MAX_CONNECTIONS'' ''10000'' env; c = tune_from_env io env in
     server_max_connections c = 10000)))))"

definition test_tune_table_sql_rejects_negative_cost_limit :: "f64_io \<Rightarrow> bool" where
  "test_tune_table_sql_rejects_negative_cost_limit io \<longleftrightarrow>
     tune_table_sql io (default_tune\<lparr>autovac_vacuum_cost_limit := - 1\<rparr>) ''kv'' = Panic"

definition test_tune_table_sql_rejects_negative_cost_delay :: "f64_io \<Rightarrow> bool" where
  "test_tune_table_sql_rejects_negative_cost_delay io \<longleftrightarrow>
     tune_table_sql io (default_tune\<lparr>autovac_vacuum_cost_delay := - 1\<rparr>) ''kv'' = Panic"

definition test_tune_table_sql_rejects_negative_vacuum_threshold :: "f64_io \<Rightarrow> bool" where
  "test_tune_table_sql_rejects_negative_vacuum_threshold io \<longleftrightarrow>
     tune_table_sql io (default_tune\<lparr>autovac_vacuum_threshold := - 1\<rparr>) ''kv'' = Panic"

definition test_toast_threshold_upper_bound :: "f64_io \<Rightarrow> environment \<Rightarrow> bool" where
  "test_toast_threshold_upper_bound io env \<longleftrightarrow>
     (let env = set_var ''PG_TUNED_TABLE_TOAST_THRESHOLD'' ''8160'' env; c = tune_from_env io env in
     toast_threshold c = 8160 \<and>
    (let env = set_var ''PG_TUNED_TABLE_TOAST_THRESHOLD'' ''8161'' env; c = tune_from_env io env in
     toast_threshold c = 2032))"

definition test_tune_table_sql_rejects_oversized_toast_threshold :: "f64_io \<Rightarrow> bool" where
  "test_tune_table_sql_rejects_oversized_toast_threshold io \<longleftrightarrow>
     tune_table_sql io (default_tune\<lparr>toast_threshold := 10000\<rparr>) ''kv'' = Panic"

definition test_hash_partitions_default :: bool where
  "test_hash_partitions_default \<longleftrightarrow>
     partitions default_tune = 1"

definition test_hash_partitions_env :: "f64_io \<Rightarrow> environment \<Rightarrow> bool" where
  "test_hash_partitions_env io env \<longleftrightarrow>
     (let env = set_var ''PG_TUNED_TABLE_HASH_PARTITIONS'' ''4'' env; c = tune_from_env io env in
     partitions c = 4 \<and>
    (let env = set_var ''PG_TUNED_TABLE_HASH_PARTITIONS'' ''0'' env; c = tune_from_env io env in
     partitions c = 1 \<and>
    (let env = set_var ''PG_TUNED_TABLE_HASH_PARTITIONS'' ''2000'' env; c = tune_from_env io env in
     partitions c = 1 \<and>
    (let env = set_var ''PG_TUNED_TABLE_HASH_PARTITIONS'' ''1024'' env; c = tune_from_env io env in
     partitions c = 1024 \<and>
    (let env = set_var ''PG_TUNED_TABLE_HASH_PARTITIONS'' ''1'' env; c = tune_from_env io env in
     partitions c = 1)))))"

definition test_create_table_sql_no_partition :: bool where
  "test_create_table_sql_no_partition \<longleftrightarrow>
     returns (create_table_sql default_tune ''kv'') (\<lambda>sql.
       contains sql ''CREATE TABLE IF NOT EXISTS kv'' \<and>
       \<not> contains sql ''PARTITION BY'' \<and>
       strip_suffix '';'' (trim sql) \<noteq> None)"

definition test_create_table_sql_with_partitions :: bool where
  "test_create_table_sql_with_partitions \<longleftrightarrow>
     returns (create_table_sql (default_tune\<lparr>partitions := 4\<rparr>) ''kv'') (\<lambda>sql.
       contains sql ''PARTITION BY HASH (key)'' \<and>
       contains sql ''PARTITION OF kv FOR VALUES WITH (MODULUS 4, REMAINDER 0)'' \<and>
       contains sql ''PARTITION OF kv FOR VALUES WITH (MODULUS 4, REMAINDER 1)'' \<and>
       contains sql ''PARTITION OF kv FOR VALUES WITH (MODULUS 4, REMAINDER 2)'' \<and>
       contains sql ''PARTITION OF kv FOR VALUES WITH (MODULUS 4, REMAINDER 3)'' \<and>
       \<not> contains sql ''REMAINDER 4'' \<and>
       (let stmts = filter (\<lambda>s. trim s \<noteq> []) (split_on (CHR '';'') sql) in length stmts = 5) \<and>
       contains sql ''PARTITION BY HASH (key);'')"

definition test_create_table_sql_unlogged_with_partitions :: bool where
  "test_create_table_sql_unlogged_with_partitions \<longleftrightarrow>
     returns (create_table_sql (default_tune\<lparr>partitions := 2, use_unlogged := True\<rparr>) ''kv'') (\<lambda>sql.
       contains sql ''CREATE UNLOGGED TABLE IF NOT EXISTS kv'' \<and>
       contains sql ''PARTITION BY HASH (key)'')"

definition test_partition_count_sql :: bool where
  "test_partition_count_sql \<longleftrightarrow>
     returns (partition_count_sql ''kv'') (\<lambda>sql.
       contains sql ''pg_partitioned_table'' \<and>
       contains sql ''pg_class'' \<and>
       contains sql ''pg_inherits'' \<and>
       contains sql ''relname = $1'')"

definition test_tune_table_sql_on_partitioned_table :: "f64_io \<Rightarrow> bool" where
  "test_tune_table_sql_on_partitioned_table io \<longleftrightarrow>
     returns (tune_table_sql io (default_tune\<lparr>partitions := 4\<rparr>) ''kv'') (\<lambda>sql.
       contains sql ''ALTER TABLE kv ALTER COLUMN val SET STORAGE external'' \<and>
       (let parent_set_matches = filter (\<lambda>l. contains l ''ALTER TABLE kv SET'') (str_lines sql) in
        parent_set_matches = []) \<and>
       contains sql ''ALTER TABLE kv_p0 SET'' \<and>
       contains sql ''ALTER TABLE kv_p3 SET'' \<and>
       \<not> contains sql ''ALTER TABLE kv_p4 SET'' \<and>
       contains sql ''fillfactor = 90'' \<and>
       contains sql ''autovacuum_vacuum_scale_factor'')"

definition test_create_table_sql_partition_name_too_long :: bool where
  "test_create_table_sql_partition_name_too_long \<longleftrightarrow>
     create_table_sql (default_tune\<lparr>partitions := 4\<rparr>) (replicate 60 (CHR ''a'')) \<noteq> Panic \<and>
     create_table_sql (default_tune\<lparr>partitions := 4\<rparr>) (replicate 61 (CHR ''a'')) = Panic"

definition test_create_table_sql_partition_name_at_limit :: bool where
  "test_create_table_sql_partition_name_at_limit \<longleftrightarrow>
     returns (create_table_sql (default_tune\<lparr>partitions := 4\<rparr>) (replicate 60 (CHR ''a''))) (\<lambda>sql.
       contains sql ''PARTITION BY HASH'')"

definition test_session_sql_subsecond_duration :: "f64_io \<Rightarrow> bool" where
  "test_session_sql_subsecond_duration io \<longleftrightarrow>
     returns (session_sql io (default_tune\<lparr>statement_timeout := from_millis 500, idle_txn_timeout := from_secs 10, lock_timeout := from_secs 10\<rparr>)) (\<lambda>sql.
       contains sql (''statement_timeout = '' @ [CHR 0x27] @ ''500ms'' @ [CHR 0x27]) \<and>
       contains sql (''idle_in_transaction_session_timeout = '' @ [CHR 0x27] @ ''10s'' @ [CHR 0x27]) \<and>
       contains sql (''lock_timeout = '' @ [CHR 0x27] @ ''10s'' @ [CHR 0x27]))"

definition test_session_sql_default_uses_seconds :: "f64_io \<Rightarrow> bool" where
  "test_session_sql_default_uses_seconds io \<longleftrightarrow>
     returns (session_sql io default_tune) (\<lambda>sql.
       contains sql (''statement_timeout = '' @ [CHR 0x27] @ ''30s'' @ [CHR 0x27]) \<and>
       contains sql (''idle_in_transaction_session_timeout = '' @ [CHR 0x27] @ ''60s'' @ [CHR 0x27]) \<and>
       contains sql (''lock_timeout = '' @ [CHR 0x27] @ ''10s'' @ [CHR 0x27]))"

definition test_random_page_cost_nonpositive_fallback :: "f64_io \<Rightarrow> environment \<Rightarrow> bool" where
  "test_random_page_cost_nonpositive_fallback io env \<longleftrightarrow>
     (let env = set_var ''PG_TUNED_SERVER_RANDOM_PAGE_COST'' ''0'' env; c = tune_from_env io env in
     f64_eq (server_random_page_cost c) f64_11 \<and>
    (let env = set_var ''PG_TUNED_SERVER_RANDOM_PAGE_COST'' ''-1.5'' env; c = tune_from_env io env in
     f64_eq (server_random_page_cost c) f64_11 \<and>
    (let env = set_var ''PG_TUNED_SERVER_RANDOM_PAGE_COST'' ''2.0'' env; c = tune_from_env io env in
     f64_eq (server_random_page_cost c) f64_2)))"

definition test_session_sql_rejects_zero_random_page_cost :: "f64_io \<Rightarrow> bool" where
  "test_session_sql_rejects_zero_random_page_cost io \<longleftrightarrow>
     session_sql io (default_tune\<lparr>server_random_page_cost := f64_0\<rparr>) = Panic"

definition test_session_sql_rejects_negative_random_page_cost :: "f64_io \<Rightarrow> bool" where
  "test_session_sql_rejects_negative_random_page_cost io \<longleftrightarrow>
     session_sql io (default_tune\<lparr>server_random_page_cost := f64_m1\<rparr>) = Panic"

definition test_keepalive_count_zero_fallback :: "f64_io \<Rightarrow> environment \<Rightarrow> bool" where
  "test_keepalive_count_zero_fallback io env \<longleftrightarrow>
     (let env = set_var ''PG_TUNED_KEEPALIVE_COUNT'' ''0'' env; c = tune_from_env io env in
     keepalive_count c = 5 \<and>
    (let env = set_var ''PG_TUNED_KEEPALIVE_COUNT'' ''3'' env; c = tune_from_env io env in
     keepalive_count c = 3))"

definition test_env_u32_trims_whitespace :: "environment \<Rightarrow> bool" where
  "test_env_u32_trims_whitespace env \<longleftrightarrow>
     env_u32 (set_var ''TEST_ENV_U32_TRIM'' '' 42 '' env) ''TEST_ENV_U32_TRIM'' 0 = 42"

definition test_env_i32_trims_whitespace :: "environment \<Rightarrow> bool" where
  "test_env_i32_trims_whitespace env \<longleftrightarrow>
     env_i32 (set_var ''TEST_ENV_I32_TRIM'' '' -10 '' env) ''TEST_ENV_I32_TRIM'' 0 = - 10"

definition test_env_f64_trims_whitespace :: "f64_io \<Rightarrow> environment \<Rightarrow> bool" where
  "test_env_f64_trims_whitespace io env \<longleftrightarrow>
     f64_eq (env_f64 io (set_var ''TEST_ENV_F64_TRIM'' '' 1.5 '' env) ''TEST_ENV_F64_TRIM'' f64_0) f64_15"

subsection \<open>The model passes them\<close>

lemma tune_fields:
  "autovac_analyze_scale (tune_from_env io env) = env_scale io env ''PG_TUNED_AUTOVAC_ANALYZE_SCALE'' f64_002"
  "autovac_vacuum_cost_delay (tune_from_env io env) = env_nonneg env ''PG_TUNED_AUTOVAC_VACUUM_COST_DELAY'' 1"
  "autovac_vacuum_cost_limit (tune_from_env io env) = env_nonneg env ''PG_TUNED_AUTOVAC_VACUUM_COST_LIMIT'' 2000"
  "autovac_vacuum_scale (tune_from_env io env) = env_scale io env ''PG_TUNED_AUTOVAC_VACUUM_SCALE'' f64_005"
  "autovac_vacuum_threshold (tune_from_env io env) = env_nonneg env ''PG_TUNED_AUTOVAC_VACUUM_THRESHOLD'' 50"
  "fillfactor (tune_from_env io env) = env_fillfactor env"
  "keepalive_count (tune_from_env io env) = env_keepalive_count env"
  "keepalive_idle (tune_from_env io env) = env_duration_nonzero env ''PG_TUNED_KEEPALIVE_IDLE'' 60"
  "partitions (tune_from_env io env) = env_partitions env"
  "pool_acquire_timeout (tune_from_env io env) = env_duration_nonzero env ''PG_TUNED_POOL_ACQUIRE_TIMEOUT'' 10"
  "pool_idle_timeout (tune_from_env io env) = env_duration_nonzero env ''PG_TUNED_POOL_IDLE_TIMEOUT'' 600"
  "pool_max (tune_from_env io env) = env_pool_max env"
  "pool_min (tune_from_env io env) = env_pool_min env"
  "server_checkpoint_target (tune_from_env io env) = env_checkpoint_target io env"
  "server_max_connections (tune_from_env io env) = env_max_connections env"
  "server_random_page_cost (tune_from_env io env) = env_random_page_cost io env"
  "statement_timeout (tune_from_env io env) = env_duration_nonzero env ''PG_TUNED_QUERY_STATEMENT_TIMEOUT'' 30"
  "stats_target (tune_from_env io env) = env_stats_target env"
  "toast_threshold (tune_from_env io env) = env_toast_threshold env"
  by (simp_all add: tune_from_env_def)

text \<open>The texts the tests set, read as numbers.\<close>

lemma trimmed:
  "trim ''-0.1'' = ''-0.1''" "trim ''-0.5'' = ''-0.5''" "trim ''-1'' = ''-1''"
  "trim ''-1.5'' = ''-1.5''" "trim ''-2'' = ''-2''" "trim ''-5'' = ''-5''"
  "trim ''0'' = ''0''" "trim ''0.0'' = ''0.0''" "trim ''0.1'' = ''0.1''"
  "trim ''0.7'' = ''0.7''" "trim ''0s'' = ''0s''" "trim ''1'' = ''1''"
  "trim ''1.0'' = ''1.0''" "trim ''1.5'' = ''1.5''" "trim ''10'' = ''10''"
  "trim ''100'' = ''100''" "trim ''10000'' = ''10000''" "trim ''10001'' = ''10001''"
  "trim ''101'' = ''101''" "trim ''1024'' = ''1024''" "trim ''127'' = ''127''"
  "trim ''128'' = ''128''" "trim ''2.0'' = ''2.0''" "trim ''200'' = ''200''"
  "trim ''2000'' = ''2000''" "trim ''2032'' = ''2032''" "trim ''3'' = ''3''"
  "trim ''30s'' = ''30s''" "trim ''4'' = ''4''" "trim ''5'' = ''5''"
  "trim ''50'' = ''50''" "trim ''500'' = ''500''" "trim ''50000'' = ''50000''"
  "trim ''8160'' = ''8160''" "trim ''8161'' = ''8161''" "trim ''inf'' = ''inf''"
  "trim ''nan'' = ''nan''"
  by code_simp+

lemma read_ints:
  "parse_i32 ''-1'' = Some (- 1)" "parse_i32 ''-2'' = Some (- 2)" "parse_i32 ''-5'' = Some (- 5)"
  "parse_i32 ''0'' = Some 0" "parse_i32 ''1'' = Some 1" "parse_i32 ''10'' = Some 10"
  "parse_i32 ''100'' = Some 100" "parse_i32 ''10000'' = Some 10000" "parse_i32 ''10001'' = Some 10001"
  "parse_i32 ''101'' = Some 101" "parse_i32 ''1024'' = Some 1024" "parse_i32 ''127'' = Some 127"
  "parse_i32 ''128'' = Some 128" "parse_i32 ''200'' = Some 200" "parse_i32 ''2000'' = Some 2000"
  "parse_i32 ''2032'' = Some 2032" "parse_i32 ''3'' = Some 3" "parse_i32 ''4'' = Some 4"
  "parse_i32 ''5'' = Some 5" "parse_i32 ''50'' = Some 50" "parse_i32 ''500'' = Some 500"
  "parse_i32 ''50000'' = Some 50000" "parse_i32 ''8160'' = Some 8160" "parse_i32 ''8161'' = Some 8161"
  by code_simp+

lemma read_nats:
  "parse_u32 ''0'' = Some 0" "parse_u32 ''1'' = Some 1" "parse_u32 ''10'' = Some 10"
  "parse_u32 ''100'' = Some 100" "parse_u32 ''10000'' = Some 10000" "parse_u32 ''10001'' = Some 10001"
  "parse_u32 ''101'' = Some 101" "parse_u32 ''1024'' = Some 1024" "parse_u32 ''127'' = Some 127"
  "parse_u32 ''128'' = Some 128" "parse_u32 ''200'' = Some 200" "parse_u32 ''2000'' = Some 2000"
  "parse_u32 ''2032'' = Some 2032" "parse_u32 ''3'' = Some 3" "parse_u32 ''4'' = Some 4"
  "parse_u32 ''5'' = Some 5" "parse_u32 ''50'' = Some 50" "parse_u32 ''500'' = Some 500"
  "parse_u32 ''50000'' = Some 50000" "parse_u32 ''8160'' = Some 8160" "parse_u32 ''8161'' = Some 8161"
  by code_simp+

lemma read_durations:
  "parse_duration ''0s'' = Some 0" "parse_duration ''0'' = Some 0" "parse_duration ''30s'' = Some (from_secs 30)"
  by code_simp+

lemmas env_settings = env_u32_def env_i32_def env_f64_def env_duration_nonzero_def env_pool_max_def env_pool_min_def
  env_fillfactor_def env_keepalive_count_def env_toast_threshold_def env_partitions_def env_scale_def env_nonneg_def
  env_stats_target_def env_max_connections_def env_random_page_cost_def env_checkpoint_target_def

text \<open>The floats of the tests: how they compare.\<close>

lemma floats_equal:
  "f64_eq f64_0 f64_0" "f64_eq f64_1 f64_1" "f64_eq f64_005 f64_005" "f64_eq f64_002 f64_002" "f64_eq f64_11 f64_11"
  "f64_eq f64_07 f64_07" "f64_eq f64_01 f64_01" "f64_eq f64_2 f64_2" "f64_eq f64_15 f64_15"
  by (simp_all add: f64_eq_def f64_defs test_f64)

lemma floats_finite:
  "\<not> f64_is_finite f64_nan" "\<not> f64_is_finite f64_inf" "f64_is_finite f64_0" "f64_is_finite f64_1" "f64_is_finite f64_01"
  "f64_is_finite f64_15" "f64_is_finite f64_2" "f64_is_finite f64_m01" "f64_is_finite f64_m15" "f64_is_finite f64_m1"
  by (simp_all add: f64_defs test_f64)

lemma floats_in_unit:
  "unit_interval f64_0" "unit_interval f64_1" "unit_interval f64_01"
  "\<not> unit_interval f64_15" "\<not> unit_interval f64_2" "\<not> unit_interval f64_m01"
  by (simp_all add: unit_interval_def f64_defs test_f64)

lemma floats_positive:
  "f64_le f64_0 f64_0" "f64_le f64_m15 f64_0" "\<not> f64_le f64_2 f64_0" "\<not> f64_lt f64_0 f64_0" "\<not> f64_lt f64_0 f64_m1"
  by (simp_all add: f64_defs test_f64)

lemma floats_clamped:
  "f64_clamp01 f64_15 = f64_1" "f64_clamp01 f64_m05 = f64_0" "f64_clamp01 f64_07 = f64_07"
  "f64_clamp01 f64_0 = f64_0" "f64_clamp01 f64_1 = f64_1"
  by (simp_all add: f64_clamp01_def f64_defs test_f64)

lemmas floats = reads_decimals_def floats_equal floats_finite floats_in_unit floats_positive floats_clamped

lemma float_tests_pass:
  assumes "reads_decimals io"
  shows "test_checkpoint_target_clamping io env" "test_f64_nan_infinity_fallback io env" "test_autovac_scale_range_validation io env" "test_random_page_cost_nonpositive_fallback io env"
  using assms
  by (simp_all add: set_var_def tune_fields env_settings trimmed read_ints read_nats read_durations from_secs_def
      floats
      test_checkpoint_target_clamping_def
      test_f64_nan_infinity_fallback_def
      test_autovac_scale_range_validation_def
      test_random_page_cost_nonpositive_fallback_def)

lemma setting_tests_pass_1:
  "test_pool_max_zero_fallback io env"
  "test_pool_min_exceeds_max_clamped io env"
  "test_fillfactor_out_of_range io env"
  by (simp_all add: set_var_def tune_fields env_settings trimmed read_ints read_nats read_durations from_secs_def
      
      test_pool_max_zero_fallback_def
      test_pool_min_exceeds_max_clamped_def
      test_fillfactor_out_of_range_def)

lemma setting_tests_pass_2:
  "test_toast_threshold_min_value io env"
  "test_autovac_nonneg_validation io env"
  "test_stats_target_range_validation io env"
  by (simp_all add: set_var_def tune_fields env_settings trimmed read_ints read_nats read_durations from_secs_def
      
      test_toast_threshold_min_value_def
      test_autovac_nonneg_validation_def
      test_stats_target_range_validation_def)

lemma setting_tests_pass_3:
  "test_autovac_vacuum_threshold_nonneg io env"
  "test_keepalive_count_upper_bound io env"
  "test_duration_zero_rejected io env"
  by (simp_all add: set_var_def tune_fields env_settings trimmed read_ints read_nats read_durations from_secs_def
      
      test_autovac_vacuum_threshold_nonneg_def
      test_keepalive_count_upper_bound_def
      test_duration_zero_rejected_def)

lemma setting_tests_pass_4:
  "test_server_max_connections_range io env"
  "test_toast_threshold_upper_bound io env"
  "test_hash_partitions_env io env"
  by (simp_all add: set_var_def tune_fields env_settings trimmed read_ints read_nats read_durations from_secs_def
      
      test_server_max_connections_range_def
      test_toast_threshold_upper_bound_def
      test_hash_partitions_env_def)

lemma setting_tests_pass_5:
  "test_keepalive_count_zero_fallback io env"
  by (simp_all add: set_var_def tune_fields env_settings trimmed read_ints read_nats read_durations from_secs_def
      
      test_keepalive_count_zero_fallback_def)

lemma text_tests_pass:
  test_parse_duration test_validate_pg_memory_size test_validate_toast_storage test_create_table_sql
  test_create_table_sql_no_partition test_create_table_sql_with_partitions
  test_create_table_sql_partition_name_too_long test_create_table_sql_partition_name_at_limit
  test_create_table_sql_unlogged_with_partitions test_partition_count_sql
  by code_simp+
lemma default_tests_pass: test_defaults test_hash_partitions_default
  by (simp_all add: test_defaults_def test_hash_partitions_default_def default_tune_def)

lemma spaced: "trim '' 42 '' = ''42''" "trim '' -10 '' = ''-10''" "trim '' 1.5 '' = ''1.5''"
  "parse_u32 ''42'' = Some 42" "parse_i32 ''-10'' = Some (- 10)"
  by code_simp+

lemma env_helper_tests_pass:
  "test_env_u32_trims_whitespace env" "test_env_i32_trims_whitespace env"
  "reads_decimals io \<Longrightarrow> test_env_f64_trims_whitespace io env"
  by (simp_all add: test_env_u32_trims_whitespace_def test_env_i32_trims_whitespace_def
      test_env_f64_trims_whitespace_def set_var_def env_settings spaced floats)

lemma bool_test_passes: "test_env_bool env"
  by code_simp

lemma panic_tests_pass:
  "test_tune_table_sql_rejects_bad_toast io" "test_tune_table_sql_rejects_bad_fillfactor io"
  "test_tune_table_sql_rejects_nan_vacuum_scale io" "test_tune_table_sql_rejects_nan_analyze_scale io"
  "test_tune_table_sql_rejects_negative_cost_limit io" "test_tune_table_sql_rejects_negative_cost_delay io"
  "test_tune_table_sql_rejects_negative_vacuum_threshold io"
  "test_tune_table_sql_rejects_oversized_toast_threshold io"
  "test_session_sql_rejects_zero_random_page_cost io" "test_session_sql_rejects_negative_random_page_cost io"
  by (simp_all add: test_tune_table_sql_rejects_bad_toast_def test_tune_table_sql_rejects_bad_fillfactor_def
      test_tune_table_sql_rejects_nan_vacuum_scale_def test_tune_table_sql_rejects_nan_analyze_scale_def
      test_tune_table_sql_rejects_negative_cost_limit_def test_tune_table_sql_rejects_negative_cost_delay_def
      test_tune_table_sql_rejects_negative_vacuum_threshold_def
      test_tune_table_sql_rejects_oversized_toast_threshold_def
      test_session_sql_rejects_zero_random_page_cost_def test_session_sql_rejects_negative_random_page_cost_def
      tune_table_sql_def session_sql_def asserting_def tune_asserts_def session_asserts_def floats
      validate_toast_storage_def)
text \<open>The session statements with the printed cost filled in.\<close>

definition session_text :: "string \<Rightarrow> tune \<Rightarrow> string" where
  "session_text cost tn =
     ''SET statement_timeout = '' @ quoted (fmt_dur (statement_timeout tn)) @ '';'' @ nl
        @ ''SET idle_in_transaction_session_timeout = '' @ quoted (fmt_dur (idle_txn_timeout tn)) @ '';'' @ nl
        @ ''SET lock_timeout = '' @ quoted (fmt_dur (lock_timeout tn)) @ '';'' @ nl
        @ ''SET default_statistics_target = '' @ fmt_int (stats_target tn) @ '';'' @ nl
        @ ''SET work_mem = '' @ quoted (server_work_mem tn) @ '';'' @ nl
        @ ''SET maintenance_work_mem = '' @ quoted (server_maintenance_work_mem tn) @ '';'' @ nl
        @ ''SET random_page_cost = '' @ cost @ '';'' @ nl
        @ ''SET effective_cache_size = '' @ quoted (server_effective_cache_size tn) @ '';''"

lemma session_default:
  assumes "shows_decimals io" "session_asserts tn = session_asserts default_tune"
    "server_random_page_cost tn = server_random_page_cost default_tune"
  shows "session_sql io tn = Ok (session_text ''1.1'' tn)"
proof -
  have "list_all (\<lambda>b. b) (session_asserts default_tune)"
    using memory_defaults f64_consts by (simp add: session_asserts_def default_tune_def)
  moreover have "show_f64 io (server_random_page_cost tn) = ''1.1''"
    using assms(1,3) by (simp add: shows_decimals_def default_tune_def)
  ultimately show ?thesis using assms(2) by (simp add: session_sql_def asserting_def session_text_def)
qed

lemma session_tests_pass:
  assumes "shows_decimals io"
  shows "test_session_sql_contains_all_params io" "test_session_sql_subsecond_duration io"
    "test_session_sql_default_uses_seconds io"
proof -
  have s: "session_sql io default_tune = Ok (session_text ''1.1'' default_tune)"
    by (rule session_default [OF assms refl refl])
  show "test_session_sql_contains_all_params io"
    unfolding test_session_sql_contains_all_params_def s by code_simp
  show "test_session_sql_default_uses_seconds io"
    unfolding test_session_sql_default_uses_seconds_def s by code_simp
  have u: "session_sql io (default_tune\<lparr>statement_timeout := from_millis 500, idle_txn_timeout := from_secs 10,
      lock_timeout := from_secs 10\<rparr>) = Ok (session_text ''1.1'' (default_tune\<lparr>statement_timeout := from_millis 500,
      idle_txn_timeout := from_secs 10, lock_timeout := from_secs 10\<rparr>))"
    by (rule session_default [OF assms]) (simp_all add: session_asserts_def)
  show "test_session_sql_subsecond_duration io"
    unfolding test_session_sql_subsecond_duration_def u by code_simp
qed

text \<open>A line of a text is part of it.\<close>

lemma contains_sublist: "contains s p \<longleftrightarrow> sublist p s"
  by (induction s p rule: contains.induct) (auto simp: sublist_Cons_right)

lemma split_pieces: "prefix (hd (split_on c s)) s \<and> (\<forall>q \<in> set (split_on c s). sublist q s)"
proof (induction s)
  case (Cons x s)
  obtain p ps where s: "split_on c s = p # ps" using split_on_nonempty by (metis list.exhaust)
  have p: "prefix p s" "\<And>q. q \<in> set ps \<Longrightarrow> sublist q s" "sublist p s" using Cons s by auto
  have "sublist (x # p) (x # s)" using p(1) by (intro prefix_imp_sublist) simp
  then show ?case
    using p s by (auto simp: sublist_Cons_right)
qed simp

lemma line_sublist: "l \<in> set (str_lines s) \<Longrightarrow> sublist l s"
proof -
  assume "l \<in> set (str_lines s)"
  then obtain q where q: "q \<in> set (split_on (CHR 0x0A) s)" "prefix l q"
    by (auto simp: str_lines_def Let_def strip_suffix_def take_is_prefix dest: in_set_butlastD split: if_splits option.splits)
      (metis last_in_set split_on_nonempty prefix_order.refl)
  then show "sublist l s" using split_pieces [of "CHR 0x0A" s] by (meson prefix_imp_sublist sublist_order.order_trans)
qed

lemma no_line_contains: "\<not> contains s p \<Longrightarrow> filter (\<lambda>l. contains l p) (str_lines s) = []"
  using line_sublist by (force simp: contains_sublist filter_empty_conv intro: sublist_order.order_trans)

text \<open>A text without a line break is looked for line by line.\<close>

lemma contains_nl:
  assumes "CHR 0x0A \<notin> set p" "p \<noteq> []"
  shows "contains (a @ nl @ b) p \<longleftrightarrow> contains a p \<or> contains b p" "contains (nl @ b) p \<longleftrightarrow> contains b p"
    "contains (a @ a' @ nl @ b) p \<longleftrightarrow> contains (a @ a') p \<or> contains b p"
    "contains (a @ a' @ a'' @ nl @ b) p \<longleftrightarrow> contains (a @ a' @ a'') p \<or> contains b p"
proof -
  have 0: "contains (nl @ s) p \<longleftrightarrow> contains s p" for s
    using assms by (cases p) (auto simp: nl_def)
  show "contains (nl @ b) p \<longleftrightarrow> contains b p" by (rule 0)
  have "prefix p (c # s @ nl @ b) \<longleftrightarrow> prefix p (c # s)" for c s b
    using assms(1) by (auto simp: prefix_append nl_def Cons_eq_append_conv append_eq_Cons_conv prefix_def)
      (auto simp: append_eq_append_conv2 Cons_eq_append_conv)
  then have 1: "contains (a @ nl @ b) p \<longleftrightarrow> contains a p \<or> contains b p" for a b
    using 0 assms(2) by (induction a) auto
  then show "contains (a @ nl @ b) p \<longleftrightarrow> contains a p \<or> contains b p" .
  show "contains (a @ a' @ nl @ b) p \<longleftrightarrow> contains (a @ a') p \<or> contains b p"
    using 1 [of "a @ a'" b] by simp
  show "contains (a @ a' @ a'' @ nl @ b) p \<longleftrightarrow> contains (a @ a' @ a'') p \<or> contains b p"
    using 1 [of "a @ a' @ a''" b] by simp
qed

definition autovac_text :: "string \<Rightarrow> string \<Rightarrow> string" where
  "autovac_text comment tbl =
     nl @ comment @ nl @ ''ALTER TABLE '' @ tbl @ '' SET ('' @ nl
     @ ''    autovacuum_vacuum_scale_factor = 0.05,'' @ nl
     @ ''    autovacuum_vacuum_threshold = 50,'' @ nl
     @ ''    autovacuum_analyze_scale_factor = 0.02,'' @ nl
     @ ''    autovacuum_vacuum_cost_limit = 2000,'' @ nl
     @ ''    autovacuum_vacuum_cost_delay = 1'' @ nl
     @ '');''"

definition partitioned_text :: "tune \<Rightarrow> string \<Rightarrow> string" where
  "partitioned_text tn tbl =
     parent_sql tn tbl
     @ concat (map (\<lambda>i. let part = part_name tbl i in
         storage_sql (''-- Partition '' @ part @ '' storage tuning'') tn part
         @ autovac_text (''-- Partition '' @ part @ '' autovacuum tuning'') part)
         [0..<partitions tn])"

lemma fmt_some: "fmt_int 50 = ''50''" "fmt_int 2000 = ''2000''" "fmt_int 1 = ''1''" by code_simp+

lemma autovac_default:
  "shows_decimals io \<Longrightarrow> autovac_sql io comment (default_tune\<lparr>partitions := n\<rparr>) tbl = autovac_text comment tbl"
  by (simp add: autovac_sql_def autovac_text_def shows_decimals_def default_tune_def fmt_some)

lemma tune_sql_default:
  assumes "shows_decimals io" "valid_ident tbl" "partition_names_fit (default_tune\<lparr>partitions := n\<rparr>) tbl"
  shows "tune_table_sql io (default_tune\<lparr>partitions := n\<rparr>) tbl = Ok
      (let tn = default_tune\<lparr>partitions := n\<rparr> in
       if n \<le> 1 then storage_sql ''-- Table storage tuning'' tn tbl @ autovac_text ''-- Autovacuum tuning'' tbl
       else partitioned_text tn tbl)"
proof -
  have "list_all (\<lambda>b. b) (tune_asserts (default_tune\<lparr>partitions := n\<rparr>))"
    using toast_default f64_consts by (simp add: tune_asserts_def default_tune_def)
  then show ?thesis
    using assms by (simp add: tune_table_sql_def asserting_def autovac_default [OF assms(1)] partitioned_text_def Let_def)
qed

text \<open>The text for four partitions, line by line.\<close>

lemma four_partitions: "[0..<partitions (default_tune\<lparr>partitions := 4\<rparr>)] = [0, 1, 2, 3]"
  by (simp add: upt_rec)

lemmas text_lines = append_assoc partitioned_text_def parent_sql_def storage_sql_def autovac_text_def Let_def
  four_partitions list.map concat.simps append_Nil2

lemma single_lines:
  "CHR 0x0A \<notin> set ''ALTER TABLE kv ALTER COLUMN val SET STORAGE external''" "''ALTER TABLE kv ALTER COLUMN val SET STORAGE external'' \<noteq> []"
  "CHR 0x0A \<notin> set ''ALTER TABLE kv SET''" "''ALTER TABLE kv SET'' \<noteq> []"
  "CHR 0x0A \<notin> set ''ALTER TABLE kv_p0 SET''" "''ALTER TABLE kv_p0 SET'' \<noteq> []"
  "CHR 0x0A \<notin> set ''ALTER TABLE kv_p3 SET''" "''ALTER TABLE kv_p3 SET'' \<noteq> []"
  "CHR 0x0A \<notin> set ''ALTER TABLE kv_p4 SET''" "''ALTER TABLE kv_p4 SET'' \<noteq> []"
  "CHR 0x0A \<notin> set ''fillfactor = 90''" "''fillfactor = 90'' \<noteq> []"
  "CHR 0x0A \<notin> set ''autovacuum_vacuum_scale_factor''" "''autovacuum_vacuum_scale_factor'' \<noteq> []"
  by code_simp+

lemma partitioned_contains:
  "contains (partitioned_text (default_tune\<lparr>partitions := 4\<rparr>) ''kv'') ''ALTER TABLE kv ALTER COLUMN val SET STORAGE external''"
  "\<not> contains (partitioned_text (default_tune\<lparr>partitions := 4\<rparr>) ''kv'') ''ALTER TABLE kv SET''"
  "contains (partitioned_text (default_tune\<lparr>partitions := 4\<rparr>) ''kv'') ''ALTER TABLE kv_p0 SET''"
  "contains (partitioned_text (default_tune\<lparr>partitions := 4\<rparr>) ''kv'') ''ALTER TABLE kv_p3 SET''"
  "\<not> contains (partitioned_text (default_tune\<lparr>partitions := 4\<rparr>) ''kv'') ''ALTER TABLE kv_p4 SET''"
  "contains (partitioned_text (default_tune\<lparr>partitions := 4\<rparr>) ''kv'') ''fillfactor = 90''"
  "contains (partitioned_text (default_tune\<lparr>partitions := 4\<rparr>) ''kv'') ''autovacuum_vacuum_scale_factor''"
  by (simp_all only: text_lines contains_nl [OF single_lines(1,2)]
      contains_nl [OF single_lines(3,4)]
      contains_nl [OF single_lines(5,6)]
      contains_nl [OF single_lines(7,8)]
      contains_nl [OF single_lines(9,10)]
      contains_nl [OF single_lines(11,12)]
      contains_nl [OF single_lines(13,14)])
    code_simp+

lemma tune_sql_tests_pass:
  assumes "shows_decimals io"
  shows "test_tune_table_sql io" "test_tune_table_sql_on_partitioned_table io"
proof -
  have "valid_ident ''kv''" "partition_names_fit (default_tune\<lparr>partitions := 1\<rparr>) ''kv''"
    "partition_names_fit (default_tune\<lparr>partitions := 4\<rparr>) ''kv''" by code_simp+

  note kv = this
  have one: "default_tune\<lparr>partitions := 1\<rparr> = default_tune" by (simp add: default_tune_def)
  have "returns (tune_table_sql io (default_tune\<lparr>partitions := 1\<rparr>) ''kv'') (\<lambda>sql.
       contains sql ''fillfactor = 90'' \<and>
       contains sql ''STORAGE external'' \<and>
       contains sql ''toast_tuple_target = 2032'' \<and>
       contains sql ''autovacuum_vacuum_scale_factor = 0.05'' \<and>
       \<not> contains sql ''SET UNLOGGED'')"
    unfolding tune_sql_default [OF assms kv(1,2)] by code_simp
  then show "test_tune_table_sql io" by (simp only: test_tune_table_sql_def one)
  have "tune_table_sql io (default_tune\<lparr>partitions := 4\<rparr>) ''kv'' =
      Ok (partitioned_text (default_tune\<lparr>partitions := 4\<rparr>) ''kv'')"
    by (simp add: tune_sql_default [OF assms kv(1,3)])
  then show "test_tune_table_sql_on_partitioned_table io"
    by (simp add: test_tune_table_sql_on_partitioned_table_def returns_def no_line_contains partitioned_contains)
qed

end
