(* ===== verification/Spec2Isabelle.thy ===== *)
theory Spec2Isabelle
  imports Ptx_Props Pg_Tx_Conc Pg_Tx_Linear Composer Sql_Trace Tx_Dropped Store_System Config_Warnings Tune_Warnings Source_Tests Tune_Tests
begin

text \<open>
  surrealpg stores the key-value data of SurrealDB in a PostgreSQL table.  This library models the
  crate under \<^verbatim>\<open>src/src\<close> and proves what makes it correct.

  The parts of the program and their theories:

  \<^item> \<^verbatim>\<open>error.rs\<close>: theory \<open>Pg_Error\<close>.  The three error types, \<^verbatim>\<open>from_sqlx\<close> (driver error to
    \<^verbatim>\<open>PgStoreError\<close>), \<^verbatim>\<open>is_transient\<close>, the mapping to \<^verbatim>\<open>kvs::Error\<close> and the display texts.
  \<^item> \<^verbatim>\<open>config.rs\<close>: theory \<open>Pg_Config\<close>.  \<^verbatim>\<open>PgConfig\<close>, percent decoding, the identifier check with
    its reserved words, the merges of the URL query and of the environment.  \<open>Url_Params\<close> holds
    \<^verbatim>\<open>strip_custom_params\<close> (\<^verbatim>\<open>store.rs\<close>), \<^verbatim>\<open>redact_url\<close> and \<^verbatim>\<open>is_pg_path\<close> (\<^verbatim>\<open>composer.rs\<close>);
    \<open>Config_Props\<close> their properties, and \<open>Config_Warnings\<close> the texts of the warnings the merges log: a URL
    merged without a warning is honoured in full.
  \<^item> \<^verbatim>\<open>tune.rs\<close>: theory \<open>Pg_Tune\<close>.  \<^verbatim>\<open>PgTuneConfig::from_env\<close> with every range check, and the DDL and
    session SQL it generates; a failed \<^verbatim>\<open>assert!\<close> is \<open>Panic\<close>.  An \<^verbatim>\<open>f64\<close> is its 64 bits; reading and
    printing a decimal are the parameters of \<open>f64_io\<close>.  \<open>Tune_Props\<close> holds the properties, and
    \<open>Tune_Warnings\<close> the warnings \<^verbatim>\<open>from_env\<close> logs: an environment read without one has its effect in full.
  \<^item> \<^verbatim>\<open>transaction.rs\<close>: \<open>Sql_Text\<close> (the statement texts of \<^verbatim>\<open>struct Sql\<close>) and \<open>Pg_Transaction\<close>
    (\<^verbatim>\<open>PgTransaction\<close>: reads, writes, batches, scans, savepoints, commit, cancel and drop).  \<open>Sql_Trace\<close> looks
    at the texts and parameters a transaction sends, \<open>Tx_Dropped\<close> at savepoint calls whose future is
    dropped.
  \<^item> \<^verbatim>\<open>pg_tx.rs\<close>: \<open>Pg_Tx\<close> (\<^verbatim>\<open>PgTx\<close> with one call at a time) and \<open>Pg_Tx_Conc\<close> (overlapping calls, dropped
    futures and the drop of the wrapper, as a step relation over the control state) and
    \<open>Pg_Tx_Linear\<close> (the overlapping calls with transaction, session and answers: they are linearizable
    with respect to \<open>Pg_Tx\<close>).
  \<^item> \<^verbatim>\<open>store.rs\<close>: \<open>Store_Settings\<close> (what \<^verbatim>\<open>PgStore::new\<close> computes from URL and environment),
    \<open>Pg_Store\<close> (start-up, pool callbacks, direct connections), \<open>Store_Ops\<close> (\<^verbatim>\<open>begin\<close> with its retry
    loops, health check, vacuum), \<open>Store_Life\<close> (shutdown, metrics) and \<open>Heartbeat\<close> (the background
    task of direct mode).  \<open>Store_Life\<close> also holds \<^verbatim>\<open>pg_builder.rs\<close>;
    \<open>Store_Props\<close> holds the properties.
  \<^item> \<^verbatim>\<open>composer.rs\<close>: \<open>Composer\<close>, with the community composer as a record of its methods.
  \<^item> \<open>Source_Tests\<close> evaluates the assertions of the crate's unit tests on the definitions.
  \<^item> \<open>Prelude\<close> and \<open>Rust_Std\<close>: results with their three ends (\<open>Ok\<close>, \<open>Err\<close>, \<open>Panic\<close>), and what the source
    uses of the Rust standard library: string functions, number parsing and printing, \<^verbatim>\<open>trim\<close>,
    lossy UTF-8, durations in nanoseconds, binary search.

  How the parts interact: the composer hands a PostgreSQL URL to \<^verbatim>\<open>PgStore::new\<close>, passes a
  clone of the store on and drops the original, which cancels its heartbeat; SurrealDB asks the
  store for a transaction (\<^verbatim>\<open>new_transaction\<close>), which begins one on the server and wraps the
  \<^verbatim>\<open>PgTransaction\<close> in a \<^verbatim>\<open>PgTx\<close>; every call on the wrapper checks its guards, runs statements on the
  session and maps the error.  The two properties at the end of this theory follow that path, to the
  answers and to the counters.

  The outside is a parameter.  A session of the server is a \<open>pg_server\<close> on a state of which nothing
  is known; the locale \<open>pg_backend\<close> (\<open>Pg_Server\<close>) states what the crate relies on, the documented
  meaning of its statements, savepoints and transaction ends, any of which may fail at any time;
  \<open>Pg_Reference\<close> interprets it on an executable session.  The driver calls of the store (sqlx, tokio,
  the clock) are a \<open>pg_driver\<close> whose calls act on the whole state, so that other tasks may run in
  each of them; the properties of the store hold for every driver, except where they name what it
  leaves alone.

  The specification and the refinement: \<open>Kv_Table\<close> is the abstract table, a sorted list of rows.
  \<open>Tx_Refine\<close> proves inside \<open>pg_backend\<close> that each operation of \<^verbatim>\<open>PgTransaction\<close> is the table
  operation, exactly on a healthy session and soundly on any; \<open>Tx_Control\<close> adds savepoints and the
  end, as a machine on a stack of tables; \<open>Kv_Contract\<close> is the interface SurrealDB uses, a locale
  that \<^verbatim>\<open>PgTransaction\<close> and \<^verbatim>\<open>PgTx\<close> satisfy over every backend (two sublocales).  \<open>Tx_Props\<close>
  and \<open>Ptx_Props\<close> state the results as closed theorems.  The locale \<open>retry_loop\<close> (\<open>Store_Ops\<close>) is the
  common law of the three retry loops of the store, each interpreted on its own definitions.

  Termination and bounds: the retry loops are functions whose measure is the number of attempts left,
  the batch loop of \<^verbatim>\<open>setm\<close> one whose measure is the number of pairs left.  The grace loop of
  \<^verbatim>\<open>shutdown\<close> is a partial function with an option result; that it returns, after at most thirty
  polls, is a theorem about clocks that a sleep advances.  Paging by the caller uses fuel, and one more
  scan than the range has pairs is enough.  Counters, lengths and byte counts that can wrap are
  machine words; settings that are only compared and stored are natural numbers, and their
  parsers reject what does not fit the width.

  Not modelled: log lines other than the warnings of \<^verbatim>\<open>config.rs\<close> and \<^verbatim>\<open>tune.rs\<close>; \<^verbatim>\<open>Debug\<close> implementations; the conversion of
  decimals; the URL parser of the driver and everything else of sqlx, tokio, PostgreSQL and SurrealDB;
  the closing of a connection whose handle is dropped; \<^verbatim>\<open>debug_assert!\<close>, absent from a release
  build; \<^verbatim>\<open>main.rs\<close> and \<^verbatim>\<open>lib.rs\<close>; the
  tests that need a running server.
\<close>

section \<open>Properties that span the store, the wrapper and the transaction\<close>

lemma new_transaction_Ok:
  assumes "new_transaction drv st w l s = (Ok (p, loc), s')"
  obtains tx where "store_begin drv st w s = (Ok tx, s')" "fresh_tx st w tx" "loc"
    "p = ptx_new tx (sh_committed s') (sh_rolled_back s')"
proof -
  obtain tx where tx: "store_begin drv st w s = (Ok tx, s')" "loc"
    "p = ptx_new tx (sh_committed s') (sh_rolled_back s')"
    using assms by (auto simp: new_transaction_def split: prod.splits outcome.splits)
  then show thesis using that begin_fresh [of drv st w s tx] by simp
qed

lemma fresh_ready:
  "\<lbrakk>fresh_tx st w tx; store_ok st; pv_inv pv x; pv_healthy pv x; w \<longrightarrow> pv_rw pv x\<rbrakk> \<Longrightarrow>
     ready pv (table_name (st_config st)) tx x"
  by (auto simp: fresh_tx_def ready_def store_ok_def)

text \<open>The calls of an interleaved run, when none of them is a savepoint or a close.\<close>

lemma steps_of_ops: "steps_of (call_event srv) (map EvOp ops) c = steps_of (ptx_call srv) ops c"
  by (induction ops arbitrary: c) (simp_all add: case_prod_beta)

lemma overlapping_ops:
  assumes "kv_contract (ptx_call srv) tbl good rw to_kvs" "good (p, x)" "list_all offered ops"
    and "(lstep h srv)\<^sup>*\<^sup>* (conc_init p x) c" "\<not> fin p" "inner p = Some tx" "pwrite p = writeable tx"
    and "history_calls c = map EvOp ops"
  shows "history_answers c = map (map_err to_kvs) (fst (kv_steps (rw (p, x)) ops (tbl (p, x)))) \<and>
    ((\<forall>i. \<not> lcloses (ltask c i)) \<longrightarrow> tbl (mem c, sess c) = snd (kv_steps (rw (p, x)) ops (tbl (p, x))))"
proof -
  obtain p' x' where 1: "steps_of (ptx_call srv) ops (p, x) = (history_answers c, p', x')"
    "looks srv c p' x'"
    using steps_linear [OF assms(4-7)] by (auto simp: linear_def assms(8) steps_of_ops)
  have "p' = mem c \<and> x' = sess c" if "\<forall>i. \<not> lcloses (ltask c i)"
    by (rule looks_quiet [OF 1(2) that])
  with 1(1) kv_contract.steps_refine [OF assms(1-3)] show ?thesis by auto
qed


lemma pooled_store_ok: "store_ok pooled_store"
proof -
  have n: "fmt_nat 0 = ''0''" by (simp add: fmt_nat.simps)
  have "list_all (\<lambda>b. b) (tune_asserts default_tune)" "list_all (\<lambda>b. b) (session_asserts default_tune)"
    using toast_default memory_defaults f64_consts
    by (simp_all add: tune_asserts_def session_asserts_def default_tune_def)
  then have "tune_ok default_tune" by (simp add: tune_ok_def) (simp add: default_tune_def from_secs_def)
  then show ?thesis
    using default_config_ok by (simp add: store_ok_def pooled_store_def from_secs_def)
qed

lemma sim_transaction:
  "new_transaction sim_driver pooled_store True l sim0 =
     (Ok (ptx_new (new_pooled True ReadCommitted True (sql_new ''kv'') 2) 0 0, True),
      sim0\<lparr>sim_refusals := 0, sim_clock := 600000000, sh_started := 5, sh_active := 2\<rparr>)"
  unfolding new_transaction_def sim_begins by (simp add: sim0_def)


text \<open>
  The books balance over the life of a transaction.  Obtaining it counts one started and one active
  transaction.  Then whatever the caller does on the wrapper, key-value calls, savepoints, commits
  and cancels in any order, on any server, its drop at the end leaves exactly one more transaction
  committed or rolled back and the active count where it was before; and the inner transaction gives its
  count back at the first of any sequence of its own ends.
\<close>

theorem transaction_books_balance:
  assumes "stays (same_counts s) drv" "new_transaction drv st w l s = (Ok (p, loc), s')"
  shows "sh_started s' = sh_started s + 1 \<and> sh_active s' = sh_active s + 1 \<and>
    ended (ptx_drop (fst (fold (run_event srv) evs (p, x)))) = sh_committed s' + sh_rolled_back s' + 1 \<and>
    active_count (ptx_drop (fst (fold (run_event srv) evs (p, x)))) = sh_active s \<and>
    (\<exists>tx. inner p = Some tx \<and> tx_active (fst (snd (run_ends srv (e # es) (tx, x)))) = sh_active s)"
proof -
  obtain tx where tx: "store_begin drv st w s = (Ok tx, s')" "fresh_tx st w tx"
    "p = ptx_new tx (sh_committed s') (sh_rolled_back s')"
    using new_transaction_Ok [OF assms(2)] by blast
  have n: "sh_started s' = sh_started s + 1" "sh_active s' = sh_active s + 1" "tx_active tx = sh_active s'"
    using store_begin_began [OF assms(1), of st w] tx(1) by (simp_all add: began_def)
  obtain c where c: "conn tx = Some c" using tx(2) by (simp add: fresh_tx_def)
  have "in_books (sh_committed s' + sh_rolled_back s') (sh_active s') p"
    by (simp add: tx(3) in_books_def ptx_new_def ended_def active_count_def c n(3))
  then have "in_books (sh_committed s' + sh_rolled_back s') (sh_active s')
      (fst (fold (run_event srv) evs (p, x)))"
    by (intro events_books) simp
  note dropped = drop_books [OF this]
  obtain r y where "run_end srv e (tx, x) = (r, tx\<lparr>conn := None,
      savepoints := (if e = EDrop then savepoints tx else []), tx_active := tx_active tx - 1\<rparr>, y)"
    using run_end_open [OF c] by metis
  then have "tx_active (fst (snd (run_ends srv (e # es) (tx, x)))) = sh_active s"
    using n by (simp add: run_ends_closed)
  then show ?thesis
    using n tx(3) dropped by (simp add: ptx_new_def)
qed

theorem transaction_books_balance_witness:
  "ended (ptx_drop (fst (fold (run_event (ref_server ''kv''))
      [EvOp (KSet [1] [5]), EvSave, EvClose PCancel, EvClose PCommit]
      (ptx_new (new_pooled True ReadCommitted True (sql_new ''kv'') 2) 0 0, ref_begin True [])))) = 1"
proof -
  have "stays (same_counts sim0) sim_driver" by (rule sim_stays) (simp_all add: same_counts_def)
  from transaction_books_balance [OF this sim_transaction, where srv = "ref_server ''kv''" and
      evs = "[EvOp (KSet [1] [5]), EvSave, EvClose PCancel, EvClose PCommit]" and x = "ref_begin True []"]
  show ?thesis by (simp add: sim0_def)
qed

end
